theory Spec2Isabelle
  imports Main "HOL-Library.Word" "HOL-Library.DAList"
begin

section \<open>The Proteus session object\<close>

text \<open>
  A shallow embedding of the class \<open>Session\<close> of the proteus package.
  The class is translated method by method. Its collaborators live in other files:
  \<open>SessionState\<close>, \<open>SessionTag\<close>, the key classes, the CBOR encoder and decoder, the
  prekey store and \<open>MemoryUtil.zeroize\<close>. Their operations are parameters of the model
  (the records \<open>collaborators\<close> and \<open>PreKeyStore\<close>), so every theorem holds for every
  implementation of them, and the effects on them are recorded in a trace.
\<close>

subsection \<open>Errors\<close>

text \<open>
  A thrown JavaScript error is a value: its class (what \<open>instanceof\<close> tests) and its
  code. The message text is not modelled.
\<close>

datatype error_class =
    ProteusError | DecryptError | InvalidMessage | InvalidSignature
  | RemoteIdentityChanged | PrekeyNotFound | DuplicateMessage | OutdatedMessage
  | TooDistantFuture | DecodeError | LocalIdentityChanged | InvalidType
  | TypeError | OtherError

datatype error_code =
    CASE_101 | CASE_102 | CASE_200 | CASE_201 | CASE_202 | CASE_203 | CASE_204
  | CASE_205 | CASE_300 | CASE_301 | OtherCode nat

datatype error = Error (err_class: error_class) (err_code: "error_code option")

subsection \<open>Keys and messages\<close>

type_synonym bytes = "8 word list"

datatype PublicKey = PublicKey bytes
datatype SecretKey = SecretKey bytes
datatype KeyPair = KeyPair (kp_public_key: PublicKey) (kp_secret_key: SecretKey)
datatype IdentityKey = IdentityKey (ik_public_key: PublicKey)
datatype IdentityKeyPair = IdentityKeyPair (public_key: IdentityKey) (secret_key: SecretKey)
datatype PreKey = PreKey (key_id: "16 word") (key_pair: KeyPair)
datatype PreKeyBundle =
  PreKeyBundle (pkb_prekey_id: "16 word") (pkb_public_key: PublicKey) (pkb_identity_key: IdentityKey)
datatype SessionTag = SessionTag bytes

datatype CipherMessage =
  CipherMessage (cm_session_tag: SessionTag) (cm_counter: nat) (cm_prev_counter: nat)
    (cm_ratchet_key: PublicKey) (cm_cipher_text: bytes)

datatype PreKeyMessage =
  PreKeyMessage (pkm_prekey_id: "16 word") (pkm_base_key: PublicKey)
    (pkm_identity_key: IdentityKey) (pkm_message: CipherMessage)

text \<open>
  \<open>envelope.message\<close> is tested with \<open>instanceof\<close> against \<open>CipherMessage\<close> and
  \<open>PreKeyMessage\<close>; \<open>OtherMessage\<close> stands for a value that is neither.
\<close>

datatype Message = CipherMsg CipherMessage | PreKeyMsg PreKeyMessage | OtherMessage

datatype Envelope = Envelope (env_mac: bytes) (env_message: Message)

text \<open>
  Modelled from the spec: the constant \<open>PreKey.MAX_PREKEY_ID\<close> is declared in the key
  classes, outside the files at hand. Prekey ids are 16-bit and the sentinel of the
  last-resort prekey is the largest of them.
\<close>

definition MAX_PREKEY_ID :: "16 word" where
  "MAX_PREKEY_ID = 0xFFFF"

subsection \<open>The CBOR item stream\<close>

text \<open>
  Modelled from the spec: the \<open>Encoder\<close> and \<open>Decoder\<close> of the cbor package. The encoder
  appends items to a buffer and the decoder reads them from the front; the buffer is the
  list of items written. A map header \<open>TObject n\<close> announces \<open>n\<close> key/value pairs, an array
  header \<open>TArray n\<close> announces \<open>n\<close> items, every other item stands alone.
\<close>

datatype token = TObject nat | TArray nat | TUInt nat | TBytes bytes | TNull

type_synonym 'a decoder = "token list \<Rightarrow> error + ('a \<times> token list)"

definition dec_object :: "nat decoder" where
  "dec_object ts = (case ts of TObject n # r \<Rightarrow> Inr (n, r) | _ \<Rightarrow> Inl (Error DecodeError None))"

definition dec_u8 :: "nat decoder" where
  "dec_u8 ts =
     (case ts of
        TUInt n # r \<Rightarrow> if n \<le> 255 then Inr (n, r) else Inl (Error DecodeError None)
      | _ \<Rightarrow> Inl (Error DecodeError None))"

definition dec_u16 :: "nat decoder" where
  "dec_u16 ts =
     (case ts of
        TUInt n # r \<Rightarrow> if n \<le> 65535 then Inr (n, r) else Inl (Error DecodeError None)
      | _ \<Rightarrow> Inl (Error DecodeError None))"

text \<open>\<open>decoder.optional(f)\<close>: a null item is consumed and gives null, anything else is read by \<open>f\<close>.\<close>

definition dec_optional :: "'a decoder \<Rightarrow> 'a option decoder" where
  "dec_optional f ts =
     (case ts of
        TNull # r \<Rightarrow> Inr (None, r)
      | _ \<Rightarrow> (case f ts of Inl e \<Rightarrow> Inl e | Inr (v, r) \<Rightarrow> Inr (Some v, r)))"

text \<open>\<open>decoder.skip()\<close> drops one whole item; \<open>skip_items k\<close> drops \<open>k\<close> of them.\<close>

fun skip_items :: "nat \<Rightarrow> token list \<Rightarrow> error + token list" where
  "skip_items 0 ts = Inr ts"
| "skip_items (Suc k) [] = Inl (Error DecodeError None)"
| "skip_items (Suc k) (TObject n # ts) = skip_items (k + 2 * n) ts"
| "skip_items (Suc k) (TArray n # ts) = skip_items (k + n) ts"
| "skip_items (Suc k) (_ # ts) = skip_items k ts"

definition dec_skip :: "token list \<Rightarrow> error + token list" where
  "dec_skip ts = skip_items 1 ts"

subsection \<open>Collaborators\<close>

text \<open>
  The operations of the classes \<open>Session\<close> calls. A \<open>SessionState\<close> is an object that its
  own \<open>encrypt\<close> and \<open>decrypt\<close> mutate, also when they throw: both return the object as
  they leave it next to their outcome. A pending prekey is a JavaScript array of two
  slots; \<open>Session.decode\<close> can leave a slot unset, so each slot is optional.
\<close>

type_synonym PendingPreKey = "16 word option \<times> PublicKey option"

record 'ss collaborators =
  SessionTag_toString :: "SessionTag \<Rightarrow> string"
  SessionTag_encode :: "SessionTag \<Rightarrow> token list"
  SessionTag_decode :: "SessionTag decoder"
  IdentityKey_fingerprint :: "IdentityKey \<Rightarrow> string"
  IdentityKey_encode :: "IdentityKey \<Rightarrow> token list"
  IdentityKey_decode :: "IdentityKey decoder"
  PublicKey_encode :: "PublicKey \<Rightarrow> token list"
  PublicKey_decode :: "PublicKey decoder"
  SessionState_init_as_alice :: "IdentityKeyPair \<Rightarrow> KeyPair \<Rightarrow> PreKeyBundle \<Rightarrow> error + 'ss"
  SessionState_init_as_bob ::
    "IdentityKeyPair \<Rightarrow> KeyPair \<Rightarrow> IdentityKey \<Rightarrow> PublicKey \<Rightarrow> error + 'ss"
  SessionState_encrypt ::
    "IdentityKey \<Rightarrow> PendingPreKey option \<Rightarrow> SessionTag \<Rightarrow> bytes \<Rightarrow> 'ss \<Rightarrow> (error + Envelope) \<times> 'ss"
  SessionState_decrypt :: "Envelope \<Rightarrow> CipherMessage \<Rightarrow> 'ss \<Rightarrow> (error + bytes) \<times> 'ss"
  SessionState_serialise :: "'ss \<Rightarrow> bytes"
  SessionState_deserialise :: "bytes \<Rightarrow> error + 'ss"
  SessionState_encode :: "'ss \<Rightarrow> token list"
  SessionState_decode :: "'ss decoder"

text \<open>The prekey store is an object with a state of its own; both calls may throw.\<close>

record 'st PreKeyStore =
  load_prekey :: "16 word \<Rightarrow> 'st \<Rightarrow> (error + PreKey option) \<times> 'st"
  delete_prekey :: "16 word \<Rightarrow> 'st \<Rightarrow> (error + unit) \<times> 'st"

subsection \<open>Session data\<close>

record 'ss SessionStateEntry =
  idx :: nat
  state :: 'ss
  tag :: SessionTag

text \<open>
  \<open>session_states\<close> is a JavaScript object used as a dictionary from tag names to
  entries. \<open>Object.keys\<close> lists the names in insertion order (a tag name is never an
  array index), an assignment to an existing name keeps its place and an assignment to a
  new name appends it: an association list with distinct keys, \<open>DAList.update\<close> being the
  assignment. \<open>version\<close> holds the default 1 or a byte read by \<open>decoder.u8()\<close>;
  \<open>counter\<close> is a JavaScript number that stays an integer below \<open>2 ^ 53\<close>.
\<close>

record 'ss Session =
  local_identity :: IdentityKeyPair
  remote_identity :: IdentityKey
  version :: "8 word"
  counter :: nat
  pending_prekey :: "PendingPreKey option"
  session_states :: "(string, 'ss SessionStateEntry) alist"
  session_tag :: SessionTag
  session_tag_name :: string

text \<open>
  What the session does to the outside: the calls to the store and the objects handed to
  \<open>MemoryUtil.zeroize\<close>, in the order they happen.
\<close>

datatype 'ss event =
    LoadPrekey "16 word"
  | DeletePrekey "16 word"
  | ZeroizePrekey "PreKey option"
  | ZeroizeEntry "'ss SessionStateEntry"

record ('ss, 'st) world =
  store :: 'st
  trace :: "'ss event list"

definition MAX_RECV_CHAINS :: nat where
  "MAX_RECV_CHAINS = 5"

definition MAX_SESSION_STATES :: nat where
  "MAX_SESSION_STATES = 100"

definition MAX_SAFE_INTEGER :: nat where
  "MAX_SAFE_INTEGER = 2 ^ 53 - 1"

text \<open>The constructor; the caller supplies the values of the defaulted parameters.\<close>

definition new_Session ::
  "'ss collaborators \<Rightarrow> IdentityKeyPair \<Rightarrow> IdentityKey \<Rightarrow> SessionTag \<Rightarrow> PendingPreKey option \<Rightarrow>
   (string, 'ss SessionStateEntry) alist \<Rightarrow> 8 word \<Rightarrow> 'ss Session" where
  "new_Session C localIdentity remoteIdentity sessionTag pendingPrekey sessionStates vers =
     \<lparr> local_identity = localIdentity,
       remote_identity = remoteIdentity,
       version = vers,
       counter = 0,
       pending_prekey = pendingPrekey,
       session_states = sessionStates,
       session_tag = sessionTag,
       session_tag_name = SessionTag_toString C sessionTag \<rparr>"

subsection \<open>State map maintenance\<close>

definition obj_size :: "('k, 'v) alist \<Rightarrow> nat" where
  "obj_size obj = length (DAList.impl_of obj)"

text \<open>
  The candidates of an eviction: the entries under every name but the current one, in
  the order of \<open>Object.keys\<close>.
\<close>

definition eviction_candidates :: "'ss Session \<Rightarrow> (string \<times> 'ss SessionStateEntry) list" where
  "eviction_candidates S =
     filter (\<lambda>(sessionTagName, e). sessionTagName \<noteq> session_tag_name S)
       (DAList.impl_of (session_states S))"

text \<open>The callback of \<open>reduce\<close>: the later name wins only with a strictly smaller index.\<close>

definition lower_idx ::
  "string \<times> 'ss SessionStateEntry \<Rightarrow> string \<times> 'ss SessionStateEntry \<Rightarrow> string \<times> 'ss SessionStateEntry" where
  "lower_idx lowest obj = (if idx (snd obj) < idx (snd lowest) then obj else lowest)"

text \<open>
  \<open>reduce\<close> without an initial value starts from the first element and throws a
  \<open>TypeError\<close> on an empty array.
\<close>

definition evict_oldest_session_state ::
  "'ss Session \<times> ('ss, 'st) world \<Rightarrow> (error + unit) \<times> 'ss Session \<times> ('ss, 'st) world" where
  "evict_oldest_session_state = (\<lambda>(S, w).
     case eviction_candidates S of
       [] \<Rightarrow> (Inl (Error TypeError None), S, w)
     | first # rest \<Rightarrow>
         (let oldest = foldl lower_idx first rest
          in (Inr (),
              S\<lparr>session_states := DAList.delete (fst oldest) (session_states S)\<rparr>,
              w\<lparr>trace := trace w @ [ZeroizeEntry (snd oldest)]\<rparr>)))"

text \<open>The part of \<open>_insert_session_state\<close> before the size test.\<close>

definition store_session_state :: "'ss collaborators \<Rightarrow> SessionTag \<Rightarrow> 'ss \<Rightarrow> 'ss Session \<Rightarrow> 'ss Session" where
  "store_session_state C sessionTag st S =
     (let sessionTagName = SessionTag_toString C sessionTag;
          S1 = (if DAList.lookup (session_states S) sessionTagName \<noteq> None
                then S\<lparr>session_states :=
                         DAList.map_entry sessionTagName (\<lambda>e. e\<lparr>state := st\<rparr>) (session_states S)\<rparr>
                else
                  (let S0 = (if counter S \<ge> MAX_SAFE_INTEGER
                             then S\<lparr>session_states := DAList.empty, counter := 0\<rparr> else S)
                   in S0\<lparr>session_states :=
                           DAList.update sessionTagName
                             \<lparr>idx = counter S0, state = st, tag = sessionTag\<rparr> (session_states S0),
                         counter := counter S0 + 1\<rparr>))
      in if session_tag_name S1 \<noteq> sessionTagName
         then S1\<lparr>session_tag := sessionTag, session_tag_name := sessionTagName\<rparr>
         else S1)"

definition insert_session_state ::
  "'ss collaborators \<Rightarrow> SessionTag \<Rightarrow> 'ss \<Rightarrow> 'ss Session \<times> ('ss, 'st) world \<Rightarrow>
   (error + unit) \<times> 'ss Session \<times> ('ss, 'st) world" where
  "insert_session_state C sessionTag st = (\<lambda>(S, w).
     (let S2 = store_session_state C sessionTag st S
      in if obj_size (session_states S2) < MAX_SESSION_STATES
         then (Inr (), S2, w)
         else evict_oldest_session_state (S2, w)))"

subsection \<open>Calls to the prekey store and to zeroize\<close>

definition store_load ::
  "'st PreKeyStore \<Rightarrow> 16 word \<Rightarrow> ('ss, 'st) world \<Rightarrow> (error + PreKey option) \<times> ('ss, 'st) world" where
  "store_load P i w =
     (case load_prekey P i (store w) of
        (r, s) \<Rightarrow> (r, w\<lparr>store := s, trace := trace w @ [LoadPrekey i]\<rparr>))"

definition store_delete ::
  "'st PreKeyStore \<Rightarrow> 16 word \<Rightarrow> ('ss, 'st) world \<Rightarrow> (error + unit) \<times> ('ss, 'st) world" where
  "store_delete P i w =
     (case delete_prekey P i (store w) of
        (r, s) \<Rightarrow> (r, w\<lparr>store := s, trace := trace w @ [DeletePrekey i]\<rparr>))"

definition zeroize_prekey :: "PreKey option \<Rightarrow> ('ss, 'st) world \<Rightarrow> ('ss, 'st) world" where
  "zeroize_prekey prekey w = w\<lparr>trace := trace w @ [ZeroizePrekey prekey]\<rparr>"

subsection \<open>Deriving a state from a prekey message\<close>

definition new_state ::
  "'ss collaborators \<Rightarrow> 'st PreKeyStore \<Rightarrow> PreKeyMessage \<Rightarrow> 'ss Session \<times> ('ss, 'st) world \<Rightarrow>
   (error + 'ss) \<times> ('ss, 'st) world" where
  "new_state C preKeyStore preKeyMessage = (\<lambda>(S, w).
     case store_load preKeyStore (pkm_prekey_id preKeyMessage) w of
       (Inl e, w1) \<Rightarrow> (Inl e, w1)
     | (Inr (Some pre_key), w1) \<Rightarrow>
         (SessionState_init_as_bob C (local_identity S) (key_pair pre_key)
            (pkm_identity_key preKeyMessage) (pkm_base_key preKeyMessage), w1)
     | (Inr None, w1) \<Rightarrow> (Inl (Error ProteusError (Some CASE_101)), w1))"

subsection \<open>Factories\<close>

text \<open>
  \<open>init_from_prekey\<close> draws a key pair and a session tag at random; both are arguments
  here.
\<close>

definition init_from_prekey ::
  "'ss collaborators \<Rightarrow> IdentityKeyPair \<Rightarrow> PreKeyBundle \<Rightarrow> KeyPair \<Rightarrow> SessionTag \<Rightarrow>
   ('ss, 'st) world \<Rightarrow> (error + 'ss Session) \<times> ('ss, 'st) world" where
  "init_from_prekey C local_id remote_pkbundle alice_base new_tag w =
     (case SessionState_init_as_alice C local_id alice_base remote_pkbundle of
        Inl e \<Rightarrow> (Inl e, w)
      | Inr st \<Rightarrow>
          (let pendingPrekey = (Some (pkb_prekey_id remote_pkbundle), Some (kp_public_key alice_base));
               session = new_Session C local_id (pkb_identity_key remote_pkbundle) new_tag
                           (Some pendingPrekey) DAList.empty 1
           in case insert_session_state C new_tag st (session, w) of
                (Inl e, session', w') \<Rightarrow> (Inl e, w')
              | (Inr u, session', w') \<Rightarrow> (Inr session', w')))"

text \<open>
  The prekey consumption of \<open>init_from_message\<close>: the block guarded by
  \<open>prekey_id < MAX_PREKEY_ID\<close>, with the \<open>try\<close> around the delete.
\<close>

definition consume_prekey_init ::
  "'st PreKeyStore \<Rightarrow> 16 word \<Rightarrow> ('ss, 'st) world \<Rightarrow> (error + unit) \<times> ('ss, 'st) world" where
  "consume_prekey_init prekey_store i w =
     (if i < MAX_PREKEY_ID then
        (case store_load prekey_store i w of
           (Inl e, w1) \<Rightarrow> (Inl e, w1)
         | (Inr prekey, w1) \<Rightarrow>
             (case store_delete prekey_store i (zeroize_prekey prekey w1) of
                (Inl e, w2) \<Rightarrow> (Inl (Error PrekeyNotFound (Some CASE_203)), w2)
              | (Inr u, w2) \<Rightarrow> (Inr (), w2)))
      else (Inr (), w))"

definition init_from_message ::
  "'ss collaborators \<Rightarrow> 'st PreKeyStore \<Rightarrow> IdentityKeyPair \<Rightarrow> Envelope \<Rightarrow> ('ss, 'st) world \<Rightarrow>
   (error + 'ss Session \<times> bytes) \<times> ('ss, 'st) world" where
  "init_from_message C prekey_store ourIdentity envelope w =
     (case env_message envelope of
        CipherMsg m \<Rightarrow> (Inl (Error InvalidMessage (Some CASE_201)), w)
      | PreKeyMsg preKeyMessage \<Rightarrow>
          (let session = new_Session C ourIdentity (pkm_identity_key preKeyMessage)
                           (cm_session_tag (pkm_message preKeyMessage)) None DAList.empty 1
           in case new_state C prekey_store preKeyMessage (session, w) of
                (Inl e, w1) \<Rightarrow> (Inl e, w1)
              | (Inr st, w1) \<Rightarrow>
                  (case SessionState_decrypt C envelope (pkm_message preKeyMessage) st of
                     (Inl e, st') \<Rightarrow> (Inl e, w1)
                   | (Inr plain, st') \<Rightarrow>
                       (case insert_session_state C (cm_session_tag (pkm_message preKeyMessage)) st'
                               (session, w1) of
                          (Inl e, session', w2) \<Rightarrow> (Inl e, w2)
                        | (Inr u, session', w2) \<Rightarrow>
                            (case consume_prekey_init prekey_store (pkm_prekey_id preKeyMessage) w2 of
                               (Inl e, w3) \<Rightarrow> (Inl e, w3)
                             | (Inr u', w3) \<Rightarrow> (Inr (session', plain), w3)))))
      | OtherMessage \<Rightarrow> (Inl (Error InvalidMessage (Some CASE_202)), w))"

subsection \<open>Encrypt\<close>

text \<open>\<open>state.encrypt\<close> advances the sending chain of the stored state object itself.\<close>

definition encrypt ::
  "'ss collaborators \<Rightarrow> bytes \<Rightarrow> 'ss Session \<times> ('ss, 'st) world \<Rightarrow>
   (error + Envelope) \<times> 'ss Session \<times> ('ss, 'st) world" where
  "encrypt C plaintext = (\<lambda>(S, w).
     case DAList.lookup (session_states S) (session_tag_name S) of
       None \<Rightarrow> (Inl (Error ProteusError (Some CASE_102)), S, w)
     | Some session_state \<Rightarrow>
         (case SessionState_encrypt C (public_key (local_identity S)) (pending_prekey S)
                 (session_tag S) plaintext (state session_state) of
            (r, st') \<Rightarrow>
              (r, S\<lparr>session_states :=
                      DAList.map_entry (session_tag_name S) (\<lambda>e. e\<lparr>state := st'\<rparr>) (session_states S)\<rparr>,
               w)))"

subsection \<open>Decrypt\<close>

text \<open>
  \<open>_decrypt_cipher_message\<close> decrypts with a copy of the stored state, made by
  \<open>SessionState.deserialise(state.state.serialise())\<close>: what \<open>decrypt\<close> mutates is the
  copy, and the copy reaches the map only through \<open>_insert_session_state\<close>.
\<close>

definition decrypt_cipher_message ::
  "'ss collaborators \<Rightarrow> Envelope \<Rightarrow> CipherMessage \<Rightarrow> 'ss Session \<times> ('ss, 'st) world \<Rightarrow>
   (error + bytes) \<times> 'ss Session \<times> ('ss, 'st) world" where
  "decrypt_cipher_message C envelope msg = (\<lambda>(S, w).
     case DAList.lookup (session_states S) (SessionTag_toString C (cm_session_tag msg)) of
       None \<Rightarrow> (Inl (Error InvalidMessage (Some CASE_205)), S, w)
     | Some entry \<Rightarrow>
         (case SessionState_deserialise C (SessionState_serialise C (state entry)) of
            Inl e \<Rightarrow> (Inl e, S, w)
          | Inr sessionState \<Rightarrow>
              (case SessionState_decrypt C envelope msg sessionState of
                 (Inl e, sessionState') \<Rightarrow> (Inl e, S, w)
               | (Inr plaintext, sessionState') \<Rightarrow>
                   (case insert_session_state C (cm_session_tag msg) sessionState'
                           (S\<lparr>pending_prekey := None\<rparr>, w) of
                      (Inl e, S', w') \<Rightarrow> (Inl e, S', w')
                    | (Inr u, S', w') \<Rightarrow> (Inr plaintext, S', w')))))"

text \<open>
  The prekey consumption of the recovery branch: the block guarded by
  \<open>prekey_id !== MAX_PREKEY_ID\<close>, with no \<open>try\<close>.
\<close>

definition consume_prekey_recovery ::
  "'st PreKeyStore \<Rightarrow> 16 word \<Rightarrow> ('ss, 'st) world \<Rightarrow> (error + unit) \<times> ('ss, 'st) world" where
  "consume_prekey_recovery prekey_store i w =
     (if i \<noteq> MAX_PREKEY_ID then
        (case store_load prekey_store i w of
           (Inl e, w1) \<Rightarrow> (Inl e, w1)
         | (Inr prekey, w1) \<Rightarrow> store_delete prekey_store i (zeroize_prekey prekey w1))
      else (Inr (), w))"

text \<open>The \<open>catch\<close> block of \<open>_decrypt_prekey_message\<close>, for an error that passed the class test.\<close>

definition recover_with_new_state ::
  "'ss collaborators \<Rightarrow> 'st PreKeyStore \<Rightarrow> Envelope \<Rightarrow> PreKeyMessage \<Rightarrow>
   'ss Session \<times> ('ss, 'st) world \<Rightarrow> (error + bytes) \<times> 'ss Session \<times> ('ss, 'st) world" where
  "recover_with_new_state C prekey_store envelope msg = (\<lambda>(S, w).
     case new_state C prekey_store msg (S, w) of
       (Inl e, w1) \<Rightarrow> (Inl e, S, w1)
     | (Inr st, w1) \<Rightarrow>
         (case SessionState_decrypt C envelope (pkm_message msg) st of
            (Inl e, st') \<Rightarrow> (Inl e, S, w1)
          | (Inr plaintext, st') \<Rightarrow>
              (case consume_prekey_recovery prekey_store (pkm_prekey_id msg) w1 of
                 (Inl e, w2) \<Rightarrow> (Inl e, S, w2)
               | (Inr u, w2) \<Rightarrow>
                   (case insert_session_state C (cm_session_tag (pkm_message msg)) st' (S, w2) of
                      (Inl e, S', w3) \<Rightarrow> (Inl e, S', w3)
                    | (Inr u', S', w3) \<Rightarrow> (Inr plaintext, S'\<lparr>pending_prekey := None\<rparr>, w3)))))"

definition decrypt_prekey_message ::
  "'ss collaborators \<Rightarrow> 'st PreKeyStore \<Rightarrow> Envelope \<Rightarrow> PreKeyMessage \<Rightarrow>
   'ss Session \<times> ('ss, 'st) world \<Rightarrow> (error + bytes) \<times> 'ss Session \<times> ('ss, 'st) world" where
  "decrypt_prekey_message C prekey_store envelope msg = (\<lambda>(S, w).
     case decrypt_cipher_message C envelope (pkm_message msg) (S, w) of
       (Inr plaintext, S', w') \<Rightarrow> (Inr plaintext, S', w')
     | (Inl err, S', w') \<Rightarrow>
         if err_class err = InvalidSignature \<or> err_class err = InvalidMessage
         then recover_with_new_state C prekey_store envelope msg (S', w')
         else (Inl err, S', w'))"

definition decrypt ::
  "'ss collaborators \<Rightarrow> 'st PreKeyStore \<Rightarrow> Envelope \<Rightarrow> 'ss Session \<times> ('ss, 'st) world \<Rightarrow>
   (error + bytes) \<times> 'ss Session \<times> ('ss, 'st) world" where
  "decrypt C prekey_store envelope = (\<lambda>(S, w).
     case env_message envelope of
       CipherMsg m \<Rightarrow> decrypt_cipher_message C envelope m (S, w)
     | PreKeyMsg preKeyMessage \<Rightarrow>
         (let actual_fingerprint = IdentityKey_fingerprint C (pkm_identity_key preKeyMessage);
              expected_fingerprint = IdentityKey_fingerprint C (remote_identity S)
          in if actual_fingerprint \<noteq> expected_fingerprint
             then (Inl (Error RemoteIdentityChanged (Some CASE_204)), S, w)
             else decrypt_prekey_message C prekey_store envelope preKeyMessage (S, w))
     | OtherMessage \<Rightarrow> (Inl (Error DecryptError (Some CASE_200)), S, w))"

subsection \<open>Serialisation\<close>

text \<open>
  The encoder is handed an unset slot of the pending prekey only for a session that
  \<open>decode\<close> built from a malformed pending prekey; \<open>encode\<close> then throws, which is the
  result \<open>None\<close>.
\<close>

definition encode_pending_prekey :: "'ss collaborators \<Rightarrow> PendingPreKey option \<Rightarrow> token list option" where
  "encode_pending_prekey C pp =
     (case pp of
        None \<Rightarrow> Some [TNull]
      | Some (Some i, Some k) \<Rightarrow>
          Some ([TObject 2, TUInt 0, TUInt (unat i), TUInt 1] @ PublicKey_encode C k)
      | Some _ \<Rightarrow> None)"

definition encode_session_states :: "'ss collaborators \<Rightarrow> (string \<times> 'ss SessionStateEntry) list \<Rightarrow> token list" where
  "encode_session_states C entries =
     concat (map (\<lambda>(sessionStatesIndex, e). SessionTag_encode C (tag e) @ SessionState_encode C (state e))
               entries)"

definition encode :: "'ss collaborators \<Rightarrow> 'ss Session \<Rightarrow> token list option" where
  "encode C S =
     (case encode_pending_prekey C (pending_prekey S) of
        None \<Rightarrow> None
      | Some pp \<Rightarrow>
          Some ([TObject 6, TUInt 0, TUInt (unat (version S)), TUInt 1]
                @ SessionTag_encode C (session_tag S)
                @ [TUInt 2] @ IdentityKey_encode C (public_key (local_identity S))
                @ [TUInt 3] @ IdentityKey_encode C (remote_identity S)
                @ [TUInt 4] @ pp
                @ [TUInt 5, TObject (obj_size (session_states S))]
                @ encode_session_states C (DAList.impl_of (session_states S))))"

definition serialise :: "'ss collaborators \<Rightarrow> 'ss Session \<Rightarrow> token list option" where
  "serialise C S = encode C S"

text \<open>The inner loop of case 4 of \<open>decode\<close>: \<open>n\<close> rounds, each reading a key and, for 0 and 1, a value.\<close>

fun decode_pending_prekey ::
  "'ss collaborators \<Rightarrow> nat \<Rightarrow> PendingPreKey \<Rightarrow> token list \<Rightarrow> error + (PendingPreKey \<times> token list)" where
  "decode_pending_prekey C 0 pp ts = Inr (pp, ts)"
| "decode_pending_prekey C (Suc n) pp ts =
     (case dec_u8 ts of
        Inl e \<Rightarrow> Inl e
      | Inr (k, ts1) \<Rightarrow>
          if k = 0 then
            (case dec_u16 ts1 of
               Inl e \<Rightarrow> Inl e
             | Inr (v, ts2) \<Rightarrow> decode_pending_prekey C n (Some (word_of_nat v), snd pp) ts2)
          else if k = 1 then
            (case PublicKey_decode C ts1 of
               Inl e \<Rightarrow> Inl e
             | Inr (v, ts2) \<Rightarrow> decode_pending_prekey C n (fst pp, Some v) ts2)
          else decode_pending_prekey C n pp ts1)"

text \<open>The loop of case 5: \<open>n\<close> entries still to read, \<open>index\<close> the loop variable.\<close>

fun decode_session_states ::
  "'ss collaborators \<Rightarrow> nat \<Rightarrow> nat \<Rightarrow> (string, 'ss SessionStateEntry) alist \<Rightarrow> token list \<Rightarrow>
   error + ((string, 'ss SessionStateEntry) alist \<times> token list)" where
  "decode_session_states C 0 index sessionStates ts = Inr (sessionStates, ts)"
| "decode_session_states C (Suc n) index sessionStates ts =
     (case SessionTag_decode C ts of
        Inl e \<Rightarrow> Inl e
      | Inr (t, ts1) \<Rightarrow>
          (case SessionState_decode C ts1 of
             Inl e \<Rightarrow> Inl e
           | Inr (st, ts2) \<Rightarrow>
               decode_session_states C n (Suc index)
                 (DAList.update (SessionTag_toString C t) \<lparr>idx = index, state = st, tag = t\<rparr> sessionStates)
                 ts2))"

text \<open>
  The local variables of \<open>decode\<close>. An undefined \<open>pendingPrekey\<close> becomes the default
  \<open>null\<close> of the constructor, so both are \<open>None\<close>.
\<close>

record 'ss decode_vars =
  v_version :: "8 word option"
  v_sessionTag :: "SessionTag option"
  v_remoteIdentity :: "IdentityKey option"
  v_pendingPrekey :: "PendingPreKey option"
  v_sessionStates :: "(string, 'ss SessionStateEntry) alist"

text \<open>The outer loop of \<open>decode\<close>: \<open>n\<close> properties still to read.\<close>

fun decode_properties ::
  "'ss collaborators \<Rightarrow> IdentityKeyPair \<Rightarrow> nat \<Rightarrow> 'ss decode_vars \<Rightarrow> token list \<Rightarrow>
   error + ('ss decode_vars \<times> token list)" where
  "decode_properties C localIdentity 0 vs ts = Inr (vs, ts)"
| "decode_properties C localIdentity (Suc n) vs ts =
     (case dec_u8 ts of
        Inl e \<Rightarrow> Inl e
      | Inr (k, ts1) \<Rightarrow>
          if k = 0 then
            (case dec_u8 ts1 of
               Inl e \<Rightarrow> Inl e
             | Inr (v, ts2) \<Rightarrow>
                 decode_properties C localIdentity n (vs\<lparr>v_version := Some (word_of_nat v)\<rparr>) ts2)
          else if k = 1 then
            (case SessionTag_decode C ts1 of
               Inl e \<Rightarrow> Inl e
             | Inr (t, ts2) \<Rightarrow> decode_properties C localIdentity n (vs\<lparr>v_sessionTag := Some t\<rparr>) ts2)
          else if k = 2 then
            (case IdentityKey_decode C ts1 of
               Inl e \<Rightarrow> Inl e
             | Inr (identity_key, ts2) \<Rightarrow>
                 if IdentityKey_fingerprint C (public_key localIdentity)
                      \<noteq> IdentityKey_fingerprint C identity_key
                 then Inl (Error LocalIdentityChanged (Some CASE_300))
                 else decode_properties C localIdentity n vs ts2)
          else if k = 3 then
            (case IdentityKey_decode C ts1 of
               Inl e \<Rightarrow> Inl e
             | Inr (r, ts2) \<Rightarrow> decode_properties C localIdentity n (vs\<lparr>v_remoteIdentity := Some r\<rparr>) ts2)
          else if k = 4 then
            (case dec_optional dec_object ts1 of
               Inl e \<Rightarrow> Inl e
             | Inr (None, ts2) \<Rightarrow> decode_properties C localIdentity n (vs\<lparr>v_pendingPrekey := None\<rparr>) ts2
             | Inr (Some m, ts2) \<Rightarrow>
                 if m = 2 then
                   (case decode_pending_prekey C 2 (None, None) ts2 of
                      Inl e \<Rightarrow> Inl e
                    | Inr (pp, ts3) \<Rightarrow>
                        decode_properties C localIdentity n (vs\<lparr>v_pendingPrekey := Some pp\<rparr>) ts3)
                 else Inl (Error InvalidType (Some CASE_301)))
          else if k = 5 then
            (case dec_object ts1 of
               Inl e \<Rightarrow> Inl e
             | Inr (nprops, ts2) \<Rightarrow>
                 (case decode_session_states C nprops 0 DAList.empty ts2 of
                    Inl e \<Rightarrow> Inl e
                  | Inr (sessionStates, ts3) \<Rightarrow>
                      decode_properties C localIdentity n (vs\<lparr>v_sessionStates := sessionStates\<rparr>) ts3))
          else
            (case dec_skip ts1 of
               Inl e \<Rightarrow> Inl e
             | Inr ts2 \<Rightarrow> decode_properties C localIdentity n vs ts2))"

text \<open>
  \<open>decode\<close>. A missing session tag makes the constructor draw a random one, the argument
  \<open>new_tag\<close>; a missing version is the default 1.
\<close>

definition decode ::
  "'ss collaborators \<Rightarrow> IdentityKeyPair \<Rightarrow> SessionTag \<Rightarrow> token list \<Rightarrow> error + 'ss Session" where
  "decode C localIdentity new_tag ts =
     (case dec_object ts of
        Inl e \<Rightarrow> Inl e
      | Inr (propertiesLength, ts1) \<Rightarrow>
          (case decode_properties C localIdentity propertiesLength
                  \<lparr>v_version = None, v_sessionTag = None, v_remoteIdentity = None,
                   v_pendingPrekey = None, v_sessionStates = DAList.empty\<rparr> ts1 of
             Inl e \<Rightarrow> Inl e
           | Inr (vs, ts2) \<Rightarrow>
               (case v_remoteIdentity vs of
                  None \<Rightarrow> Inl (Error DecodeError None)
                | Some remoteIdentity \<Rightarrow>
                    Inr (new_Session C localIdentity remoteIdentity
                           (case v_sessionTag vs of None \<Rightarrow> new_tag | Some t \<Rightarrow> t)
                           (v_pendingPrekey vs) (v_sessionStates vs)
                           (case v_version vs of None \<Rightarrow> 1 | Some v \<Rightarrow> v)))))"

definition deserialise ::
  "'ss collaborators \<Rightarrow> IdentityKeyPair \<Rightarrow> SessionTag \<Rightarrow> token list \<Rightarrow> error + 'ss Session" where
  "deserialise C local_id new_tag buf = decode C local_id new_tag buf"

subsection \<open>Contracts of the collaborators and reachable sessions\<close>

text \<open>
  The contract of the four codecs \<open>Session\<close> relies on: each decoder reads back what its
  encoder wrote and leaves the rest of the buffer.
\<close>

definition codec_ok :: "'ss collaborators \<Rightarrow> bool" where
  "codec_ok C \<longleftrightarrow>
     (\<forall>t r. SessionTag_decode C (SessionTag_encode C t @ r) = Inr (t, r)) \<and>
     (\<forall>k r. IdentityKey_decode C (IdentityKey_encode C k @ r) = Inr (k, r)) \<and>
     (\<forall>k r. PublicKey_decode C (PublicKey_encode C k @ r) = Inr (k, r)) \<and>
     (\<forall>s r. SessionState_decode C (SessionState_encode C s @ r) = Inr (s, r))"

text \<open>
  The sessions a caller can hold: made by a factory, driven by \<open>encrypt\<close> and \<open>decrypt\<close>
  (whether they return or throw), and reloaded from their own serialisation.
\<close>

inductive reachable :: "'ss collaborators \<Rightarrow> 'st PreKeyStore \<Rightarrow> 'ss Session \<Rightarrow> bool"
  for C :: "'ss collaborators" and P :: "'st PreKeyStore" where
  from_prekey:
    "init_from_prekey C local_id bundle alice_base new_tag (w :: ('ss, 'st) world) = (Inr S, w')
     \<Longrightarrow> reachable C P S"
| from_message:
    "init_from_message C P ourIdentity envelope w = (Inr (S, plain), w') \<Longrightarrow> reachable C P S"
| after_encrypt:
    "reachable C P S \<Longrightarrow> encrypt C plaintext (S, w :: ('ss, 'st) world) = (r, S', w')
     \<Longrightarrow> reachable C P S'"
| after_decrypt:
    "reachable C P S \<Longrightarrow> decrypt C P envelope (S, w) = (r, S', w') \<Longrightarrow> reachable C P S'"
| reloaded:
    "reachable C P S \<Longrightarrow> serialise C S = Some buf \<Longrightarrow> deserialise C local_id new_tag buf = Inr S'
     \<Longrightarrow> reachable C P S'"

subsection \<open>Invariants of reachable sessions\<close>

text \<open>
  The entries of a table with their \<open>idx\<close> replaced by their positions, counted from \<open>i\<close>:
  what \<open>decode\<close> makes of the entries \<open>encode\<close> wrote.
\<close>

fun reindexed ::
  "nat \<Rightarrow> (string \<times> 'ss SessionStateEntry) list \<Rightarrow> (string \<times> 'ss SessionStateEntry) list" where
  "reindexed i [] = []"
| "reindexed i ((k, e) # entries) = (k, e\<lparr>idx := i\<rparr>) # reindexed (Suc i) entries"

text \<open>
  The shape every session made by the factories has and every operation keeps: each
  entry is filed under the name of its own tag, \<open>session_tag_name\<close> is the name of
  \<open>session_tag\<close>, and a pending prekey has both its slots set.
\<close>

definition well_formed :: "'ss collaborators \<Rightarrow> 'ss Session \<Rightarrow> bool" where
  "well_formed C S \<longleftrightarrow>
     (\<forall>(k, e) \<in> set (DAList.impl_of (session_states S)). k = SessionTag_toString C (tag e)) \<and>
     session_tag_name S = SessionTag_toString C (session_tag S) \<and>
     (case pending_prekey S of None \<Rightarrow> True | Some (i, k) \<Rightarrow> i \<noteq> None \<and> k \<noteq> None)"

text \<open>Every entry of a table is filed under the name of its own tag.\<close>

definition tags_filed :: "'ss collaborators \<Rightarrow> (string, 'ss SessionStateEntry) alist \<Rightarrow> bool" where
  "tags_filed C m \<longleftrightarrow> (\<forall>(k, e) \<in> set (DAList.impl_of m). k = SessionTag_toString C (tag e))"

text \<open>Well formed, with at most \<open>MAX_SESSION_STATES\<close> states.\<close>

definition bounded :: "'ss collaborators \<Rightarrow> 'ss Session \<Rightarrow> bool" where
  "bounded C S \<longleftrightarrow> well_formed C S \<and> obj_size (session_states S) \<le> MAX_SESSION_STATES"

text \<open>Every entry was numbered before the counter reached its present value.\<close>

definition idx_below_counter :: "'ss Session \<Rightarrow> bool" where
  "idx_below_counter S \<longleftrightarrow> (\<forall>(k, e) \<in> set (DAList.impl_of (session_states S)). idx e < counter S)"

text \<open>
  Two sessions that are equal but for the \<open>idx\<close> of their entries: every field agrees, the
  private counter included, and the tables hold the same names, tags and states in the
  same order.
\<close>

definition equal_modulo_idx :: "'ss Session \<Rightarrow> 'ss Session \<Rightarrow> bool" where
  "equal_modulo_idx A B \<longleftrightarrow>
     local_identity A = local_identity B \<and>
     remote_identity A = remote_identity B \<and>
     version A = version B \<and>
     counter A = counter B \<and>
     pending_prekey A = pending_prekey B \<and>
     session_tag A = session_tag B \<and>
     session_tag_name A = session_tag_name B \<and>
     map (\<lambda>(k, e). (k, tag e, state e)) (DAList.impl_of (session_states A))
       = map (\<lambda>(k, e). (k, tag e, state e)) (DAList.impl_of (session_states B))"

section \<open>An instance to run the model on\<close>

text \<open>
  A toy implementation of the collaborators, a prekey store and two parties, on which the
  definitions above are evaluated. Tag names and fingerprints are lowercase hexadecimal.
\<close>

text \<open>The digit of a nibble; both callers pass a number below 16.\<close>

definition hex_digit :: "nat \<Rightarrow> char" where
  "hex_digit n = ''0123456789abcdef'' ! n"

definition hex_byte :: "8 word \<Rightarrow> string" where
  "hex_byte w = [hex_digit (unat w div 16), hex_digit (unat w mod 16)]"

fun demo_tag_name :: "SessionTag \<Rightarrow> string" where
  "demo_tag_name (SessionTag b) = concat (map hex_byte b)"

fun demo_fingerprint :: "IdentityKey \<Rightarrow> string" where
  "demo_fingerprint (IdentityKey (PublicKey b)) = concat (map hex_byte b)"

fun demo_tag_encode :: "SessionTag \<Rightarrow> token list" where
  "demo_tag_encode (SessionTag b) = [TBytes b]"

fun demo_tag_decode :: "SessionTag decoder" where
  "demo_tag_decode (TBytes b # r) = Inr (SessionTag b, r)"
| "demo_tag_decode ts = Inl (Error DecodeError None)"

fun demo_public_key_encode :: "PublicKey \<Rightarrow> token list" where
  "demo_public_key_encode (PublicKey b) = [TObject 1, TUInt 0, TBytes b]"

fun demo_public_key_decode :: "PublicKey decoder" where
  "demo_public_key_decode (TObject n # TUInt k # TBytes b # r) =
     (if n = 1 \<and> k = 0 then Inr (PublicKey b, r) else Inl (Error DecodeError None))"
| "demo_public_key_decode ts = Inl (Error DecodeError None)"

fun demo_identity_key_encode :: "IdentityKey \<Rightarrow> token list" where
  "demo_identity_key_encode (IdentityKey (PublicKey b)) = [TObject 1, TUInt 0, TObject 1, TUInt 0, TBytes b]"

fun demo_identity_key_decode :: "IdentityKey decoder" where
  "demo_identity_key_decode (TObject n # TUInt k # TObject n' # TUInt k' # TBytes b # r) =
     (if n = 1 \<and> k = 0 \<and> n' = 1 \<and> k' = 0 then Inr (IdentityKey (PublicKey b), r)
      else Inl (Error DecodeError None))"
| "demo_identity_key_decode ts = Inl (Error DecodeError None)"

text \<open>A toy ratchet: the state is the number of the next message it accepts.\<close>

definition demo_decrypt :: "Envelope \<Rightarrow> CipherMessage \<Rightarrow> nat \<Rightarrow> (error + bytes) \<times> nat" where
  "demo_decrypt envelope msg st =
     (if env_mac envelope \<noteq> [] then (Inl (Error InvalidSignature None), st)
      else if cm_counter msg < st then (Inl (Error DuplicateMessage None), st)
      else (Inr (cm_cipher_text msg), Suc (cm_counter msg)))"

definition demo_encrypt ::
  "IdentityKey \<Rightarrow> PendingPreKey option \<Rightarrow> SessionTag \<Rightarrow> bytes \<Rightarrow> nat \<Rightarrow> (error + Envelope) \<times> nat" where
  "demo_encrypt k pp t plaintext st =
     (Inr (Envelope [] (CipherMsg (CipherMessage t st 0 (PublicKey []) plaintext))), Suc st)"

fun demo_state_decode :: "nat decoder" where
  "demo_state_decode (TUInt n # r) = Inr (n, r)"
| "demo_state_decode ts = Inl (Error DecodeError None)"

definition demo_collaborators :: "nat collaborators" where
  "demo_collaborators =
     \<lparr> SessionTag_toString = demo_tag_name,
       SessionTag_encode = demo_tag_encode,
       SessionTag_decode = demo_tag_decode,
       IdentityKey_fingerprint = demo_fingerprint,
       IdentityKey_encode = demo_identity_key_encode,
       IdentityKey_decode = demo_identity_key_decode,
       PublicKey_encode = demo_public_key_encode,
       PublicKey_decode = demo_public_key_decode,
       SessionState_init_as_alice = (\<lambda>local_id base bundle. Inr 0),
       SessionState_init_as_bob = (\<lambda>local_id prekey_pair remote_id base. Inr 0),
       SessionState_encrypt = demo_encrypt,
       SessionState_decrypt = demo_decrypt,
       SessionState_serialise = (\<lambda>st. replicate st 1),
       SessionState_deserialise = (\<lambda>b. Inr (length b)),
       SessionState_encode = (\<lambda>st. [TUInt st]),
       SessionState_decode = demo_state_decode \<rparr>"

text \<open>A store that keeps its prekeys in a list, and one whose delete always fails.\<close>

definition demo_store :: "(16 word \<times> PreKey) list PreKeyStore" where
  "demo_store =
     \<lparr> load_prekey = (\<lambda>i s. (Inr (map_of s i), s)),
       delete_prekey = (\<lambda>i s. (Inr (), filter (\<lambda>(k, p). k \<noteq> i) s)) \<rparr>"

definition broken_store :: "(16 word \<times> PreKey) list PreKeyStore" where
  "broken_store =
     \<lparr> load_prekey = (\<lambda>i s. (Inr (map_of s i), s)),
       delete_prekey = (\<lambda>i s. (Inl (Error OtherError None), s)) \<rparr>"

definition alice_identity :: IdentityKeyPair where
  "alice_identity = IdentityKeyPair (IdentityKey (PublicKey [0xA1])) (SecretKey [0x01])"

definition bob_identity :: IdentityKeyPair where
  "bob_identity = IdentityKeyPair (IdentityKey (PublicKey [0xB0])) (SecretKey [0x02])"

definition bob_prekey :: PreKey where
  "bob_prekey = PreKey 7 (KeyPair (PublicKey [0x70]) (SecretKey [0x07]))"

definition bob_bundle :: PreKeyBundle where
  "bob_bundle = PreKeyBundle 7 (PublicKey [0x70]) (public_key bob_identity)"

definition empty_world :: "(nat, (16 word \<times> PreKey) list) world" where
  "empty_world = \<lparr> store = [], trace = [] \<rparr>"

definition bob_world :: "(nat, (16 word \<times> PreKey) list) world" where
  "bob_world = \<lparr> store = [(7, bob_prekey)], trace = [] \<rparr>"

text \<open>Alice's session after \<open>init_from_prekey\<close>, under the tag \<open>2a\<close>.\<close>

definition alice_session :: "nat Session" where
  "alice_session =
     \<lparr> local_identity = alice_identity,
       remote_identity = public_key bob_identity,
       version = 1,
       counter = 1,
       pending_prekey = Some (Some 7, Some (PublicKey [0x0C])),
       session_states = DAList.update ''2a'' \<lparr>idx = 0, state = 0, tag = SessionTag [0x2A]\<rparr> DAList.empty,
       session_tag = SessionTag [0x2A],
       session_tag_name = ''2a'' \<rparr>"

text \<open>
  A session whose table holds \<open>n\<close> states, inserted in the order of their numbers; the
  tag of state \<open>i\<close> is \<open>i + 1\<close> zero bytes, so that the names differ in length.
\<close>

definition nth_tag :: "nat \<Rightarrow> SessionTag" where
  "nth_tag i = SessionTag (replicate (Suc i) 0)"

definition nth_name :: "nat \<Rightarrow> string" where
  "nth_name i = replicate (2 * Suc i) (CHR ''0'')"

definition nth_entry :: "nat \<Rightarrow> string \<times> nat SessionStateEntry" where
  "nth_entry i = (nth_name i, \<lparr>idx = i, state = 0, tag = nth_tag i\<rparr>)"

definition crowded_states :: "nat \<Rightarrow> (string, nat SessionStateEntry) alist" where
  "crowded_states n = fold (\<lambda>i m. DAList.update (fst (nth_entry i)) (snd (nth_entry i)) m) [0..<n] DAList.empty"

definition crowded_session :: "nat \<Rightarrow> nat Session" where
  "crowded_session n =
     \<lparr> local_identity = bob_identity,
       remote_identity = public_key alice_identity,
       version = 1,
       counter = n,
       pending_prekey = None,
       session_states = crowded_states n,
       session_tag = nth_tag (n - 1),
       session_tag_name = nth_name (n - 1) \<rparr>"

text \<open>Bob's session with Alice, holding one state under the tag \<open>b1\<close>.\<close>

definition bob_session :: "nat Session" where
  "bob_session =
     \<lparr> local_identity = bob_identity,
       remote_identity = public_key alice_identity,
       version = 1,
       counter = 1,
       pending_prekey = None,
       session_states = DAList.update ''b1'' \<lparr>idx = 0, state = 0, tag = SessionTag [0xB1]\<rparr> DAList.empty,
       session_tag = SessionTag [0xB1],
       session_tag_name = ''b1'' \<rparr>"

text \<open>Messages under Alice's tag \<open>2a\<close>: the first of the ratchet, alone and in a prekey message.\<close>

definition hello :: CipherMessage where
  "hello = CipherMessage (SessionTag [0x2A]) 0 0 (PublicKey [0x0E]) [0x68, 0x69]"

definition hello_prekey :: PreKeyMessage where
  "hello_prekey = PreKeyMessage 7 (PublicKey [0x0C]) (public_key alice_identity) hello"

text \<open>The same first message, sent against Bob's last-resort prekey.\<close>

definition hello_last_resort :: PreKeyMessage where
  "hello_last_resort = PreKeyMessage MAX_PREKEY_ID (PublicKey [0x0C]) (public_key alice_identity) hello"

definition bob_last_resort_prekey :: PreKey where
  "bob_last_resort_prekey = PreKey MAX_PREKEY_ID (KeyPair (PublicKey [0x7F]) (SecretKey [0x0F]))"

definition bob_last_resort_world :: "(nat, (16 word \<times> PreKey) list) world" where
  "bob_last_resort_world = \<lparr> store = [(MAX_PREKEY_ID, bob_last_resort_prekey)], trace = [] \<rparr>"

text \<open>The serialisation of Alice's session.\<close>

definition alice_buffer :: "token list" where
  "alice_buffer =
     [TObject 6,
      TUInt 0, TUInt 1,
      TUInt 1, TBytes [0x2A],
      TUInt 2, TObject 1, TUInt 0, TObject 1, TUInt 0, TBytes [0xA1],
      TUInt 3, TObject 1, TUInt 0, TObject 1, TUInt 0, TBytes [0xB0],
      TUInt 4, TObject 2, TUInt 0, TUInt 7, TUInt 1, TObject 1, TUInt 0, TBytes [0x0C],
      TUInt 5, TObject 1, TBytes [0x2A], TUInt 0]"

text \<open>
  Bob's session after \<open>n\<close> prekey messages from Alice, each under a tag of its own: the
  first made the session, each later one added a state through the recovery branch.
\<close>

definition nth_hello :: "nat \<Rightarrow> PreKeyMessage" where
  "nth_hello i =
     PreKeyMessage 7 (PublicKey [0x0C]) (public_key alice_identity)
       (CipherMessage (nth_tag i) 0 0 (PublicKey [0x0E]) [0x68, 0x69])"

definition nth_used_entry :: "nat \<Rightarrow> string \<times> nat SessionStateEntry" where
  "nth_used_entry i = (nth_name i, \<lparr>idx = i, state = Suc 0, tag = nth_tag i\<rparr>)"

definition busy_states :: "nat \<Rightarrow> (string, nat SessionStateEntry) alist" where
  "busy_states n =
     fold (\<lambda>i m. DAList.update (fst (nth_used_entry i)) (snd (nth_used_entry i)) m) [0..<n] DAList.empty"

definition busy_session :: "nat \<Rightarrow> nat Session" where
  "busy_session n =
     \<lparr> local_identity = bob_identity,
       remote_identity = public_key alice_identity,
       version = 1,
       counter = n,
       pending_prekey = None,
       session_states = busy_states n,
       session_tag = nth_tag (n - 1),
       session_tag_name = nth_name (n - 1) \<rparr>"

section \<open>Properties\<close>

subsection \<open>Eviction picks the first entry of least index\<close>

lemma foldl_lower_idx_mem: "foldl lower_idx a xs \<in> set (a # xs)"
  by (induction xs arbitrary: a) (auto simp: lower_idx_def)

lemma foldl_lower_idx_le_start: "idx (snd (foldl lower_idx a xs)) \<le> idx (snd a)"
proof (induction xs arbitrary: a)
  case Nil
  show ?case by simp
next
  case (Cons x xs)
  have "idx (snd (foldl lower_idx (lower_idx a x) xs)) \<le> idx (snd (lower_idx a x))"
    by (rule Cons.IH)
  also have "\<dots> \<le> idx (snd a)" by (simp add: lower_idx_def)
  finally show ?case by simp
qed

lemma lower_idx_le_left: "idx (snd (lower_idx a x)) \<le> idx (snd a)"
  by (simp add: lower_idx_def)

lemma lower_idx_le_right: "idx (snd (lower_idx a x)) \<le> idx (snd x)"
  by (simp add: lower_idx_def)

lemma foldl_lower_idx_min: "y \<in> set (a # xs) \<Longrightarrow> idx (snd (foldl lower_idx a xs)) \<le> idx (snd y)"
proof (induction xs arbitrary: a)
  case Nil
  then show ?case by simp
next
  case (Cons x xs)
  have start: "idx (snd (foldl lower_idx (lower_idx a x) xs)) \<le> idx (snd (lower_idx a x))"
    by (rule foldl_lower_idx_le_start)
  from Cons.prems consider "y = a" | "y = x" | "y \<in> set xs" by auto
  then show ?case
  proof cases
    case 1
    from start lower_idx_le_left [of a x] have "idx (snd (foldl lower_idx (lower_idx a x) xs)) \<le> idx (snd a)"
      by (rule order_trans)
    with 1 show ?thesis by simp
  next
    case 2
    from start lower_idx_le_right [of a x] have "idx (snd (foldl lower_idx (lower_idx a x) xs)) \<le> idx (snd x)"
      by (rule order_trans)
    with 2 show ?thesis by simp
  next
    case 3
    then have "y \<in> set (lower_idx a x # xs)" by simp
    from Cons.IH [OF this] show ?thesis by simp
  qed
qed

text \<open>The entry \<open>reduce\<close> returns is the first one, in the order of the array, of least index.\<close>
lemma foldl_lower_idx_first:
  "\<exists>pre post. a # xs = pre @ foldl lower_idx a xs # post \<and>
     (\<forall>y \<in> set pre. idx (snd (foldl lower_idx a xs)) < idx (snd y))"
proof (induction xs arbitrary: a rule: rev_induct)
  case Nil
  show ?case by (rule exI [of _ "[]"]) simp
next
  case (snoc x xs)
  from snoc.IH [of a] obtain pre post where
    sp: "a # xs = pre @ foldl lower_idx a xs # post" and
    lt: "\<forall>y \<in> set pre. idx (snd (foldl lower_idx a xs)) < idx (snd y)" by blast
  show ?case
  proof (cases "idx (snd x) < idx (snd (foldl lower_idx a xs))")
    case True
    then have r: "foldl lower_idx a (xs @ [x]) = x" by (simp add: lower_idx_def)
    have "\<forall>y \<in> set (a # xs). idx (snd x) < idx (snd y)"
      using True foldl_lower_idx_min [of _ a xs] by (meson le_less_trans not_le order.strict_trans2)
    then show ?thesis unfolding r
      by (intro exI [of _ "a # xs"] exI [of _ "[]"]) simp
  next
    case False
    then have r: "foldl lower_idx a (xs @ [x]) = foldl lower_idx a xs" by (simp add: lower_idx_def)
    show ?thesis unfolding r using sp lt
      by (intro exI [of _ pre] exI [of _ "post @ [x]"]) simp
  qed
qed

lemma length_filter_neq_key:
  "distinct (map fst xs) \<Longrightarrow> length xs \<le> Suc (length (filter (\<lambda>(k, e). k \<noteq> n) xs))"
proof (induction xs)
  case Nil
  show ?case by simp
next
  case (Cons p xs)
  obtain k e where p: "p = (k, e)" by (cases p)
  show ?case
  proof (cases "k = n")
    case True
    with Cons.prems p have "n \<notin> fst ` set xs" by auto
    then have "filter (\<lambda>(k, e). k \<noteq> n) xs = xs"
      by (auto simp: filter_id_conv image_iff)
    with True p show ?thesis by simp
  next
    case False
    with Cons p show ?thesis by simp
  qed
qed

lemma candidates_length:
  "obj_size (session_states S) \<le> Suc (length (eviction_candidates S))"
  unfolding obj_size_def eviction_candidates_def
  by (rule length_filter_neq_key) simp

lemma length_AList_delete:
  "distinct (map fst xs) \<Longrightarrow> k \<in> fst ` set xs \<Longrightarrow> Suc (length (AList.delete k xs)) = length xs"
proof (induction xs)
  case Nil
  then show ?case by simp
next
  case (Cons p xs)
  show ?case
  proof (cases "fst p = k")
    case True
    with Cons.prems have "k \<notin> fst ` set xs" by auto
    then have "AList.delete k xs = xs" by (rule AList.delete_id)
    with True show ?thesis by (cases p) simp
  next
    case False
    with Cons show ?thesis by (cases p) auto
  qed
qed

subsection \<open>Sizes of the state map\<close>

lemma length_AList_update_le: "length (AList.update k v al) \<le> Suc (length al)"
  by (induction al) auto

lemma length_AList_map_entry: "length (AList.map_entry k f al) = length al"
  by (induction al) auto

lemma AList_update_fresh: "k \<notin> fst ` set al \<Longrightarrow> AList.update k v al = al @ [(k, v)]"
  by (induction al) auto

lemma obj_size_update_le: "obj_size (DAList.update k v m) \<le> Suc (obj_size m)"
  by (simp add: obj_size_def update.rep_eq length_AList_update_le)

lemma obj_size_map_entry: "obj_size (DAList.map_entry k f m) = obj_size m"
  by (simp add: obj_size_def map_entry.rep_eq length_AList_map_entry)

lemma obj_size_empty: "obj_size DAList.empty = 0"
  by (simp add: obj_size_def empty.rep_eq)

lemma obj_size_delete_le: "obj_size (DAList.delete k m) \<le> obj_size m"
  by (simp add: obj_size_def delete.rep_eq length_delete_le)

lemma obj_size_delete_member:
  "k \<in> fst ` set (DAList.impl_of m) \<Longrightarrow> Suc (obj_size (DAList.delete k m)) = obj_size m"
  by (simp add: obj_size_def delete.rep_eq length_AList_delete)

lemma store_session_state_size:
  "obj_size (session_states (store_session_state C t st S)) \<le> Suc (obj_size (session_states S))"
proof (cases "DAList.lookup (session_states S) (SessionTag_toString C t) \<noteq> None")
  case True
  then show ?thesis
    by (simp add: store_session_state_def Let_def obj_size_map_entry)
next
  case False
  show ?thesis
  proof (cases "counter S \<ge> MAX_SAFE_INTEGER")
    case True
    have "obj_size (DAList.update (SessionTag_toString C t) \<lparr>idx = 0, state = st, tag = t\<rparr> DAList.empty)
            \<le> Suc 0"
      using obj_size_update_le [of _ _ DAList.empty] by (simp add: obj_size_empty)
    with False True show ?thesis
      by (simp add: store_session_state_def Let_def)
  next
    case nores: False
    with False show ?thesis
      by (simp add: store_session_state_def Let_def obj_size_update_le)
  qed
qed

subsection \<open>Eviction\<close>

lemma evict_oldest_session_state_Cons:
  "eviction_candidates S = first # rest \<Longrightarrow>
   evict_oldest_session_state (S, w) =
     (Inr (),
      S\<lparr>session_states := DAList.delete (fst (foldl lower_idx first rest)) (session_states S)\<rparr>,
      w\<lparr>trace := trace w @ [ZeroizeEntry (snd (foldl lower_idx first rest))]\<rparr>)"
  by (simp add: evict_oldest_session_state_def Let_def)

lemma evict_oldest_session_state_Nil:
  "eviction_candidates S = [] \<Longrightarrow>
   evict_oldest_session_state (S, w) = (Inl (Error TypeError None), S, w)"
  by (simp add: evict_oldest_session_state_def)

lemma eviction_candidates_subset:
  "set (eviction_candidates S) \<subseteq> set (DAList.impl_of (session_states S))"
  by (auto simp: eviction_candidates_def)

lemma eviction_candidates_not_current:
  "(k, e) \<in> set (eviction_candidates S) \<Longrightarrow> k \<noteq> session_tag_name S"
  by (auto simp: eviction_candidates_def)

lemma evict_oldest_session_state_picks:
  assumes "eviction_candidates S \<noteq> []"
  shows "\<exists>k e pre post.
           evict_oldest_session_state (S, w) =
             (Inr (), S\<lparr>session_states := DAList.delete k (session_states S)\<rparr>,
              w\<lparr>trace := trace w @ [ZeroizeEntry e]\<rparr>) \<and>
           eviction_candidates S = pre @ (k, e) # post \<and>
           (\<forall>y \<in> set pre. idx e < idx (snd y)) \<and>
           (\<forall>y \<in> set post. idx e \<le> idx (snd y))"
proof -
  from assms obtain first rest where c: "eviction_candidates S = first # rest"
    by (cases "eviction_candidates S") auto
  define oldest where "oldest = foldl lower_idx first rest"
  from foldl_lower_idx_first [of first rest] obtain pre post where
    sp: "first # rest = pre @ oldest # post" and
    lt: "\<forall>y \<in> set pre. idx (snd oldest) < idx (snd y)"
    unfolding oldest_def by blast
  have le: "\<forall>y \<in> set post. idx (snd oldest) \<le> idx (snd y)"
  proof
    fix y assume "y \<in> set post"
    then have "y \<in> set (first # rest)" unfolding sp by simp
    then show "idx (snd oldest) \<le> idx (snd y)"
      unfolding oldest_def by (rule foldl_lower_idx_min)
  qed
  have ev: "evict_oldest_session_state (S, w) =
      (Inr (), S\<lparr>session_states := DAList.delete (fst oldest) (session_states S)\<rparr>,
       w\<lparr>trace := trace w @ [ZeroizeEntry (snd oldest)]\<rparr>)"
    unfolding oldest_def by (rule evict_oldest_session_state_Cons [OF c])
  have "eviction_candidates S = pre @ (fst oldest, snd oldest) # post"
    using c sp by simp
  with ev lt le show ?thesis by blast
qed

lemma evict_oldest_session_state_effect:
  assumes "eviction_candidates S \<noteq> []"
    and "evict_oldest_session_state (S, w) = (r, S', w')"
  shows "r = Inr () \<and> store w' = store w \<and>
         (\<exists>k. k \<noteq> session_tag_name S \<and> k \<in> fst ` set (DAList.impl_of (session_states S)) \<and>
              S' = S\<lparr>session_states := DAList.delete k (session_states S)\<rparr>)"
proof -
  from evict_oldest_session_state_picks [OF assms(1), of w] obtain k e pre post where
    ev: "evict_oldest_session_state (S, w) =
             (Inr (), S\<lparr>session_states := DAList.delete k (session_states S)\<rparr>,
              w\<lparr>trace := trace w @ [ZeroizeEntry e]\<rparr>)" and
    sp: "eviction_candidates S = pre @ (k, e) # post" by blast
  from sp have mem: "(k, e) \<in> set (eviction_candidates S)" by simp
  then have "k \<noteq> session_tag_name S" by (rule eviction_candidates_not_current)
  moreover from mem eviction_candidates_subset have "(k, e) \<in> set (DAList.impl_of (session_states S))"
    by blast
  then have "k \<in> fst ` set (DAList.impl_of (session_states S))" by force
  ultimately show ?thesis using ev assms(2) by auto
qed

subsection \<open>Insertion\<close>

lemma insert_session_state_small:
  "obj_size (session_states (store_session_state C t st S)) < MAX_SESSION_STATES \<Longrightarrow>
   insert_session_state C t st (S, w) = (Inr (), store_session_state C t st S, w)"
  by (simp add: insert_session_state_def Let_def)

lemma insert_session_state_full:
  "\<not> obj_size (session_states (store_session_state C t st S)) < MAX_SESSION_STATES \<Longrightarrow>
   insert_session_state C t st (S, w) = evict_oldest_session_state (store_session_state C t st S, w)"
  by (simp add: insert_session_state_def Let_def)

lemma full_has_candidates:
  "\<not> obj_size (session_states S) < MAX_SESSION_STATES \<Longrightarrow> eviction_candidates S \<noteq> []"
  using candidates_length [of S] by (auto simp: MAX_SESSION_STATES_def)

lemma insert_session_state_effect:
  assumes "insert_session_state C t st (S, w) = (r, S', w')"
  shows "r = Inr () \<and> store w' = store w \<and>
         (S' = store_session_state C t st S \<and> obj_size (session_states S') < MAX_SESSION_STATES \<or>
          (\<exists>k. k \<noteq> session_tag_name (store_session_state C t st S) \<and>
               k \<in> fst ` set (DAList.impl_of (session_states (store_session_state C t st S))) \<and>
               S' = (store_session_state C t st S)
                      \<lparr>session_states := DAList.delete k (session_states (store_session_state C t st S))\<rparr>))"
proof (cases "obj_size (session_states (store_session_state C t st S)) < MAX_SESSION_STATES")
  case True
  from insert_session_state_small [OF True, of w] assms True show ?thesis by auto
next
  case False
  from assms have ev: "evict_oldest_session_state (store_session_state C t st S, w) = (r, S', w')"
    by (simp add: insert_session_state_full [OF False])
  from evict_oldest_session_state_effect [OF full_has_candidates [OF False] ev]
  show ?thesis by blast
qed

lemma insert_session_state_size:
  assumes "insert_session_state C t st (S, w) = (r, S', w')"
    and "obj_size (session_states S) \<le> MAX_SESSION_STATES"
  shows "obj_size (session_states S') \<le> MAX_SESSION_STATES"
proof -
  let ?S2 = "store_session_state C t st S"
  from insert_session_state_effect [OF assms(1)] consider
    "obj_size (session_states S') < MAX_SESSION_STATES"
    | k where "k \<in> fst ` set (DAList.impl_of (session_states ?S2))"
        "S' = ?S2\<lparr>session_states := DAList.delete k (session_states ?S2)\<rparr>"
    by blast
  then show ?thesis
  proof cases
    case 1
    then show ?thesis by simp
  next
    case 2
    from obj_size_delete_member [OF 2(1)] 2(2)
    have "Suc (obj_size (session_states S')) = obj_size (session_states ?S2)" by simp
    with store_session_state_size [of C t st S] assms(2) show ?thesis by simp
  qed
qed

subsection \<open>The instance\<close>

lemmas demo_simps = demo_collaborators_def demo_store_def broken_store_def alice_identity_def
  bob_identity_def bob_prekey_def bob_bundle_def empty_world_def bob_world_def hex_byte_def hex_digit_def
  demo_decrypt_def demo_encrypt_def

lemma demo_tag_name_2a: "demo_tag_name (SessionTag [0x2A]) = ''2a''"
  by (simp add: hex_byte_def hex_digit_def)

lemma alice_init:
  "init_from_prekey demo_collaborators alice_identity bob_bundle
     (KeyPair (PublicKey [0x0C]) (SecretKey [0x0D])) (SessionTag [0x2A]) empty_world
   = (Inr alice_session, empty_world)"
  by (simp add: init_from_prekey_def new_Session_def insert_session_state_def store_session_state_def
      obj_size_def update.rep_eq empty.rep_eq MAX_SESSION_STATES_def MAX_SAFE_INTEGER_def demo_simps
      alice_session_def Let_def)

lemma codec_ok_demo: "codec_ok demo_collaborators"
  unfolding codec_ok_def demo_collaborators_def
  apply simp
  apply (intro conjI allI)
  subgoal for t r by (cases t) simp
  subgoal for k r by (cases k rule: demo_fingerprint.cases) simp
  subgoal for k r by (cases k) simp
  done

lemma demo_tag_name_nth: "demo_tag_name (nth_tag i) = nth_name i"
proof -
  have "concat (map hex_byte (replicate n 0)) = replicate (2 * n) (CHR ''0'')" for n
    by (induction n) (simp_all add: hex_byte_def hex_digit_def)
  then show ?thesis by (simp add: nth_tag_def nth_name_def hex_byte_def hex_digit_def)
qed

lemma nth_name_inject: "nth_name i = nth_name j \<longleftrightarrow> i = j"
proof
  assume "nth_name i = nth_name j"
  then have "length (nth_name i) = length (nth_name j)" by simp
  then show "i = j" by (simp add: nth_name_def)
qed simp

lemma impl_of_crowded_states: "DAList.impl_of (crowded_states n) = map nth_entry [0..<n]"
proof (induction n)
  case 0
  show ?case by (simp add: crowded_states_def empty.rep_eq)
next
  case (Suc n)
  have fresh: "fst (nth_entry n) \<notin> fst ` set (map nth_entry [0..<n])"
    by (auto simp: nth_entry_def nth_name_inject)
  have "crowded_states (Suc n) = DAList.update (fst (nth_entry n)) (snd (nth_entry n)) (crowded_states n)"
    by (simp add: crowded_states_def)
  then have "DAList.impl_of (crowded_states (Suc n))
      = AList.update (fst (nth_entry n)) (snd (nth_entry n)) (map nth_entry [0..<n])"
    by (simp add: update.rep_eq Suc.IH)
  also have "\<dots> = map nth_entry [0..<n] @ [nth_entry n]"
    using AList_update_fresh [OF fresh] by simp
  finally show ?case by simp
qed

lemma obj_size_crowded_states: "obj_size (crowded_states n) = n"
  by (simp add: obj_size_def impl_of_crowded_states)

lemma lookup_crowded_states_fresh: "DAList.lookup (crowded_states n) (nth_name n) = None"
  by (auto simp: lookup.rep_eq impl_of_crowded_states map_of_eq_None_iff nth_entry_def nth_name_inject)

lemma store_session_state_crowded:
  "n < MAX_SAFE_INTEGER \<Longrightarrow>
   store_session_state demo_collaborators (nth_tag n) 0 (crowded_session n) = crowded_session (Suc n)"
proof -
  assume n: "n < MAX_SAFE_INTEGER"
  have name: "SessionTag_toString demo_collaborators (nth_tag n) = nth_name n"
    by (simp add: demo_collaborators_def demo_tag_name_nth)
  have st: "DAList.update (nth_name n) \<lparr>idx = n, state = 0, tag = nth_tag n\<rparr> (crowded_states n)
      = crowded_states (Suc n)"
    by (simp add: crowded_states_def nth_entry_def)
  show ?thesis
    using n unfolding store_session_state_def name Let_def
    by (simp add: crowded_session_def lookup_crowded_states_fresh st nth_name_inject)
qed

subsection \<open>What eviction removes, and when insertion evicts\<close>

text \<open>
  Claim C7. \<open>_evict_oldest_session_state\<close>, run on a table that has an entry under a name
  other than the current one, removes exactly one entry: the first, in the order of the
  table, of least \<open>idx\<close> among the entries whose name differs from \<open>session_tag_name\<close>.
  That entry, as it stands in the table, is handed to zeroize; every other entry keeps
  its place, and the entry under the current name is still there.
\<close>

theorem evict_oldest_session_state_removes_oldest:
  assumes "eviction_candidates S \<noteq> []"
  shows "\<exists>k e pre post.
           evict_oldest_session_state (S, w) =
             (Inr (), S\<lparr>session_states := DAList.delete k (session_states S)\<rparr>,
              w\<lparr>trace := trace w @ [ZeroizeEntry e]\<rparr>) \<and>
           eviction_candidates S = pre @ (k, e) # post \<and>
           (\<forall>y \<in> set pre. idx e < idx (snd y)) \<and>
           (\<forall>y \<in> set post. idx e \<le> idx (snd y)) \<and>
           DAList.lookup (session_states S) k = Some e \<and>
           k \<noteq> session_tag_name S \<and>
           DAList.impl_of (DAList.delete k (session_states S)) =
             filter (\<lambda>p. fst p \<noteq> k) (DAList.impl_of (session_states S)) \<and>
           Suc (obj_size (DAList.delete k (session_states S))) = obj_size (session_states S) \<and>
           DAList.lookup (DAList.delete k (session_states S)) (session_tag_name S) =
             DAList.lookup (session_states S) (session_tag_name S)"
proof -
  from evict_oldest_session_state_picks [OF assms, of w] obtain k e pre post where
    ev: "evict_oldest_session_state (S, w) =
           (Inr (), S\<lparr>session_states := DAList.delete k (session_states S)\<rparr>,
            w\<lparr>trace := trace w @ [ZeroizeEntry e]\<rparr>)" and
    sp: "eviction_candidates S = pre @ (k, e) # post" and
    lt: "\<forall>y \<in> set pre. idx e < idx (snd y)" and
    le: "\<forall>y \<in> set post. idx e \<le> idx (snd y)" by blast
  from sp have cand: "(k, e) \<in> set (eviction_candidates S)" by simp
  with eviction_candidates_subset have mem: "(k, e) \<in> set (DAList.impl_of (session_states S))"
    by blast
  then have look: "DAList.lookup (session_states S) k = Some e"
    by (simp add: lookup.rep_eq)
  from cand have cur: "k \<noteq> session_tag_name S" by (rule eviction_candidates_not_current)
  have filt: "DAList.impl_of (DAList.delete k (session_states S)) =
             filter (\<lambda>p. fst p \<noteq> k) (DAList.impl_of (session_states S))"
    by (auto simp: delete.rep_eq AList.delete_eq intro: filter_cong)
  from mem have "k \<in> fst ` set (DAList.impl_of (session_states S))" by force
  then have sz: "Suc (obj_size (DAList.delete k (session_states S))) = obj_size (session_states S)"
    by (rule obj_size_delete_member)
  from cur have keep: "DAList.lookup (DAList.delete k (session_states S)) (session_tag_name S) =
             DAList.lookup (session_states S) (session_tag_name S)" by simp
  from ev sp lt le look cur filt sz keep show ?thesis by blast
qed

lemma eviction_candidates_crowded:
  "eviction_candidates (crowded_session (Suc n)) = map nth_entry [0..<n]"
proof -
  have "filter (\<lambda>(k, e). k \<noteq> nth_name n) (map nth_entry [0..<n]) = map nth_entry [0..<n]"
    by (auto simp: filter_id_conv nth_entry_def nth_name_inject)
  then show ?thesis
    by (simp add: eviction_candidates_def crowded_session_def impl_of_crowded_states nth_entry_def)
qed

theorem evict_oldest_session_state_removes_oldest_witness:
  "eviction_candidates (crowded_session 3) \<noteq> [] \<and>
   (\<exists>k e pre post.
      evict_oldest_session_state (crowded_session 3, empty_world) =
        (Inr (), (crowded_session 3)\<lparr>session_states := DAList.delete k (crowded_states 3)\<rparr>,
         empty_world\<lparr>trace := [ZeroizeEntry e]\<rparr>) \<and>
      [nth_entry 0, nth_entry 1] = pre @ (k, e) # post \<and>
      (\<forall>y \<in> set pre. idx e < idx (snd y)) \<and>
      Suc (obj_size (DAList.delete k (crowded_states 3))) = 3)"
proof -
  have c: "eviction_candidates (crowded_session 3) = [nth_entry 0, nth_entry 1]"
    using eviction_candidates_crowded [of 2] by (simp add: numeral_3_eq_3 numeral_2_eq_2)
  then have h: "eviction_candidates (crowded_session 3) \<noteq> []" by simp
  have st: "session_states (crowded_session 3) = crowded_states 3"
    by (simp add: crowded_session_def)
  from evict_oldest_session_state_removes_oldest [OF h, of empty_world]
  show ?thesis unfolding c st obj_size_crowded_states
    by (simp add: empty_world_def) blast
qed

text \<open>
  Claim C9. When \<open>_insert_session_state\<close> goes on to evict, that is when the table holds
  at least \<open>MAX_SESSION_STATES\<close> entries after the insertion, all of them but at most one
  are candidates, so the candidate list \<open>reduce\<close> runs on is not empty, and the
  insertion returns normally with one candidate removed.
\<close>

theorem insert_session_state_evicts_a_candidate:
  assumes "\<not> obj_size (session_states (store_session_state C t st S)) < MAX_SESSION_STATES"
  shows "MAX_SESSION_STATES \<le> Suc (length (eviction_candidates (store_session_state C t st S))) \<and>
         eviction_candidates (store_session_state C t st S) \<noteq> [] \<and>
         (\<exists>k e. (k, e) \<in> set (eviction_candidates (store_session_state C t st S)) \<and>
            insert_session_state C t st (S, w) =
              (Inr (),
               (store_session_state C t st S)
                 \<lparr>session_states := DAList.delete k (session_states (store_session_state C t st S))\<rparr>,
               w\<lparr>trace := trace w @ [ZeroizeEntry e]\<rparr>) \<and>
            Suc (obj_size (DAList.delete k (session_states (store_session_state C t st S))))
              = obj_size (session_states (store_session_state C t st S)))"
proof -
  let ?S2 = "store_session_state C t st S"
  from assms candidates_length [of ?S2]
  have many: "MAX_SESSION_STATES \<le> Suc (length (eviction_candidates ?S2))" by simp
  from assms have ne: "eviction_candidates ?S2 \<noteq> []" by (rule full_has_candidates)
  from evict_oldest_session_state_picks [OF ne, of w] obtain k e pre post where
    ev: "evict_oldest_session_state (?S2, w) =
           (Inr (), ?S2\<lparr>session_states := DAList.delete k (session_states ?S2)\<rparr>,
            w\<lparr>trace := trace w @ [ZeroizeEntry e]\<rparr>)" and
    sp: "eviction_candidates ?S2 = pre @ (k, e) # post" by blast
  from sp have cand: "(k, e) \<in> set (eviction_candidates ?S2)" by simp
  with eviction_candidates_subset have "(k, e) \<in> set (DAList.impl_of (session_states ?S2))"
    by blast
  then have "k \<in> fst ` set (DAList.impl_of (session_states ?S2))" by force
  then have sz: "Suc (obj_size (DAList.delete k (session_states ?S2))) = obj_size (session_states ?S2)"
    by (rule obj_size_delete_member)
  from ev have "insert_session_state C t st (S, w) =
           (Inr (), ?S2\<lparr>session_states := DAList.delete k (session_states ?S2)\<rparr>,
            w\<lparr>trace := trace w @ [ZeroizeEntry e]\<rparr>)"
    by (simp add: insert_session_state_full [OF assms])
  with many ne cand sz show ?thesis by blast
qed

theorem insert_session_state_evicts_a_candidate_witness:
  "\<not> obj_size (session_states (store_session_state demo_collaborators (nth_tag 99) 0 (crowded_session 99)))
       < MAX_SESSION_STATES \<and>
   eviction_candidates (crowded_session 100) \<noteq> [] \<and>
   (\<exists>k e. (k, e) \<in> set (eviction_candidates (crowded_session 100)) \<and>
      insert_session_state demo_collaborators (nth_tag 99) 0 (crowded_session 99, empty_world) =
        (Inr (), (crowded_session 100)\<lparr>session_states := DAList.delete k (crowded_states 100)\<rparr>,
         empty_world\<lparr>trace := [ZeroizeEntry e]\<rparr>))"
proof -
  have s: "store_session_state demo_collaborators (nth_tag 99) 0 (crowded_session 99) = crowded_session 100"
    using store_session_state_crowded [of 99] by (simp add: MAX_SAFE_INTEGER_def)
  have st: "session_states (crowded_session 100) = crowded_states 100"
    by (simp add: crowded_session_def)
  have h: "\<not> obj_size (session_states (store_session_state demo_collaborators (nth_tag 99) 0 (crowded_session 99)))
       < MAX_SESSION_STATES"
    unfolding s st obj_size_crowded_states by (simp add: MAX_SESSION_STATES_def)
  from insert_session_state_evicts_a_candidate [OF h, of empty_world] h
  show ?thesis unfolding s st
    by (simp add: empty_world_def) blast
qed

subsection \<open>Fields that insertion leaves alone\<close>

lemma store_session_state_pending_prekey:
  "pending_prekey (store_session_state C t st S) = pending_prekey S"
  by (simp add: store_session_state_def Let_def)

lemma store_session_state_local_identity:
  "local_identity (store_session_state C t st S) = local_identity S"
  by (simp add: store_session_state_def Let_def)

lemma store_session_state_remote_identity:
  "remote_identity (store_session_state C t st S) = remote_identity S"
  by (simp add: store_session_state_def Let_def)

lemma store_session_state_version:
  "version (store_session_state C t st S) = version S"
  by (simp add: store_session_state_def Let_def)

lemma store_session_state_tag_name:
  "session_tag_name (store_session_state C t st S) = SessionTag_toString C t"
  by (simp add: store_session_state_def Let_def)

lemma lookup_map_entry_same:
  "DAList.lookup (DAList.map_entry k f m) k = map_option f (DAList.lookup m k)"
  by (simp add: lookup.rep_eq map_entry.rep_eq map_of_map_entry split: option.splits)

lemma lookup_store_session_state:
  "\<exists>e. DAList.lookup (session_states (store_session_state C t st S)) (SessionTag_toString C t) = Some e
       \<and> state e = st"
proof (cases "DAList.lookup (session_states S) (SessionTag_toString C t)")
  case None
  then show ?thesis by (simp add: store_session_state_def Let_def)
next
  case (Some e)
  then show ?thesis by (simp add: store_session_state_def Let_def lookup_map_entry_same)
qed

lemma insert_session_state_post:
  assumes "insert_session_state C t st (S, w) = (r, S', w')"
  shows "r = Inr () \<and> store w' = store w \<and>
         pending_prekey S' = pending_prekey S \<and> local_identity S' = local_identity S \<and>
         remote_identity S' = remote_identity S \<and> version S' = version S \<and>
         session_tag_name S' = SessionTag_toString C t \<and>
         (\<exists>e. DAList.lookup (session_states S') (SessionTag_toString C t) = Some e \<and> state e = st)"
proof -
  let ?S2 = "store_session_state C t st S"
  note f = store_session_state_pending_prekey store_session_state_local_identity
    store_session_state_remote_identity store_session_state_version store_session_state_tag_name
  from lookup_store_session_state [of C t st S] obtain e where
    e: "DAList.lookup (session_states ?S2) (SessionTag_toString C t) = Some e" "state e = st" by blast
  from insert_session_state_effect [OF assms] have r: "r = Inr ()" "store w' = store w" by simp_all
  from insert_session_state_effect [OF assms] consider
    "S' = ?S2"
    | k where "k \<noteq> session_tag_name ?S2"
        "S' = ?S2\<lparr>session_states := DAList.delete k (session_states ?S2)\<rparr>"
    by blast
  then show ?thesis
  proof cases
    case 1
    with r e show ?thesis by (simp add: f)
  next
    case 2
    from 2(1) have "k \<noteq> SessionTag_toString C t" by (simp add: f)
    with e have "DAList.lookup (DAList.delete k (session_states ?S2)) (SessionTag_toString C t) = Some e"
      by simp
    with r e 2(2) show ?thesis by (simp add: f)
  qed
qed

subsection \<open>Decryption\<close>

lemma decrypt_cipher_message_Inl:
  assumes "decrypt_cipher_message C envelope msg (S, w) = (Inl e, S', w')"
  shows "S' = S \<and> w' = w"
proof (cases "DAList.lookup (session_states S) (SessionTag_toString C (cm_session_tag msg))")
  case None
  with assms show ?thesis by (simp add: decrypt_cipher_message_def)
next
  case (Some entry)
  show ?thesis
  proof (cases "SessionState_deserialise C (SessionState_serialise C (state entry))")
    case (Inl e1)
    with Some assms show ?thesis by (simp add: decrypt_cipher_message_def)
  next
    case (Inr clone)
    obtain r st' where d: "SessionState_decrypt C envelope msg clone = (r, st')"
      by (cases "SessionState_decrypt C envelope msg clone")
    show ?thesis
    proof (cases r)
      case (Inl e2)
      with Some Inr d assms show ?thesis by (simp add: decrypt_cipher_message_def)
    next
      case p: (Inr plaintext)
      obtain r2 S2 w2 where i: "insert_session_state C (cm_session_tag msg) st'
                           (S\<lparr>pending_prekey := None\<rparr>, w) = (r2, S2, w2)"
        by (cases "insert_session_state C (cm_session_tag msg) st' (S\<lparr>pending_prekey := None\<rparr>, w)")
      from insert_session_state_post [OF i] have "r2 = Inr ()" by simp
      with Some Inr d p i assms show ?thesis by (simp add: decrypt_cipher_message_def)
    qed
  qed
qed

lemma decrypt_cipher_message_Inr:
  assumes "decrypt_cipher_message C envelope msg (S, w) = (Inr plaintext, S', w')"
  shows "\<exists>entry clone st'.
           DAList.lookup (session_states S) (SessionTag_toString C (cm_session_tag msg)) = Some entry \<and>
           SessionState_deserialise C (SessionState_serialise C (state entry)) = Inr clone \<and>
           SessionState_decrypt C envelope msg clone = (Inr plaintext, st') \<and>
           insert_session_state C (cm_session_tag msg) st' (S\<lparr>pending_prekey := None\<rparr>, w)
             = (Inr (), S', w')"
proof (cases "DAList.lookup (session_states S) (SessionTag_toString C (cm_session_tag msg))")
  case None
  with assms show ?thesis by (simp add: decrypt_cipher_message_def)
next
  case (Some entry)
  show ?thesis
  proof (cases "SessionState_deserialise C (SessionState_serialise C (state entry))")
    case (Inl e1)
    with Some assms show ?thesis by (simp add: decrypt_cipher_message_def)
  next
    case (Inr clone)
    obtain r st' where d: "SessionState_decrypt C envelope msg clone = (r, st')"
      by (cases "SessionState_decrypt C envelope msg clone")
    show ?thesis
    proof (cases r)
      case (Inl e2)
      with Some Inr d assms show ?thesis by (simp add: decrypt_cipher_message_def)
    next
      case p: (Inr plaintext')
      obtain r2 S2 w2 where i: "insert_session_state C (cm_session_tag msg) st'
                           (S\<lparr>pending_prekey := None\<rparr>, w) = (r2, S2, w2)"
        by (cases "insert_session_state C (cm_session_tag msg) st' (S\<lparr>pending_prekey := None\<rparr>, w)")
      from insert_session_state_post [OF i] have r2: "r2 = Inr ()" by simp
      with Some Inr d p i assms have "plaintext' = plaintext" "S2 = S'" "w2 = w'"
        by (simp_all add: decrypt_cipher_message_def)
      with Some Inr d p i r2 show ?thesis by simp
    qed
  qed
qed

lemma decrypt_cipher_message_pending:
  assumes "decrypt_cipher_message C envelope msg (S, w) = (Inr plaintext, S', w')"
  shows "pending_prekey S' = None"
proof -
  from decrypt_cipher_message_Inr [OF assms] obtain st' where
    "insert_session_state C (cm_session_tag msg) st' (S\<lparr>pending_prekey := None\<rparr>, w) = (Inr (), S', w')"
    by blast
  from insert_session_state_post [OF this] show ?thesis by simp
qed

lemma recover_with_new_state_cases:
  assumes "recover_with_new_state C P envelope msg (S, w) = (r, S', w')"
  shows "(\<exists>e. r = Inl e \<and> S' = S) \<or>
         (\<exists>plaintext st w1 st' w2 S2.
            r = Inr plaintext \<and>
            new_state C P msg (S, w) = (Inr st, w1) \<and>
            SessionState_decrypt C envelope (pkm_message msg) st = (Inr plaintext, st') \<and>
            consume_prekey_recovery P (pkm_prekey_id msg) w1 = (Inr (), w2) \<and>
            insert_session_state C (cm_session_tag (pkm_message msg)) st' (S, w2) = (Inr (), S2, w') \<and>
            S' = S2\<lparr>pending_prekey := None\<rparr>)"
proof -
  obtain r1 w1 where n: "new_state C P msg (S, w) = (r1, w1)" by (cases "new_state C P msg (S, w)")
  show ?thesis
  proof (cases r1)
    case (Inl e)
    with n assms show ?thesis by (auto simp: recover_with_new_state_def)
  next
    case st: (Inr st)
    obtain r2 st' where d: "SessionState_decrypt C envelope (pkm_message msg) st = (r2, st')"
      by (cases "SessionState_decrypt C envelope (pkm_message msg) st")
    show ?thesis
    proof (cases r2)
      case (Inl e)
      with n st d assms show ?thesis by (auto simp: recover_with_new_state_def)
    next
      case p: (Inr plaintext)
      obtain r3 w2 where c: "consume_prekey_recovery P (pkm_prekey_id msg) w1 = (r3, w2)"
        by (cases "consume_prekey_recovery P (pkm_prekey_id msg) w1")
      show ?thesis
      proof (cases r3)
        case (Inl e)
        with n st d p c assms show ?thesis by (auto simp: recover_with_new_state_def)
      next
        case u: (Inr u)
        obtain r4 S2 w3 where i: "insert_session_state C (cm_session_tag (pkm_message msg)) st' (S, w2)
            = (r4, S2, w3)"
          by (cases "insert_session_state C (cm_session_tag (pkm_message msg)) st' (S, w2)")
        from insert_session_state_post [OF i] have r4: "r4 = Inr ()" by simp
        with n st d p c u i assms show ?thesis by (auto simp: recover_with_new_state_def)
      qed
    qed
  qed
qed

lemma recover_with_new_state_Inl:
  "recover_with_new_state C P envelope msg (S, w) = (Inl e, S', w') \<Longrightarrow> S' = S"
  using recover_with_new_state_cases [of C P envelope msg S w "Inl e" S' w'] by auto

lemma recover_with_new_state_pending:
  "recover_with_new_state C P envelope msg (S, w) = (Inr p, S', w') \<Longrightarrow> pending_prekey S' = None"
  using recover_with_new_state_cases [of C P envelope msg S w "Inr p" S' w'] by auto

lemma decrypt_prekey_message_cases:
  assumes "decrypt_prekey_message C P envelope msg (S, w) = (r, S', w')"
  shows "(\<exists>p. r = Inr p \<and> decrypt_cipher_message C envelope (pkm_message msg) (S, w) = (Inr p, S', w')) \<or>
         (\<exists>err. decrypt_cipher_message C envelope (pkm_message msg) (S, w) = (Inl err, S, w) \<and>
            (if err_class err = InvalidSignature \<or> err_class err = InvalidMessage
             then recover_with_new_state C P envelope msg (S, w) = (r, S', w')
             else r = Inl err \<and> S' = S \<and> w' = w))"
proof -
  obtain r1 S1 w1 where f: "decrypt_cipher_message C envelope (pkm_message msg) (S, w) = (r1, S1, w1)"
    by (cases "decrypt_cipher_message C envelope (pkm_message msg) (S, w)")
  show ?thesis
  proof (cases r1)
    case (Inr p)
    with f assms show ?thesis by (auto simp: decrypt_prekey_message_def)
  next
    case (Inl err)
    with f decrypt_cipher_message_Inl [of C envelope "pkm_message msg" S w err S1 w1]
    have same: "S1 = S" "w1 = w" by simp_all
    with f Inl assms show ?thesis by (auto simp: decrypt_prekey_message_def split: if_splits)
  qed
qed

subsection \<open>Failure and success of decrypt\<close>

lemma insert_session_state_trace:
  assumes "insert_session_state C t st (S, w) = (r, S', w')"
  shows "w' = w \<or> (\<exists>e. w' = w\<lparr>trace := trace w @ [ZeroizeEntry e]\<rparr>)"
proof (cases "obj_size (session_states (store_session_state C t st S)) < MAX_SESSION_STATES")
  case True
  from insert_session_state_small [OF True, of w] assms show ?thesis by simp
next
  case False
  from evict_oldest_session_state_picks [OF full_has_candidates [OF False], of w] assms
  show ?thesis by (auto simp: insert_session_state_full [OF False])
qed

text \<open>
  Claim C1. When \<open>Session.decrypt\<close> throws, the session is what it was before the call,
  and so is its serialisation: the state that \<open>decrypt\<close> worked on is a copy, and the
  copy, the cleared pending prekey and the new table are written only on success.
\<close>

theorem decrypt_failure_leaves_session:
  assumes "decrypt C P envelope (S, w) = (Inl e, S', w')"
  shows "S' = S \<and> serialise C S' = serialise C S"
proof -
  have "S' = S"
  proof (cases "env_message envelope")
    case (CipherMsg m)
    with assms have "decrypt_cipher_message C envelope m (S, w) = (Inl e, S', w')"
      by (simp add: decrypt_def)
    then show ?thesis by (simp add: decrypt_cipher_message_Inl)
  next
    case (PreKeyMsg m)
    show ?thesis
    proof (cases "IdentityKey_fingerprint C (pkm_identity_key m)
                    \<noteq> IdentityKey_fingerprint C (remote_identity S)")
      case True
      with PreKeyMsg assms show ?thesis by (simp add: decrypt_def)
    next
      case False
      with PreKeyMsg assms have d: "decrypt_prekey_message C P envelope m (S, w) = (Inl e, S', w')"
        by (simp add: decrypt_def)
      from decrypt_prekey_message_cases [OF d] show ?thesis
        by (auto split: if_splits dest: recover_with_new_state_Inl)
    qed
  next
    case OtherMessage
    with assms show ?thesis by (simp add: decrypt_def)
  qed
  then show ?thesis by simp
qed

lemma lookup_alice_session:
  "DAList.lookup (session_states alice_session) ''2a'' = Some \<lparr>idx = 0, state = 0, tag = SessionTag [0x2A]\<rparr>"
  by (simp add: alice_session_def)

theorem decrypt_failure_leaves_session_witness:
  "decrypt demo_collaborators demo_store (Envelope [0xFF] (CipherMsg hello)) (alice_session, empty_world)
     = (Inl (Error InvalidSignature None), alice_session, empty_world) \<and>
   serialise demo_collaborators alice_session = serialise demo_collaborators alice_session"
proof -
  have d: "decrypt demo_collaborators demo_store (Envelope [0xFF] (CipherMsg hello)) (alice_session, empty_world)
     = (Inl (Error InvalidSignature None), alice_session, empty_world)"
    by (simp add: decrypt_def decrypt_cipher_message_def hello_def demo_collaborators_def
        hex_byte_def hex_digit_def lookup_alice_session demo_decrypt_def)
  from decrypt_failure_leaves_session [OF d] d show ?thesis by simp
qed

text \<open>
  Claim C8. After \<open>Session.decrypt\<close> has returned a plaintext, \<open>pending_prekey\<close> is null,
  on the path of a cipher message and on both paths of a prekey message.
\<close>

theorem decrypt_clears_pending_prekey:
  assumes "decrypt C P envelope (S, w) = (Inr plaintext, S', w')"
  shows "pending_prekey S' = None"
proof (cases "env_message envelope")
  case (CipherMsg m)
  with assms have "decrypt_cipher_message C envelope m (S, w) = (Inr plaintext, S', w')"
    by (simp add: decrypt_def)
  then show ?thesis by (rule decrypt_cipher_message_pending)
next
  case (PreKeyMsg m)
  with assms have d: "decrypt_prekey_message C P envelope m (S, w) = (Inr plaintext, S', w')"
    by (simp add: decrypt_def Let_def split: if_splits)
  from decrypt_prekey_message_cases [OF d] show ?thesis
    by (auto split: if_splits dest: recover_with_new_state_pending decrypt_cipher_message_pending)
next
  case OtherMessage
  with assms show ?thesis by (simp add: decrypt_def)
qed

theorem decrypt_clears_pending_prekey_witness:
  "decrypt demo_collaborators demo_store (Envelope [] (CipherMsg hello)) (alice_session, empty_world)
     = (Inr [0x68, 0x69],
        alice_session\<lparr>pending_prekey := None,
          session_states := DAList.map_entry ''2a'' (\<lambda>e. e\<lparr>state := 1\<rparr>) (session_states alice_session)\<rparr>,
        empty_world) \<and>
   pending_prekey alice_session = Some (Some 7, Some (PublicKey [0x0C])) \<and>
   pending_prekey (alice_session\<lparr>pending_prekey := None,
          session_states := DAList.map_entry ''2a'' (\<lambda>e. e\<lparr>state := 1\<rparr>) (session_states alice_session)\<rparr>)
     = None"
proof -
  have sz: "obj_size (DAList.map_entry ''2a'' (\<lambda>e. e\<lparr>state := Suc 0\<rparr>) (session_states alice_session)) = 1"
    by (simp add: obj_size_map_entry) (simp add: alice_session_def obj_size_def update.rep_eq empty.rep_eq)
  have d: "decrypt demo_collaborators demo_store (Envelope [] (CipherMsg hello)) (alice_session, empty_world)
     = (Inr [0x68, 0x69],
        alice_session\<lparr>pending_prekey := None,
          session_states := DAList.map_entry ''2a'' (\<lambda>e. e\<lparr>state := 1\<rparr>) (session_states alice_session)\<rparr>,
        empty_world)"
    by (simp add: decrypt_def decrypt_cipher_message_def hello_def demo_collaborators_def
        hex_byte_def hex_digit_def lookup_alice_session demo_decrypt_def
        insert_session_state_def store_session_state_def Let_def sz MAX_SESSION_STATES_def)
      (simp add: alice_session_def)
  from decrypt_clears_pending_prekey [OF d] d show ?thesis by (simp add: alice_session_def)
qed

subsection \<open>A failing delete in the recovery branch\<close>

lemma new_state_trace:
  "new_state C P m (S, w) = (r, w1) \<Longrightarrow>
   trace w1 = trace w @ [LoadPrekey (pkm_prekey_id m)]"
  by (auto simp: new_state_def store_load_def split: prod.splits sum.splits option.splits)

lemma consume_prekey_recovery_run:
  assumes "i \<noteq> MAX_PREKEY_ID" "load_prekey P i (store w) = (Inr prekey, s1)"
    "delete_prekey P i s1 = (rd, s2)"
  shows "consume_prekey_recovery P i w =
           (rd, w\<lparr>store := s2, trace := trace w @ [LoadPrekey i, ZeroizePrekey prekey, DeletePrekey i]\<rparr>)"
  using assms by (simp add: consume_prekey_recovery_def store_load_def store_delete_def zeroize_prekey_def)

lemma MAX_PREKEY_ID_greatest: "i \<le> MAX_PREKEY_ID"
proof -
  have m: "(0xFFFF :: 16 word) = - 1" by simp
  show ?thesis
    using word_order.extremum [of i] unfolding MAX_PREKEY_ID_def m [symmetric] .
qed

lemma below_MAX_PREKEY_ID: "i \<noteq> MAX_PREKEY_ID \<Longrightarrow> i < MAX_PREKEY_ID"
  using MAX_PREKEY_ID_greatest [of i] by simp

lemma consume_prekey_init_run:
  assumes "i \<noteq> MAX_PREKEY_ID" "load_prekey P i (store w) = (Inr prekey, s1)"
    "delete_prekey P i s1 = (rd, s2)"
  shows "consume_prekey_init P i w =
           ((case rd of Inl e \<Rightarrow> Inl (Error PrekeyNotFound (Some CASE_203)) | Inr u \<Rightarrow> Inr ()),
            w\<lparr>store := s2, trace := trace w @ [LoadPrekey i, ZeroizePrekey prekey, DeletePrekey i]\<rparr>)"
proof -
  have "i < MAX_PREKEY_ID" by (rule below_MAX_PREKEY_ID [OF assms(1)])
  with assms(2,3) show ?thesis
    by (simp add: consume_prekey_init_def store_load_def store_delete_def zeroize_prekey_def
        split: sum.splits)
qed

text \<open>
  Claim C10. In the recovery branch of \<open>_decrypt_prekey_message\<close>, when the new state has
  decrypted the message and \<open>delete_prekey\<close> then throws, the call throws that error and
  the session is untouched: the new state is not in the table and \<open>pending_prekey\<close> is
  not cleared. The store has seen the prekey loaded, zeroized, and the failed delete.
\<close>

theorem recovery_delete_failure_leaves_session:
  assumes first: "decrypt_cipher_message C envelope (pkm_message msg) (S, w) = (Inl err, S0, w0)"
    and kind: "err_class err = InvalidSignature \<or> err_class err = InvalidMessage"
    and derived: "new_state C P msg (S, w) = (Inr st, w1)"
    and decrypted: "SessionState_decrypt C envelope (pkm_message msg) st = (Inr plaintext, st')"
    and consumable: "pkm_prekey_id msg \<noteq> MAX_PREKEY_ID"
    and loaded: "load_prekey P (pkm_prekey_id msg) (store w1) = (Inr prekey, s2)"
    and delete_fails: "delete_prekey P (pkm_prekey_id msg) s2 = (Inl e, s3)"
  shows "decrypt_prekey_message C P envelope msg (S, w) =
           (Inl e, S,
            w1\<lparr>store := s3,
               trace := trace w @ [LoadPrekey (pkm_prekey_id msg), LoadPrekey (pkm_prekey_id msg),
                                   ZeroizePrekey prekey, DeletePrekey (pkm_prekey_id msg)]\<rparr>)"
proof -
  from decrypt_cipher_message_Inl [OF first] have same: "S0 = S" "w0 = w" by simp_all
  have c: "consume_prekey_recovery P (pkm_prekey_id msg) w1 =
      (Inl e, w1\<lparr>store := s3, trace := trace w1 @ [LoadPrekey (pkm_prekey_id msg),
         ZeroizePrekey prekey, DeletePrekey (pkm_prekey_id msg)]\<rparr>)"
    by (rule consume_prekey_recovery_run [OF consumable loaded delete_fails])
  have "recover_with_new_state C P envelope msg (S, w) =
      (Inl e, S, w1\<lparr>store := s3, trace := trace w1 @ [LoadPrekey (pkm_prekey_id msg),
         ZeroizePrekey prekey, DeletePrekey (pkm_prekey_id msg)]\<rparr>)"
    by (simp add: recover_with_new_state_def derived decrypted c)
  with first kind same show ?thesis
    by (auto simp: decrypt_prekey_message_def new_state_trace [OF derived])
qed

lemma lookup_bob_session_2a: "DAList.lookup (session_states bob_session) ''2a'' = None"
  by (simp add: bob_session_def)

lemma demo_tag_name_hello:
  "SessionTag_toString demo_collaborators (cm_session_tag (pkm_message hello_prekey)) = ''2a''"
  by (simp add: demo_collaborators_def hello_prekey_def hello_def hex_byte_def hex_digit_def)

lemma first_attempt_bob:
  "decrypt_cipher_message demo_collaborators (Envelope [] (PreKeyMsg hello_prekey)) (pkm_message hello_prekey)
     (bob_session, w) = (Inl (Error InvalidMessage (Some CASE_205)), bob_session, w)"
  by (simp add: decrypt_cipher_message_def demo_tag_name_hello lookup_bob_session_2a)

lemma new_state_bob:
  "load_prekey P 7 (store w) = (Inr (Some bob_prekey), s) \<Longrightarrow>
   new_state demo_collaborators P hello_prekey (S, w)
     = (Inr 0, w\<lparr>store := s, trace := trace w @ [LoadPrekey 7]\<rparr>)"
  by (simp add: new_state_def store_load_def hello_prekey_def demo_collaborators_def)

lemma decrypt_hello_fresh:
  "SessionState_decrypt demo_collaborators (Envelope [] (PreKeyMsg hello_prekey)) (pkm_message hello_prekey) 0
     = (Inr [0x68, 0x69], 1)"
  by (simp add: demo_collaborators_def demo_decrypt_def hello_prekey_def hello_def)

theorem recovery_delete_failure_leaves_session_witness:
  "decrypt_cipher_message demo_collaborators (Envelope [] (PreKeyMsg hello_prekey)) (pkm_message hello_prekey)
     (bob_session, bob_world) = (Inl (Error InvalidMessage (Some CASE_205)), bob_session, bob_world) \<and>
   pkm_prekey_id hello_prekey \<noteq> MAX_PREKEY_ID \<and>
   delete_prekey broken_store (pkm_prekey_id hello_prekey) [(7, bob_prekey)]
     = (Inl (Error OtherError None), [(7, bob_prekey)]) \<and>
   decrypt_prekey_message demo_collaborators broken_store (Envelope [] (PreKeyMsg hello_prekey)) hello_prekey
     (bob_session, bob_world)
   = (Inl (Error OtherError None), bob_session,
      \<lparr>store = [(7, bob_prekey)],
       trace = [LoadPrekey 7, LoadPrekey 7, ZeroizePrekey (Some bob_prekey), DeletePrekey 7]\<rparr>)"
proof -
  have id: "pkm_prekey_id hello_prekey = 7" by (simp add: hello_prekey_def)
  have ne: "pkm_prekey_id hello_prekey \<noteq> MAX_PREKEY_ID" by (simp add: id MAX_PREKEY_ID_def)
  have ld: "load_prekey broken_store 7 (store bob_world) = (Inr (Some bob_prekey), [(7, bob_prekey)])"
    by (simp add: broken_store_def bob_world_def)
  have ns: "new_state demo_collaborators broken_store hello_prekey (bob_session, bob_world)
     = (Inr 0, bob_world\<lparr>store := [(7, bob_prekey)], trace := trace bob_world @ [LoadPrekey 7]\<rparr>)"
    by (rule new_state_bob [OF ld])
  have ld2: "load_prekey broken_store (pkm_prekey_id hello_prekey)
       (store (bob_world\<lparr>store := [(7, bob_prekey)], trace := trace bob_world @ [LoadPrekey 7]\<rparr>))
     = (Inr (Some bob_prekey), [(7, bob_prekey)])"
    by (simp add: broken_store_def id)
  have dl: "delete_prekey broken_store (pkm_prekey_id hello_prekey) [(7, bob_prekey)]
     = (Inl (Error OtherError None), [(7, bob_prekey)])"
    by (simp add: broken_store_def)
  have kind: "err_class (Error InvalidMessage (Some CASE_205)) = InvalidSignature
      \<or> err_class (Error InvalidMessage (Some CASE_205)) = InvalidMessage" by simp
  from recovery_delete_failure_leaves_session [OF first_attempt_bob kind ns decrypt_hello_fresh ne ld2 dl]
    first_attempt_bob [of bob_world] ne dl
  show ?thesis by (simp add: id bob_world_def)
qed

subsection \<open>The policy of decrypt on a prekey message\<close>

text \<open>
  Claim C5. For a prekey message, \<open>Session.decrypt\<close> first compares the fingerprint of
  the message's identity key with that of \<open>remote_identity\<close> and throws
  \<open>RemoteIdentityChanged\<close> with \<open>CASE_204\<close> when they differ, touching nothing. Otherwise
  it tries the stored state of the message's tag: a plaintext is returned as it is; a
  failure has changed nothing, and it starts the recovery exactly when its class is
  \<open>InvalidSignature\<close> or \<open>InvalidMessage\<close>, else it is thrown again unchanged. A recovery
  in which the new state decrypts and the prekey is consumed inserts the new state under
  the message's tag, makes it current, clears \<open>pending_prekey\<close> and returns the plaintext.
\<close>

theorem decrypt_prekey_message_policy:
  assumes "env_message envelope = PreKeyMsg m"
  shows
    "(IdentityKey_fingerprint C (pkm_identity_key m) \<noteq> IdentityKey_fingerprint C (remote_identity S) \<longrightarrow>
        decrypt C P envelope (S, w) = (Inl (Error RemoteIdentityChanged (Some CASE_204)), S, w)) \<and>
     (IdentityKey_fingerprint C (pkm_identity_key m) = IdentityKey_fingerprint C (remote_identity S) \<longrightarrow>
        (case decrypt_cipher_message C envelope (pkm_message m) (S, w) of
           (Inr plaintext, S1, w1) \<Rightarrow> decrypt C P envelope (S, w) = (Inr plaintext, S1, w1)
         | (Inl err, S1, w1) \<Rightarrow>
             S1 = S \<and> w1 = w \<and>
             (if err_class err = InvalidSignature \<or> err_class err = InvalidMessage
              then decrypt C P envelope (S, w) = recover_with_new_state C P envelope m (S, w)
              else decrypt C P envelope (S, w) = (Inl err, S, w)))) \<and>
     (\<forall>st w1 plaintext st' w2.
        new_state C P m (S, w) = (Inr st, w1) \<and>
        SessionState_decrypt C envelope (pkm_message m) st = (Inr plaintext, st') \<and>
        consume_prekey_recovery P (pkm_prekey_id m) w1 = (Inr (), w2) \<longrightarrow>
        (\<exists>S2 w3 entry.
           insert_session_state C (cm_session_tag (pkm_message m)) st' (S, w2) = (Inr (), S2, w3) \<and>
           recover_with_new_state C P envelope m (S, w) = (Inr plaintext, S2\<lparr>pending_prekey := None\<rparr>, w3) \<and>
           DAList.lookup (session_states S2) (SessionTag_toString C (cm_session_tag (pkm_message m)))
             = Some entry \<and>
           state entry = st' \<and>
           session_tag_name S2 = SessionTag_toString C (cm_session_tag (pkm_message m))))"
proof (intro conjI impI allI)
  assume "IdentityKey_fingerprint C (pkm_identity_key m) \<noteq> IdentityKey_fingerprint C (remote_identity S)"
  with assms show "decrypt C P envelope (S, w) = (Inl (Error RemoteIdentityChanged (Some CASE_204)), S, w)"
    by (simp add: decrypt_def)
next
  assume fp: "IdentityKey_fingerprint C (pkm_identity_key m) = IdentityKey_fingerprint C (remote_identity S)"
  with assms have d: "decrypt C P envelope (S, w) = decrypt_prekey_message C P envelope m (S, w)"
    by (simp add: decrypt_def)
  obtain r1 S1 w1 where f: "decrypt_cipher_message C envelope (pkm_message m) (S, w) = (r1, S1, w1)"
    by (cases "decrypt_cipher_message C envelope (pkm_message m) (S, w)")
  show "case decrypt_cipher_message C envelope (pkm_message m) (S, w) of
           (Inr plaintext, S1, w1) \<Rightarrow> decrypt C P envelope (S, w) = (Inr plaintext, S1, w1)
         | (Inl err, S1, w1) \<Rightarrow>
             S1 = S \<and> w1 = w \<and>
             (if err_class err = InvalidSignature \<or> err_class err = InvalidMessage
              then decrypt C P envelope (S, w) = recover_with_new_state C P envelope m (S, w)
              else decrypt C P envelope (S, w) = (Inl err, S, w))"
  proof (cases r1)
    case (Inr plaintext)
    with f d show ?thesis by (simp add: decrypt_prekey_message_def)
  next
    case (Inl err)
    with f decrypt_cipher_message_Inl [of C envelope "pkm_message m" S w err S1 w1]
    have same: "S1 = S" "w1 = w" by simp_all
    with f Inl d show ?thesis by (simp add: decrypt_prekey_message_def)
  qed
next
  fix st w1 plaintext st' w2
  assume h: "new_state C P m (S, w) = (Inr st, w1) \<and>
        SessionState_decrypt C envelope (pkm_message m) st = (Inr plaintext, st') \<and>
        consume_prekey_recovery P (pkm_prekey_id m) w1 = (Inr (), w2)"
  obtain r S2 w3 where i: "insert_session_state C (cm_session_tag (pkm_message m)) st' (S, w2) = (r, S2, w3)"
    by (cases "insert_session_state C (cm_session_tag (pkm_message m)) st' (S, w2)")
  from insert_session_state_post [OF i] obtain entry where
    post: "r = Inr ()" "session_tag_name S2 = SessionTag_toString C (cm_session_tag (pkm_message m))"
      "DAList.lookup (session_states S2) (SessionTag_toString C (cm_session_tag (pkm_message m))) = Some entry"
      "state entry = st'" by blast
  from h i post(1) have "recover_with_new_state C P envelope m (S, w)
      = (Inr plaintext, S2\<lparr>pending_prekey := None\<rparr>, w3)"
    by (simp add: recover_with_new_state_def)
  with i post show "\<exists>S2 w3 entry.
           insert_session_state C (cm_session_tag (pkm_message m)) st' (S, w2) = (Inr (), S2, w3) \<and>
           recover_with_new_state C P envelope m (S, w) = (Inr plaintext, S2\<lparr>pending_prekey := None\<rparr>, w3) \<and>
           DAList.lookup (session_states S2) (SessionTag_toString C (cm_session_tag (pkm_message m)))
             = Some entry \<and>
           state entry = st' \<and>
           session_tag_name S2 = SessionTag_toString C (cm_session_tag (pkm_message m))"
    by blast
qed

lemma insert_2a_bob_session:
  "insert_session_state demo_collaborators (SessionTag [0x2A]) st (bob_session, w) =
     (Inr (),
      bob_session\<lparr>session_states :=
                    DAList.update ''2a'' \<lparr>idx = 1, state = st, tag = SessionTag [0x2A]\<rparr>
                      (session_states bob_session),
                  counter := 2, session_tag := SessionTag [0x2A], session_tag_name := ''2a''\<rparr>,
      w)"
proof -
  have name: "SessionTag_toString demo_collaborators (SessionTag [0x2A]) = ''2a''"
    by (simp add: demo_collaborators_def hex_byte_def hex_digit_def)
  have sz: "obj_size (DAList.update ''2a'' e (session_states bob_session)) = 2" for e
    by (simp add: bob_session_def obj_size_def update.rep_eq empty.rep_eq)
  have st: "store_session_state demo_collaborators (SessionTag [0x2A]) st bob_session =
      bob_session\<lparr>session_states :=
                    DAList.update ''2a'' \<lparr>idx = 1, state = st, tag = SessionTag [0x2A]\<rparr>
                      (session_states bob_session),
                  counter := 2, session_tag := SessionTag [0x2A], session_tag_name := ''2a''\<rparr>"
    unfolding store_session_state_def name Let_def
    by (simp add: lookup_bob_session_2a MAX_SAFE_INTEGER_def) (simp add: bob_session_def)
  show ?thesis
    by (simp add: insert_session_state_def Let_def st sz MAX_SESSION_STATES_def)
qed

theorem decrypt_prekey_message_policy_witness:
  "env_message (Envelope [] (PreKeyMsg hello_prekey)) = PreKeyMsg hello_prekey \<and>
   IdentityKey_fingerprint demo_collaborators (pkm_identity_key hello_prekey)
     = IdentityKey_fingerprint demo_collaborators (remote_identity bob_session) \<and>
   decrypt_cipher_message demo_collaborators (Envelope [] (PreKeyMsg hello_prekey)) (pkm_message hello_prekey)
     (bob_session, bob_world) = (Inl (Error InvalidMessage (Some CASE_205)), bob_session, bob_world) \<and>
   decrypt demo_collaborators demo_store (Envelope [] (PreKeyMsg hello_prekey)) (bob_session, bob_world)
     = (Inr [0x68, 0x69],
        bob_session\<lparr>session_states :=
                      DAList.update ''2a'' \<lparr>idx = 1, state = 1, tag = SessionTag [0x2A]\<rparr>
                        (session_states bob_session),
                    counter := 2, session_tag := SessionTag [0x2A], session_tag_name := ''2a'',
                    pending_prekey := None\<rparr>,
        \<lparr>store = [],
         trace = [LoadPrekey 7, LoadPrekey 7, ZeroizePrekey (Some bob_prekey), DeletePrekey 7]\<rparr>)"
proof -
  let ?env = "Envelope [] (PreKeyMsg hello_prekey)"
  have msg: "env_message ?env = PreKeyMsg hello_prekey" by simp
  have fp: "IdentityKey_fingerprint demo_collaborators (pkm_identity_key hello_prekey)
     = IdentityKey_fingerprint demo_collaborators (remote_identity bob_session)"
    by (simp add: hello_prekey_def bob_session_def)
  have id: "pkm_prekey_id hello_prekey = 7" by (simp add: hello_prekey_def)
  have ne: "pkm_prekey_id hello_prekey \<noteq> MAX_PREKEY_ID" by (simp add: id MAX_PREKEY_ID_def)
  have ld: "load_prekey demo_store 7 (store bob_world) = (Inr (Some bob_prekey), [(7, bob_prekey)])"
    by (simp add: demo_store_def bob_world_def)
  let ?w1 = "bob_world\<lparr>store := [(7, bob_prekey)], trace := trace bob_world @ [LoadPrekey 7]\<rparr>"
  have ns: "new_state demo_collaborators demo_store hello_prekey (bob_session, bob_world) = (Inr 0, ?w1)"
    by (rule new_state_bob [OF ld])
  have ld2: "load_prekey demo_store (pkm_prekey_id hello_prekey) (store ?w1)
     = (Inr (Some bob_prekey), [(7, bob_prekey)])"
    by (simp add: demo_store_def id)
  have dl: "delete_prekey demo_store (pkm_prekey_id hello_prekey) [(7, bob_prekey)] = (Inr (), [])"
    by (simp add: demo_store_def id)
  let ?w2 = "?w1\<lparr>store := [], trace := trace ?w1 @ [LoadPrekey (pkm_prekey_id hello_prekey),
      ZeroizePrekey (Some bob_prekey), DeletePrekey (pkm_prekey_id hello_prekey)]\<rparr>"
  have cs: "consume_prekey_recovery demo_store (pkm_prekey_id hello_prekey) ?w1 = (Inr (), ?w2)"
    by (rule consume_prekey_recovery_run [OF ne ld2 dl])
  have tg: "cm_session_tag (pkm_message hello_prekey) = SessionTag [0x2A]"
    by (simp add: hello_prekey_def hello_def)
  note pol = decrypt_prekey_message_policy [OF msg, of demo_collaborators bob_session demo_store bob_world]
  from pol fp first_attempt_bob [of bob_world]
  have d: "decrypt demo_collaborators demo_store ?env (bob_session, bob_world)
      = recover_with_new_state demo_collaborators demo_store ?env hello_prekey (bob_session, bob_world)"
    by simp
  from pol ns decrypt_hello_fresh cs obtain S2 w3 where
    i: "insert_session_state demo_collaborators (cm_session_tag (pkm_message hello_prekey)) 1 (bob_session, ?w2)
          = (Inr (), S2, w3)" and
    r: "recover_with_new_state demo_collaborators demo_store ?env hello_prekey (bob_session, bob_world)
          = (Inr [0x68, 0x69], S2\<lparr>pending_prekey := None\<rparr>, w3)"
    by blast
  from i have "S2 = bob_session\<lparr>session_states :=
                    DAList.update ''2a'' \<lparr>idx = 1, state = 1, tag = SessionTag [0x2A]\<rparr>
                      (session_states bob_session),
                  counter := 2, session_tag := SessionTag [0x2A], session_tag_name := ''2a''\<rparr>"
    and "w3 = ?w2"
    unfolding tg insert_2a_bob_session by simp_all
  with d r msg fp first_attempt_bob [of bob_world] show ?thesis
    by (simp add: id bob_world_def)
qed

subsection \<open>Prekey consumption on both paths\<close>

lemma insert_session_state_first:
  "insert_session_state C t st (new_Session C l r t' pp DAList.empty v, w) =
     (Inr (), store_session_state C t st (new_Session C l r t' pp DAList.empty v), w)"
proof -
  have "obj_size (DAList.update k e DAList.empty) = 1" for k :: string and e :: "'a SessionStateEntry"
    by (simp add: obj_size_def update.rep_eq empty.rep_eq)
  then have "obj_size (session_states (store_session_state C t st (new_Session C l r t' pp DAList.empty v)))
      < MAX_SESSION_STATES"
    by (simp add: store_session_state_def new_Session_def Let_def MAX_SAFE_INTEGER_def
        MAX_SESSION_STATES_def)
  then show ?thesis by (rule insert_session_state_small)
qed

lemma consume_prekey_init_last_resort: "consume_prekey_init P MAX_PREKEY_ID w = (Inr (), w)"
  by (simp add: consume_prekey_init_def)

lemma consume_prekey_recovery_last_resort: "consume_prekey_recovery P MAX_PREKEY_ID w = (Inr (), w)"
  by (simp add: consume_prekey_recovery_def)

lemma init_from_message_consumes:
  assumes "env_message envelope = PreKeyMsg m"
    and "new_state C P m (new_Session C our (pkm_identity_key m) (cm_session_tag (pkm_message m))
           None DAList.empty 1, w) = (Inr st, w1)"
    and "SessionState_decrypt C envelope (pkm_message m) st = (Inr plain, st')"
  shows "init_from_message C P our envelope w =
     (case consume_prekey_init P (pkm_prekey_id m) w1 of
        (Inl e, w3) \<Rightarrow> (Inl e, w3)
      | (Inr u, w3) \<Rightarrow>
          (Inr (store_session_state C (cm_session_tag (pkm_message m)) st'
                  (new_Session C our (pkm_identity_key m) (cm_session_tag (pkm_message m))
                     None DAList.empty 1), plain), w3))"
  using assms by (simp add: init_from_message_def Let_def insert_session_state_first)

text \<open>
  Claim C6. Both places that consume a prekey, \<open>init_from_message\<close> and the recovery
  branch of \<open>_decrypt_prekey_message\<close>, treat an id other than \<open>MAX_PREKEY_ID\<close> alike: after
  the load of \<open>_new_state\<close>, the store sees the prekey loaded, what was loaded is zeroized,
  and the delete is issued, whether or not the delete then fails. A failing delete makes
  \<open>init_from_message\<close> throw \<open>PrekeyNotFound\<close> with \<open>CASE_203\<close> and the recovery branch
  throw the store's own error. For the id \<open>MAX_PREKEY_ID\<close> neither place loads for
  consumption, zeroizes or deletes: the only store call is the load of \<open>_new_state\<close>.
\<close>

theorem prekey_consumption_paths:
  "(env_message envelope = PreKeyMsg m \<and>
    new_state C P m (new_Session C our (pkm_identity_key m) (cm_session_tag (pkm_message m))
       None DAList.empty 1, w) = (Inr st, w1) \<and>
    SessionState_decrypt C envelope (pkm_message m) st = (Inr plain, st') \<and>
    pkm_prekey_id m \<noteq> MAX_PREKEY_ID \<and>
    load_prekey P (pkm_prekey_id m) (store w1) = (Inr prekey, s2) \<and>
    delete_prekey P (pkm_prekey_id m) s2 = (rd, s3) \<longrightarrow>
    (\<exists>r. init_from_message C P our envelope w =
            (r, w1\<lparr>store := s3,
                   trace := trace w @ [LoadPrekey (pkm_prekey_id m), LoadPrekey (pkm_prekey_id m),
                                       ZeroizePrekey prekey, DeletePrekey (pkm_prekey_id m)]\<rparr>) \<and>
          (case rd of
             Inl e \<Rightarrow> r = Inl (Error PrekeyNotFound (Some CASE_203))
           | Inr u \<Rightarrow> (\<exists>session. r = Inr (session, plain))))) \<and>
   (env_message envelope = PreKeyMsg m \<and>
    new_state C P m (new_Session C our (pkm_identity_key m) (cm_session_tag (pkm_message m))
       None DAList.empty 1, w) = (Inr st, w1) \<and>
    SessionState_decrypt C envelope (pkm_message m) st = (Inr plain, st') \<and>
    pkm_prekey_id m = MAX_PREKEY_ID \<longrightarrow>
    (\<exists>session. init_from_message C P our envelope w = (Inr (session, plain), w1)) \<and>
    trace w1 = trace w @ [LoadPrekey MAX_PREKEY_ID]) \<and>
   (decrypt_cipher_message C renvelope (pkm_message rm) (S, v) = (Inl err, S0, v0) \<and>
    (err_class err = InvalidSignature \<or> err_class err = InvalidMessage) \<and>
    new_state C P rm (S, v) = (Inr rst, v1) \<and>
    SessionState_decrypt C renvelope (pkm_message rm) rst = (Inr rplain, rst') \<and>
    pkm_prekey_id rm \<noteq> MAX_PREKEY_ID \<and>
    load_prekey P (pkm_prekey_id rm) (store v1) = (Inr rprekey, t2) \<and>
    delete_prekey P (pkm_prekey_id rm) t2 = (rrd, t3) \<longrightarrow>
    (\<exists>r S' v' zs.
       decrypt_prekey_message C P renvelope rm (S, v) = (r, S', v') \<and>
       store v' = t3 \<and>
       trace v' = trace v @ [LoadPrekey (pkm_prekey_id rm), LoadPrekey (pkm_prekey_id rm),
                             ZeroizePrekey rprekey, DeletePrekey (pkm_prekey_id rm)] @ map ZeroizeEntry zs \<and>
       (case rrd of Inl e \<Rightarrow> r = Inl e \<and> S' = S | Inr u \<Rightarrow> r = Inr rplain))) \<and>
   (decrypt_cipher_message C renvelope (pkm_message rm) (S, v) = (Inl err, S0, v0) \<and>
    (err_class err = InvalidSignature \<or> err_class err = InvalidMessage) \<and>
    new_state C P rm (S, v) = (Inr rst, v1) \<and>
    SessionState_decrypt C renvelope (pkm_message rm) rst = (Inr rplain, rst') \<and>
    pkm_prekey_id rm = MAX_PREKEY_ID \<longrightarrow>
    (\<exists>S' v' zs.
       decrypt_prekey_message C P renvelope rm (S, v) = (Inr rplain, S', v') \<and>
       store v' = store v1 \<and>
       trace v' = trace v @ [LoadPrekey MAX_PREKEY_ID] @ map ZeroizeEntry zs))"
proof (intro conjI impI)
  assume h: "env_message envelope = PreKeyMsg m \<and>
    new_state C P m (new_Session C our (pkm_identity_key m) (cm_session_tag (pkm_message m))
       None DAList.empty 1, w) = (Inr st, w1) \<and>
    SessionState_decrypt C envelope (pkm_message m) st = (Inr plain, st') \<and>
    pkm_prekey_id m \<noteq> MAX_PREKEY_ID \<and>
    load_prekey P (pkm_prekey_id m) (store w1) = (Inr prekey, s2) \<and>
    delete_prekey P (pkm_prekey_id m) s2 = (rd, s3)"
  then have ns: "new_state C P m (new_Session C our (pkm_identity_key m) (cm_session_tag (pkm_message m))
       None DAList.empty 1, w) = (Inr st, w1)"
    and ne: "pkm_prekey_id m \<noteq> MAX_PREKEY_ID"
    and ld: "load_prekey P (pkm_prekey_id m) (store w1) = (Inr prekey, s2)"
    and dl: "delete_prekey P (pkm_prekey_id m) s2 = (rd, s3)"
    and msg: "env_message envelope = PreKeyMsg m"
    and dec: "SessionState_decrypt C envelope (pkm_message m) st = (Inr plain, st')" by simp_all
  have tr: "trace w1 = trace w @ [LoadPrekey (pkm_prekey_id m)]"
    by (rule new_state_trace [OF ns])
  have c: "consume_prekey_init P (pkm_prekey_id m) w1 =
           ((case rd of Inl e \<Rightarrow> Inl (Error PrekeyNotFound (Some CASE_203)) | Inr u \<Rightarrow> Inr ()),
            w1\<lparr>store := s3, trace := trace w1 @ [LoadPrekey (pkm_prekey_id m), ZeroizePrekey prekey,
                 DeletePrekey (pkm_prekey_id m)]\<rparr>)"
    by (rule consume_prekey_init_run [OF ne ld dl])
  have i: "init_from_message C P our envelope w =
     (case consume_prekey_init P (pkm_prekey_id m) w1 of
        (Inl e, w3) \<Rightarrow> (Inl e, w3)
      | (Inr u, w3) \<Rightarrow>
          (Inr (store_session_state C (cm_session_tag (pkm_message m)) st'
                  (new_Session C our (pkm_identity_key m) (cm_session_tag (pkm_message m))
                     None DAList.empty 1), plain), w3))"
    by (rule init_from_message_consumes [OF msg ns dec])
  show "\<exists>r. init_from_message C P our envelope w =
            (r, w1\<lparr>store := s3,
                   trace := trace w @ [LoadPrekey (pkm_prekey_id m), LoadPrekey (pkm_prekey_id m),
                                       ZeroizePrekey prekey, DeletePrekey (pkm_prekey_id m)]\<rparr>) \<and>
          (case rd of
             Inl e \<Rightarrow> r = Inl (Error PrekeyNotFound (Some CASE_203))
           | Inr u \<Rightarrow> (\<exists>session. r = Inr (session, plain)))"
    unfolding i c tr by (cases rd) simp_all
next
  assume h: "env_message envelope = PreKeyMsg m \<and>
    new_state C P m (new_Session C our (pkm_identity_key m) (cm_session_tag (pkm_message m))
       None DAList.empty 1, w) = (Inr st, w1) \<and>
    SessionState_decrypt C envelope (pkm_message m) st = (Inr plain, st') \<and>
    pkm_prekey_id m = MAX_PREKEY_ID"
  then have ns: "new_state C P m (new_Session C our (pkm_identity_key m) (cm_session_tag (pkm_message m))
       None DAList.empty 1, w) = (Inr st, w1)"
    and msg: "env_message envelope = PreKeyMsg m"
    and dec: "SessionState_decrypt C envelope (pkm_message m) st = (Inr plain, st')" by simp_all
  have i: "init_from_message C P our envelope w =
     (case consume_prekey_init P (pkm_prekey_id m) w1 of
        (Inl e, w3) \<Rightarrow> (Inl e, w3)
      | (Inr u, w3) \<Rightarrow>
          (Inr (store_session_state C (cm_session_tag (pkm_message m)) st'
                  (new_Session C our (pkm_identity_key m) (cm_session_tag (pkm_message m))
                     None DAList.empty 1), plain), w3))"
    by (rule init_from_message_consumes [OF msg ns dec])
  from h show "\<exists>session. init_from_message C P our envelope w = (Inr (session, plain), w1)"
    unfolding i by (simp add: consume_prekey_init_last_resort)
  from h new_state_trace [OF ns]
  show "trace w1 = trace w @ [LoadPrekey MAX_PREKEY_ID]" by simp
next
  assume h: "decrypt_cipher_message C renvelope (pkm_message rm) (S, v) = (Inl err, S0, v0) \<and>
    (err_class err = InvalidSignature \<or> err_class err = InvalidMessage) \<and>
    new_state C P rm (S, v) = (Inr rst, v1) \<and>
    SessionState_decrypt C renvelope (pkm_message rm) rst = (Inr rplain, rst') \<and>
    pkm_prekey_id rm \<noteq> MAX_PREKEY_ID \<and>
    load_prekey P (pkm_prekey_id rm) (store v1) = (Inr rprekey, t2) \<and>
    delete_prekey P (pkm_prekey_id rm) t2 = (rrd, t3)"
  let ?i = "pkm_prekey_id rm"
  let ?v2 = "v1\<lparr>store := t3, trace := trace v1 @ [LoadPrekey ?i, ZeroizePrekey rprekey, DeletePrekey ?i]\<rparr>"
  from h decrypt_cipher_message_Inl [of C renvelope "pkm_message rm" S v err S0 v0]
  have same: "S0 = S" "v0 = v" by simp_all
  from h have ns: "new_state C P rm (S, v) = (Inr rst, v1)"
    and ne: "?i \<noteq> MAX_PREKEY_ID"
    and ld: "load_prekey P ?i (store v1) = (Inr rprekey, t2)"
    and dl: "delete_prekey P ?i t2 = (rrd, t3)" by simp_all
  have tr: "trace v1 = trace v @ [LoadPrekey ?i]" by (rule new_state_trace [OF ns])
  have c: "consume_prekey_recovery P ?i v1 = (rrd, ?v2)"
    by (rule consume_prekey_recovery_run [OF ne ld dl])
  from h same have d: "decrypt_prekey_message C P renvelope rm (S, v)
      = recover_with_new_state C P renvelope rm (S, v)"
    by (auto simp: decrypt_prekey_message_def)
  show "\<exists>r S' v' zs.
       decrypt_prekey_message C P renvelope rm (S, v) = (r, S', v') \<and>
       store v' = t3 \<and>
       trace v' = trace v @ [LoadPrekey ?i, LoadPrekey ?i, ZeroizePrekey rprekey, DeletePrekey ?i]
                    @ map ZeroizeEntry zs \<and>
       (case rrd of Inl e \<Rightarrow> r = Inl e \<and> S' = S | Inr u \<Rightarrow> r = Inr rplain)"
  proof (cases rrd)
    case (Inl e)
    with h c have "recover_with_new_state C P renvelope rm (S, v) = (Inl e, S, ?v2)"
      by (simp add: recover_with_new_state_def)
    with d Inl tr show ?thesis
      by (intro exI [of _ "Inl e"] exI [of _ S] exI [of _ ?v2] exI [of _ "[]"]) simp
  next
    case (Inr u)
    obtain r4 S2 v3 where i: "insert_session_state C (cm_session_tag (pkm_message rm)) rst' (S, ?v2)
        = (r4, S2, v3)"
      by (cases "insert_session_state C (cm_session_tag (pkm_message rm)) rst' (S, ?v2)")
    from insert_session_state_post [OF i] have r4: "r4 = Inr ()" "store v3 = t3" by simp_all
    from h c Inr i r4 have rec: "recover_with_new_state C P renvelope rm (S, v)
        = (Inr rplain, S2\<lparr>pending_prekey := None\<rparr>, v3)"
      by (simp add: recover_with_new_state_def)
    from insert_session_state_trace [OF i] obtain zs where
      "trace v3 = trace ?v2 @ map ZeroizeEntry zs"
    proof
      assume "v3 = ?v2"
      then have "trace v3 = trace ?v2 @ map ZeroizeEntry []" by simp
      then show ?thesis by (rule that)
    next
      assume "\<exists>e. v3 = ?v2\<lparr>trace := trace ?v2 @ [ZeroizeEntry e]\<rparr>"
      then obtain e where "v3 = ?v2\<lparr>trace := trace ?v2 @ [ZeroizeEntry e]\<rparr>" ..
      then have "trace v3 = trace ?v2 @ map ZeroizeEntry [e]" by simp
      then show ?thesis by (rule that)
    qed
    with d rec Inr tr r4 show ?thesis
      by (intro exI [of _ "Inr rplain"] exI [of _ "S2\<lparr>pending_prekey := None\<rparr>"] exI [of _ v3]
          exI [of _ zs]) simp
  qed
next
  assume h: "decrypt_cipher_message C renvelope (pkm_message rm) (S, v) = (Inl err, S0, v0) \<and>
    (err_class err = InvalidSignature \<or> err_class err = InvalidMessage) \<and>
    new_state C P rm (S, v) = (Inr rst, v1) \<and>
    SessionState_decrypt C renvelope (pkm_message rm) rst = (Inr rplain, rst') \<and>
    pkm_prekey_id rm = MAX_PREKEY_ID"
  from h decrypt_cipher_message_Inl [of C renvelope "pkm_message rm" S v err S0 v0]
  have same: "S0 = S" "v0 = v" by simp_all
  from h new_state_trace [of C P rm S v "Inr rst" v1]
  have tr: "trace v1 = trace v @ [LoadPrekey MAX_PREKEY_ID]" by simp
  from h same have d: "decrypt_prekey_message C P renvelope rm (S, v)
      = recover_with_new_state C P renvelope rm (S, v)"
    by (auto simp: decrypt_prekey_message_def)
  obtain r4 S2 v3 where i: "insert_session_state C (cm_session_tag (pkm_message rm)) rst' (S, v1)
      = (r4, S2, v3)"
    by (cases "insert_session_state C (cm_session_tag (pkm_message rm)) rst' (S, v1)")
  from insert_session_state_post [OF i] have r4: "r4 = Inr ()" "store v3 = store v1" by simp_all
  from h i r4 have rec: "recover_with_new_state C P renvelope rm (S, v)
      = (Inr rplain, S2\<lparr>pending_prekey := None\<rparr>, v3)"
    by (simp add: recover_with_new_state_def consume_prekey_recovery_last_resort)
  from insert_session_state_trace [OF i] obtain zs where
    "trace v3 = trace v1 @ map ZeroizeEntry zs"
  proof
    assume "v3 = v1"
    then have "trace v3 = trace v1 @ map ZeroizeEntry []" by simp
    then show ?thesis by (rule that)
  next
    assume "\<exists>e. v3 = v1\<lparr>trace := trace v1 @ [ZeroizeEntry e]\<rparr>"
    then obtain e where "v3 = v1\<lparr>trace := trace v1 @ [ZeroizeEntry e]\<rparr>" ..
    then have "trace v3 = trace v1 @ map ZeroizeEntry [e]" by simp
    then show ?thesis by (rule that)
  qed
  with d rec tr r4 show "\<exists>S' v' zs.
       decrypt_prekey_message C P renvelope rm (S, v) = (Inr rplain, S', v') \<and>
       store v' = store v1 \<and>
       trace v' = trace v @ [LoadPrekey MAX_PREKEY_ID] @ map ZeroizeEntry zs"
    by (intro exI [of _ "S2\<lparr>pending_prekey := None\<rparr>"] exI [of _ v3] exI [of _ zs]) simp
qed

lemma first_attempt_2a:
  "cm_session_tag msg = SessionTag [0x2A] \<Longrightarrow>
   decrypt_cipher_message demo_collaborators envelope msg (bob_session, w)
     = (Inl (Error InvalidMessage (Some CASE_205)), bob_session, w)"
  by (simp add: decrypt_cipher_message_def demo_collaborators_def hex_byte_def hex_digit_def
      lookup_bob_session_2a)

lemma new_state_demo:
  "load_prekey P (pkm_prekey_id m) (store w) = (Inr (Some pk), s) \<Longrightarrow>
   new_state demo_collaborators P m (S, w)
     = (Inr 0, w\<lparr>store := s, trace := trace w @ [LoadPrekey (pkm_prekey_id m)]\<rparr>)"
  by (simp add: new_state_def store_load_def demo_collaborators_def)

lemma decrypt_demo_fresh:
  "env_mac envelope = [] \<Longrightarrow>
   SessionState_decrypt demo_collaborators envelope msg 0 = (Inr (cm_cipher_text msg), Suc (cm_counter msg))"
  by (simp add: demo_collaborators_def demo_decrypt_def)

theorem prekey_consumption_paths_witness:
  "pkm_prekey_id hello_prekey \<noteq> MAX_PREKEY_ID \<and>
   delete_prekey broken_store (pkm_prekey_id hello_prekey) [(7, bob_prekey)]
     = (Inl (Error OtherError None), [(7, bob_prekey)]) \<and>
   init_from_message demo_collaborators broken_store bob_identity (Envelope [] (PreKeyMsg hello_prekey)) bob_world
     = (Inl (Error PrekeyNotFound (Some CASE_203)),
        \<lparr>store = [(7, bob_prekey)],
         trace = [LoadPrekey 7, LoadPrekey 7, ZeroizePrekey (Some bob_prekey), DeletePrekey 7]\<rparr>) \<and>
   (\<exists>v' zs.
      decrypt_prekey_message demo_collaborators broken_store (Envelope [] (PreKeyMsg hello_prekey)) hello_prekey
        (bob_session, bob_world) = (Inl (Error OtherError None), bob_session, v') \<and>
      store v' = [(7, bob_prekey)] \<and>
      trace v' = [LoadPrekey 7, LoadPrekey 7, ZeroizePrekey (Some bob_prekey), DeletePrekey 7]
                   @ map ZeroizeEntry zs) \<and>
   pkm_prekey_id hello_last_resort = MAX_PREKEY_ID \<and>
   (\<exists>session.
      init_from_message demo_collaborators demo_store bob_identity
        (Envelope [] (PreKeyMsg hello_last_resort)) bob_last_resort_world
      = (Inr (session, [0x68, 0x69]),
         \<lparr>store = [(MAX_PREKEY_ID, bob_last_resort_prekey)], trace = [LoadPrekey MAX_PREKEY_ID]\<rparr>)) \<and>
   (\<exists>S' v' zs.
      decrypt_prekey_message demo_collaborators demo_store (Envelope [] (PreKeyMsg hello_last_resort))
        hello_last_resort (bob_session, bob_last_resort_world) = (Inr [0x68, 0x69], S', v') \<and>
      store v' = [(MAX_PREKEY_ID, bob_last_resort_prekey)] \<and>
      trace v' = [LoadPrekey MAX_PREKEY_ID] @ map ZeroizeEntry zs)"
proof -
  let ?env = "Envelope [] (PreKeyMsg hello_prekey)"
  let ?lenv = "Envelope [] (PreKeyMsg hello_last_resort)"
  let ?new = "\<lambda>m. new_Session demo_collaborators bob_identity (pkm_identity_key m)
      (cm_session_tag (pkm_message m)) None DAList.empty 1 :: nat Session"
  have id: "pkm_prekey_id hello_prekey = 7" by (simp add: hello_prekey_def)
  have ne: "pkm_prekey_id hello_prekey \<noteq> MAX_PREKEY_ID" by (simp add: id MAX_PREKEY_ID_def)
  have lid: "pkm_prekey_id hello_last_resort = MAX_PREKEY_ID" by (simp add: hello_last_resort_def)
  have msg: "env_message ?env = PreKeyMsg hello_prekey" "env_message ?lenv = PreKeyMsg hello_last_resort"
    by simp_all
  have tg: "cm_session_tag (pkm_message hello_prekey) = SessionTag [0x2A]"
    "cm_session_tag (pkm_message hello_last_resort) = SessionTag [0x2A]"
    by (simp_all add: hello_prekey_def hello_last_resort_def hello_def)
  have pl: "cm_cipher_text (pkm_message hello_prekey) = [0x68, 0x69]"
    "cm_cipher_text (pkm_message hello_last_resort) = [0x68, 0x69]"
    by (simp_all add: hello_prekey_def hello_last_resort_def hello_def)
  have ld: "load_prekey broken_store (pkm_prekey_id hello_prekey) (store bob_world)
      = (Inr (Some bob_prekey), [(7, bob_prekey)])"
    by (simp add: broken_store_def bob_world_def id)
  let ?w1 = "bob_world\<lparr>store := [(7, bob_prekey)],
      trace := trace bob_world @ [LoadPrekey (pkm_prekey_id hello_prekey)]\<rparr>"
  have ns: "new_state demo_collaborators broken_store hello_prekey (S, bob_world) = (Inr 0, ?w1)" for S
    by (rule new_state_demo [OF ld])
  have dec: "SessionState_decrypt demo_collaborators ?env (pkm_message hello_prekey) 0
      = (Inr [0x68, 0x69], Suc (cm_counter (pkm_message hello_prekey)))"
    using decrypt_demo_fresh [of ?env "pkm_message hello_prekey"] by (simp add: pl)
  have ld2: "load_prekey broken_store (pkm_prekey_id hello_prekey) (store ?w1)
      = (Inr (Some bob_prekey), [(7, bob_prekey)])"
    by (simp add: broken_store_def id)
  have dl: "delete_prekey broken_store (pkm_prekey_id hello_prekey) [(7, bob_prekey)]
      = (Inl (Error OtherError None), [(7, bob_prekey)])"
    by (simp add: broken_store_def)
  have lld: "load_prekey demo_store (pkm_prekey_id hello_last_resort) (store bob_last_resort_world)
      = (Inr (Some bob_last_resort_prekey), [(MAX_PREKEY_ID, bob_last_resort_prekey)])"
    by (simp add: demo_store_def bob_last_resort_world_def lid)
  let ?u1 = "bob_last_resort_world\<lparr>store := [(MAX_PREKEY_ID, bob_last_resort_prekey)],
      trace := trace bob_last_resort_world @ [LoadPrekey (pkm_prekey_id hello_last_resort)]\<rparr>"
  have lns: "new_state demo_collaborators demo_store hello_last_resort (S, bob_last_resort_world)
      = (Inr 0, ?u1)" for S
    by (rule new_state_demo [OF lld])
  have ldec: "SessionState_decrypt demo_collaborators ?lenv (pkm_message hello_last_resort) 0
      = (Inr [0x68, 0x69], Suc (cm_counter (pkm_message hello_last_resort)))"
    using decrypt_demo_fresh [of ?lenv "pkm_message hello_last_resort"] by (simp add: pl)
  have kind: "err_class (Error InvalidMessage (Some CASE_205)) = InvalidSignature
      \<or> err_class (Error InvalidMessage (Some CASE_205)) = InvalidMessage" by simp
  note consumed = prekey_consumption_paths [of ?env hello_prekey demo_collaborators broken_store
      bob_identity bob_world 0 ?w1 "[0x68, 0x69]" "Suc (cm_counter (pkm_message hello_prekey))"
      "Some bob_prekey" "[(7, bob_prekey)]" "Inl (Error OtherError None)" "[(7, bob_prekey)]"
      ?env hello_prekey bob_session bob_world "Error InvalidMessage (Some CASE_205)" bob_session bob_world
      0 ?w1 "[0x68, 0x69]" "Suc (cm_counter (pkm_message hello_prekey))"
      "Some bob_prekey" "[(7, bob_prekey)]" "Inl (Error OtherError None)" "[(7, bob_prekey)]"]
  note kept = prekey_consumption_paths [of ?lenv hello_last_resort demo_collaborators demo_store
      bob_identity bob_last_resort_world 0 ?u1 "[0x68, 0x69]"
      "Suc (cm_counter (pkm_message hello_last_resort))" _ _ _ _
      ?lenv hello_last_resort bob_session bob_last_resort_world "Error InvalidMessage (Some CASE_205)"
      bob_session bob_last_resort_world
      0 ?u1 "[0x68, 0x69]" "Suc (cm_counter (pkm_message hello_last_resort))"]
  from consumed msg(1) ns dec ne ld2 dl
  have a: "init_from_message demo_collaborators broken_store bob_identity ?env bob_world
     = (Inl (Error PrekeyNotFound (Some CASE_203)),
        \<lparr>store = [(7, bob_prekey)],
         trace = [LoadPrekey 7, LoadPrekey 7, ZeroizePrekey (Some bob_prekey), DeletePrekey 7]\<rparr>)"
    by (simp add: id bob_world_def)
  from consumed first_attempt_2a [OF tg(1), of ?env bob_world] kind ns dec ne ld2 dl
  have b: "\<exists>v' zs.
      decrypt_prekey_message demo_collaborators broken_store ?env hello_prekey
        (bob_session, bob_world) = (Inl (Error OtherError None), bob_session, v') \<and>
      store v' = [(7, bob_prekey)] \<and>
      trace v' = [LoadPrekey 7, LoadPrekey 7, ZeroizePrekey (Some bob_prekey), DeletePrekey 7]
                   @ map ZeroizeEntry zs"
    by (simp add: id bob_world_def)
  from kept msg(2) lns ldec lid
  have c: "\<exists>session.
      init_from_message demo_collaborators demo_store bob_identity ?lenv bob_last_resort_world
      = (Inr (session, [0x68, 0x69]),
         \<lparr>store = [(MAX_PREKEY_ID, bob_last_resort_prekey)], trace = [LoadPrekey MAX_PREKEY_ID]\<rparr>)"
    by (simp add: bob_last_resort_world_def)
  from kept first_attempt_2a [OF tg(2), of ?lenv bob_last_resort_world] kind lns ldec lid
  have d: "\<exists>S' v' zs.
      decrypt_prekey_message demo_collaborators demo_store ?lenv
        hello_last_resort (bob_session, bob_last_resort_world) = (Inr [0x68, 0x69], S', v') \<and>
      store v' = [(MAX_PREKEY_ID, bob_last_resort_prekey)] \<and>
      trace v' = [LoadPrekey MAX_PREKEY_ID] @ map ZeroizeEntry zs"
    by (simp add: bob_last_resort_world_def)
  from ne dl a b lid c d show ?thesis by blast
qed

subsection \<open>Decoding what encode wrote\<close>

lemma codec_ok_tag: "codec_ok C \<Longrightarrow> SessionTag_decode C (SessionTag_encode C t @ r) = Inr (t, r)"
  by (simp add: codec_ok_def)

lemma codec_ok_identity_key:
  "codec_ok C \<Longrightarrow> IdentityKey_decode C (IdentityKey_encode C k @ r) = Inr (k, r)"
  by (simp add: codec_ok_def)

lemma codec_ok_public_key:
  "codec_ok C \<Longrightarrow> PublicKey_decode C (PublicKey_encode C k @ r) = Inr (k, r)"
  by (simp add: codec_ok_def)

lemma codec_ok_state:
  "codec_ok C \<Longrightarrow> SessionState_decode C (SessionState_encode C s @ r) = Inr (s, r)"
  by (simp add: codec_ok_def)

lemma entry_reindex_eq: "\<lparr>idx = i, state = state e, tag = tag e\<rparr> = e\<lparr>idx := i\<rparr>"
  by simp

lemma reindexed_keys: "map fst (reindexed i xs) = map fst xs"
  by (induction i xs rule: reindexed.induct) simp_all

lemma reindexed_length: "length (reindexed i xs) = length xs"
  by (induction i xs rule: reindexed.induct) simp_all

lemma reindexed_content:
  "map (\<lambda>(k, e). (k, tag e, state e)) (reindexed i xs) = map (\<lambda>(k, e). (k, tag e, state e)) xs"
  by (induction i xs rule: reindexed.induct) simp_all

lemma reindexed_idx: "map (\<lambda>(k, e). idx e) (reindexed i xs) = [i..<i + length xs]"
  by (induction i xs rule: reindexed.induct) (simp_all add: upt_rec)

lemma reindexed_tags:
  "(\<forall>(k, e) \<in> set xs. k = f (tag e)) \<Longrightarrow> (\<forall>(k, e) \<in> set (reindexed i xs). k = f (tag e))"
  by (induction i xs rule: reindexed.induct) auto

lemma decode_session_states_encode:
  assumes "codec_ok C"
  shows "(\<forall>(k, e) \<in> set xs. k = SessionTag_toString C (tag e)) \<Longrightarrow>
         distinct (map fst xs) \<Longrightarrow>
         fst ` set xs \<inter> fst ` set (DAList.impl_of acc) = {} \<Longrightarrow>
         \<exists>M. decode_session_states C (length xs) i acc (encode_session_states C xs @ r) = Inr (M, r) \<and>
             DAList.impl_of M = DAList.impl_of acc @ reindexed i xs"
proof (induction xs arbitrary: i acc)
  case Nil
  show ?case by (simp add: encode_session_states_def)
next
  case (Cons p xs)
  obtain k e where p: "p = (k, e)" by (cases p)
  from Cons.prems(1) p have k: "k = SessionTag_toString C (tag e)" by simp
  let ?acc = "DAList.update k (e\<lparr>idx := i\<rparr>) acc"
  from Cons.prems(3) p have fresh: "k \<notin> fst ` set (DAList.impl_of acc)" by auto
  then have acc': "DAList.impl_of ?acc = DAList.impl_of acc @ [(k, e\<lparr>idx := i\<rparr>)]"
    by (simp add: update.rep_eq AList_update_fresh)
  have enc: "encode_session_states C (p # xs) @ r =
      SessionTag_encode C (tag e) @ (SessionState_encode C (state e) @ (encode_session_states C xs @ r))"
    by (simp add: encode_session_states_def p)
  have step: "decode_session_states C (length (p # xs)) i acc (encode_session_states C (p # xs) @ r)
      = decode_session_states C (length xs) (Suc i) ?acc (encode_session_states C xs @ r)"
    unfolding enc
    by (simp add: codec_ok_tag [OF assms] codec_ok_state [OF assms] k [symmetric] entry_reindex_eq)
  from Cons.prems(1) have t: "\<forall>(k, e) \<in> set xs. k = SessionTag_toString C (tag e)" by simp
  from Cons.prems(2) have d: "distinct (map fst xs)" by simp
  from Cons.prems(2,3) p have dis: "fst ` set xs \<inter> fst ` set (DAList.impl_of ?acc) = {}"
    unfolding acc' by auto
  from Cons.IH [OF t d dis, of "Suc i"] obtain M where
    "decode_session_states C (length xs) (Suc i) ?acc (encode_session_states C xs @ r) = Inr (M, r)"
    "DAList.impl_of M = DAList.impl_of ?acc @ reindexed (Suc i) xs" by blast
  with step acc' p show ?case by simp
qed

lemma dec_u8_TUInt: "n \<le> 255 \<Longrightarrow> dec_u8 (TUInt n # ts) = Inr (n, ts)"
  by (simp add: dec_u8_def)

lemma decode_property_version:
  "decode_properties C L (Suc n) vs (TUInt 0 # TUInt (unat (v :: 8 word)) # ts)
     = decode_properties C L n (vs\<lparr>v_version := Some v\<rparr>) ts"
proof -
  have "unat v < 2 ^ 8" using unsigned_less [of v] by simp
  then have "unat v \<le> 255" by simp
  then show ?thesis by (simp add: dec_u8_def)
qed

lemma decode_property_session_tag:
  "codec_ok C \<Longrightarrow>
   decode_properties C L (Suc n) vs (TUInt 1 # SessionTag_encode C t @ ts)
     = decode_properties C L n (vs\<lparr>v_sessionTag := Some t\<rparr>) ts"
  by (simp add: dec_u8_def codec_ok_tag)

lemma decode_property_local_identity:
  "codec_ok C \<Longrightarrow>
   decode_properties C L (Suc n) vs (TUInt 2 # IdentityKey_encode C k @ ts)
     = (if IdentityKey_fingerprint C (public_key L) \<noteq> IdentityKey_fingerprint C k
        then Inl (Error LocalIdentityChanged (Some CASE_300))
        else decode_properties C L n vs ts)"
  by (simp add: dec_u8_def codec_ok_identity_key)

lemma decode_property_remote_identity:
  "codec_ok C \<Longrightarrow>
   decode_properties C L (Suc n) vs (TUInt 3 # IdentityKey_encode C k @ ts)
     = decode_properties C L n (vs\<lparr>v_remoteIdentity := Some k\<rparr>) ts"
  by (simp add: dec_u8_def codec_ok_identity_key)

lemma decode_pending_prekey_encode:
  "codec_ok C \<Longrightarrow>
   decode_pending_prekey C 2 (None, None) (TUInt 0 # TUInt (unat (i :: 16 word)) # TUInt 1 # PublicKey_encode C k @ ts)
     = Inr ((Some i, Some k), ts)"
proof -
  assume ok: "codec_ok C"
  have "unat i < 2 ^ 16" using unsigned_less [of i] by simp
  then have "unat i \<le> 65535" by simp
  then show ?thesis
    by (simp add: numeral_2_eq_2 dec_u8_def dec_u16_def codec_ok_public_key [OF ok])
qed

lemma decode_property_pending_prekey:
  assumes "codec_ok C" "encode_pending_prekey C pp = Some toks"
  shows "decode_properties C L (Suc n) vs (TUInt 4 # toks @ ts)
     = decode_properties C L n (vs\<lparr>v_pendingPrekey := pp\<rparr>) ts"
proof (cases pp)
  case None
  with assms(2) have "toks = [TNull]" by (simp add: encode_pending_prekey_def)
  with None show ?thesis by (simp add: dec_u8_def dec_optional_def)
next
  case (Some slots)
  with assms(2) obtain i k where s: "slots = (Some i, Some k)"
    and t: "toks = [TObject 2, TUInt 0, TUInt (unat i), TUInt 1] @ PublicKey_encode C k"
    by (auto simp: encode_pending_prekey_def split: option.splits prod.splits)
  show ?thesis unfolding t Some s
    by (simp add: dec_u8_def dec_optional_def dec_object_def decode_pending_prekey_encode [OF assms(1)]
        del: One_nat_def)
qed

lemma decode_property_session_states:
  assumes "codec_ok C" "\<forall>(k, e) \<in> set (DAList.impl_of m). k = SessionTag_toString C (tag e)"
  shows "\<exists>M. DAList.impl_of M = reindexed 0 (DAList.impl_of m) \<and>
           decode_properties C L (Suc n) vs
             (TUInt 5 # TObject (obj_size m) # encode_session_states C (DAList.impl_of m) @ ts)
           = decode_properties C L n (vs\<lparr>v_sessionStates := M\<rparr>) ts"
proof -
  have "fst ` set (DAList.impl_of m) \<inter> fst ` set (DAList.impl_of (DAList.empty :: (string, 'a SessionStateEntry) alist)) = {}"
    by (simp add: empty.rep_eq)
  from decode_session_states_encode [OF assms(1) assms(2) impl_of_distinct this, of 0 ts]
  obtain M where
    d: "decode_session_states C (length (DAList.impl_of m)) 0 DAList.empty
          (encode_session_states C (DAList.impl_of m) @ ts) = Inr (M, ts)" and
    i: "DAList.impl_of M = reindexed 0 (DAList.impl_of m)"
    by (auto simp: empty.rep_eq)
  have "decode_properties C L (Suc n) vs
             (TUInt 5 # TObject (obj_size m) # encode_session_states C (DAList.impl_of m) @ ts)
           = decode_properties C L n (vs\<lparr>v_sessionStates := M\<rparr>) ts"
    by (simp add: dec_u8_def dec_object_def obj_size_def d)
  with i show ?thesis by blast
qed

lemma encode_well_formed:
  assumes "well_formed C S"
  shows "\<exists>pp. encode_pending_prekey C (pending_prekey S) = Some pp \<and>
     encode C S = Some ([TObject 6, TUInt 0, TUInt (unat (version S)), TUInt 1]
                @ SessionTag_encode C (session_tag S)
                @ [TUInt 2] @ IdentityKey_encode C (public_key (local_identity S))
                @ [TUInt 3] @ IdentityKey_encode C (remote_identity S)
                @ [TUInt 4] @ pp
                @ [TUInt 5, TObject (obj_size (session_states S))]
                @ encode_session_states C (DAList.impl_of (session_states S)))"
proof -
  from assms have "\<exists>pp. encode_pending_prekey C (pending_prekey S) = Some pp"
    by (auto simp: well_formed_def encode_pending_prekey_def split: option.splits prod.splits)
  then show ?thesis by (auto simp: encode_def)
qed

lemma decode_encode:
  assumes ok: "codec_ok C" and wf: "well_formed C S"
  shows "\<exists>buf M. encode C S = Some buf \<and>
           DAList.impl_of M = reindexed 0 (DAList.impl_of (session_states S)) \<and>
           decode C L new_tag buf =
             (if IdentityKey_fingerprint C (public_key L)
                   \<noteq> IdentityKey_fingerprint C (public_key (local_identity S))
              then Inl (Error LocalIdentityChanged (Some CASE_300))
              else Inr (new_Session C L (remote_identity S) (session_tag S) (pending_prekey S) M (version S)))"
proof -
  from encode_well_formed [OF wf] obtain pp where
    pp: "encode_pending_prekey C (pending_prekey S) = Some pp" and
    enc: "encode C S = Some ([TObject 6, TUInt 0, TUInt (unat (version S)), TUInt 1]
                @ SessionTag_encode C (session_tag S)
                @ [TUInt 2] @ IdentityKey_encode C (public_key (local_identity S))
                @ [TUInt 3] @ IdentityKey_encode C (remote_identity S)
                @ [TUInt 4] @ pp
                @ [TUInt 5, TObject (obj_size (session_states S))]
                @ encode_session_states C (DAList.impl_of (session_states S)))" by blast
  from wf have tags: "\<forall>(k, e) \<in> set (DAList.impl_of (session_states S)). k = SessionTag_toString C (tag e)"
    by (simp add: well_formed_def)
  let ?vs0 = "\<lparr>v_version = None, v_sessionTag = None, v_remoteIdentity = None,
      v_pendingPrekey = None, v_sessionStates = DAList.empty\<rparr> :: 'a decode_vars"
  let ?vs4 = "?vs0\<lparr>v_version := Some (version S), v_sessionTag := Some (session_tag S),
      v_remoteIdentity := Some (remote_identity S), v_pendingPrekey := pending_prekey S\<rparr>"
  from decode_property_session_states [OF ok tags, of L 0 ?vs4 "[]"] obtain M where
    M: "DAList.impl_of M = reindexed 0 (DAList.impl_of (session_states S))" and
    last: "decode_properties C L (Suc 0) ?vs4
             (TUInt 5 # TObject (obj_size (session_states S))
                # encode_session_states C (DAList.impl_of (session_states S)) @ [])
           = decode_properties C L 0 (?vs4\<lparr>v_sessionStates := M\<rparr>) []" by blast
  let ?t5 = "TUInt 5 # TObject (obj_size (session_states S))
                # encode_session_states C (DAList.impl_of (session_states S)) @ []"
  let ?t4 = "TUInt 4 # pp @ ?t5"
  let ?t3 = "TUInt 3 # IdentityKey_encode C (remote_identity S) @ ?t4"
  let ?t2 = "TUInt 2 # IdentityKey_encode C (public_key (local_identity S)) @ ?t3"
  let ?t1 = "TUInt 1 # SessionTag_encode C (session_tag S) @ ?t2"
  let ?t0 = "TUInt 0 # TUInt (unat (version S)) # ?t1"
  have buf: "encode C S = Some (TObject 6 # ?t0)" unfolding enc by simp
  have six: "(6 :: nat) = Suc (Suc (Suc (Suc (Suc (Suc 0)))))" by simp
  have run: "decode_properties C L 6 ?vs0 ?t0 =
      (if IdentityKey_fingerprint C (public_key L)
            \<noteq> IdentityKey_fingerprint C (public_key (local_identity S))
       then Inl (Error LocalIdentityChanged (Some CASE_300))
       else Inr (?vs4\<lparr>v_sessionStates := M\<rparr>, []))"
    unfolding six
    unfolding decode_property_version
    unfolding decode_property_session_tag [OF ok]
    unfolding decode_property_local_identity [OF ok]
    unfolding decode_property_remote_identity [OF ok]
    unfolding decode_property_pending_prekey [OF ok pp]
    unfolding last
    by simp
  have hd: "dec_object (TObject 6 # ?t0) = Inr (6, ?t0)"
    unfolding dec_object_def by (simp only: list.case token.case)
  have "decode C L new_tag (TObject 6 # ?t0) =
             (if IdentityKey_fingerprint C (public_key L)
                   \<noteq> IdentityKey_fingerprint C (public_key (local_identity S))
              then Inl (Error LocalIdentityChanged (Some CASE_300))
              else Inr (new_Session C L (remote_identity S) (session_tag S) (pending_prekey S) M (version S)))"
    unfolding decode_def hd
    apply (simp only: sum.case prod.case run)
    apply simp
    done
  with buf M show ?thesis by blast
qed

subsection \<open>Reachable sessions are well formed and bounded\<close>

lemma set_AList_update: "set (AList.update k v xs) \<subseteq> insert (k, v) (set xs)"
  by (induction xs) auto

lemma set_AList_map_entry:
  "p \<in> set (AList.map_entry k f xs) \<Longrightarrow> p \<in> set xs \<or> (\<exists>v. (k, v) \<in> set xs \<and> p = (k, f v))"
  by (induction xs) (auto split: if_splits)

lemma set_AList_delete: "set (AList.delete k xs) \<subseteq> set xs"
  by (induction xs) auto

lemma tags_filed_empty: "tags_filed C DAList.empty"
  by (simp add: tags_filed_def empty.rep_eq)

lemma tags_filed_update:
  "tags_filed C m \<Longrightarrow>
   tags_filed C (DAList.update (SessionTag_toString C t) \<lparr>idx = i, state = st, tag = t\<rparr> m)"
  unfolding tags_filed_def update.rep_eq
  using set_AList_update [of "SessionTag_toString C t" "\<lparr>idx = i, state = st, tag = t\<rparr>"]
  by fastforce

lemma tags_filed_map_entry:
  "tags_filed C m \<Longrightarrow> tags_filed C (DAList.map_entry k (\<lambda>e. e\<lparr>state := st\<rparr>) m)"
  unfolding tags_filed_def map_entry.rep_eq
  by (auto dest!: set_AList_map_entry)

lemma tags_filed_delete: "tags_filed C m \<Longrightarrow> tags_filed C (DAList.delete k m)"
  unfolding tags_filed_def delete.rep_eq
  using set_AList_delete by fastforce

lemma well_formed_iff:
  "well_formed C S \<longleftrightarrow>
     tags_filed C (session_states S) \<and>
     session_tag_name S = SessionTag_toString C (session_tag S) \<and>
     (case pending_prekey S of None \<Rightarrow> True | Some (i, k) \<Rightarrow> i \<noteq> None \<and> k \<noteq> None)"
  by (simp add: well_formed_def tags_filed_def)

lemma well_formed_store_session_state:
  assumes "well_formed C S"
  shows "well_formed C (store_session_state C t st S)"
proof -
  from assms have tf: "tags_filed C (session_states S)" by (simp add: well_formed_iff)
  have "tags_filed C (session_states (store_session_state C t st S))"
    by (simp add: store_session_state_def Let_def tf tags_filed_update tags_filed_map_entry
        tags_filed_empty)
  moreover have "session_tag_name (store_session_state C t st S)
      = SessionTag_toString C (session_tag (store_session_state C t st S))"
    using assms by (simp add: store_session_state_def Let_def well_formed_iff)
  ultimately show ?thesis
    using assms by (simp add: well_formed_iff store_session_state_pending_prekey)
qed

lemma well_formed_insert_session_state:
  assumes "insert_session_state C t st (S, w) = (r, S', w')" "well_formed C S"
  shows "well_formed C S'"
proof -
  let ?S2 = "store_session_state C t st S"
  have wf: "well_formed C ?S2" by (rule well_formed_store_session_state [OF assms(2)])
  from insert_session_state_effect [OF assms(1)] consider
    "S' = ?S2" | k where "S' = ?S2\<lparr>session_states := DAList.delete k (session_states ?S2)\<rparr>"
    by blast
  then show ?thesis
  proof cases
    case 1
    with wf show ?thesis by simp
  next
    case 2
    with wf show ?thesis by (simp add: well_formed_iff tags_filed_delete)
  qed
qed

lemma well_formed_clear_pending: "well_formed C S \<Longrightarrow> well_formed C (S\<lparr>pending_prekey := None\<rparr>)"
  by (simp add: well_formed_iff)

lemma well_formed_new_Session:
  "(case pp of None \<Rightarrow> True | Some (i, k) \<Rightarrow> i \<noteq> None \<and> k \<noteq> None) \<Longrightarrow>
   well_formed C (new_Session C l r t pp DAList.empty v)"
  by (simp add: well_formed_iff new_Session_def tags_filed_empty)

lemma bounded_insert_session_state:
  assumes "insert_session_state C t st (S, w) = (r, S', w')" "bounded C S"
  shows "bounded C S'"
proof -
  from assms(2) have wf: "well_formed C S" and sz: "obj_size (session_states S) \<le> MAX_SESSION_STATES"
    by (simp_all add: bounded_def)
  from well_formed_insert_session_state [OF assms(1) wf] insert_session_state_size [OF assms(1) sz]
  show ?thesis by (simp add: bounded_def)
qed

lemma bounded_clear_pending: "bounded C S \<Longrightarrow> bounded C (S\<lparr>pending_prekey := None\<rparr>)"
  by (simp add: bounded_def well_formed_clear_pending)

lemma bounded_new_Session:
  "(case pp of None \<Rightarrow> True | Some (i, k) \<Rightarrow> i \<noteq> None \<and> k \<noteq> None) \<Longrightarrow>
   bounded C (new_Session C l r t pp DAList.empty v)"
  unfolding bounded_def
  by (simp add: well_formed_new_Session) (simp add: new_Session_def obj_size_empty)

lemma bounded_init_from_prekey:
  assumes "init_from_prekey C l bundle base t w = (Inr S, w')"
  shows "bounded C S"
proof -
  let ?new = "new_Session C l (pkb_identity_key bundle) t
      (Some (Some (pkb_prekey_id bundle), Some (kp_public_key base))) DAList.empty 1"
  have b: "bounded C ?new" by (rule bounded_new_Session) simp
  from assms obtain st where "S = store_session_state C t st ?new"
    by (auto simp: init_from_prekey_def Let_def insert_session_state_first split: sum.splits)
  moreover have "insert_session_state C t st (?new, w) = (Inr (), store_session_state C t st ?new, w)"
    by (rule insert_session_state_first)
  from bounded_insert_session_state [OF this b]
  have "bounded C (store_session_state C t st ?new)" .
  ultimately show ?thesis by simp
qed

lemma bounded_init_from_message:
  assumes "init_from_message C P our envelope w = (Inr (S, plain), w')"
  shows "bounded C S"
proof -
  from assms obtain m where m: "env_message envelope = PreKeyMsg m"
    by (cases "env_message envelope") (auto simp: init_from_message_def)
  let ?new = "new_Session C our (pkm_identity_key m) (cm_session_tag (pkm_message m)) None DAList.empty 1"
  have b: "bounded C ?new" by (rule bounded_new_Session) simp
  from assms m obtain st where "S = store_session_state C (cm_session_tag (pkm_message m)) st ?new"
    by (auto simp: init_from_message_def Let_def insert_session_state_first
        split: sum.splits prod.splits)
  moreover have "insert_session_state C (cm_session_tag (pkm_message m)) st (?new, w)
      = (Inr (), store_session_state C (cm_session_tag (pkm_message m)) st ?new, w)"
    by (rule insert_session_state_first)
  from bounded_insert_session_state [OF this b]
  have "bounded C (store_session_state C (cm_session_tag (pkm_message m)) st ?new)" .
  ultimately show ?thesis by simp
qed

lemma bounded_encrypt:
  assumes "encrypt C plaintext (S, w) = (r, S', w')" "bounded C S"
  shows "bounded C S'"
proof (cases "DAList.lookup (session_states S) (session_tag_name S)")
  case None
  with assms show ?thesis by (simp add: encrypt_def)
next
  case (Some entry)
  with assms(1) obtain st' where
    "S' = S\<lparr>session_states := DAList.map_entry (session_tag_name S) (\<lambda>e. e\<lparr>state := st'\<rparr>) (session_states S)\<rparr>"
    by (auto simp: encrypt_def split: prod.splits)
  with assms(2) show ?thesis
    by (simp add: bounded_def well_formed_iff tags_filed_map_entry obj_size_map_entry)
qed

lemma bounded_decrypt_cipher_message:
  assumes "decrypt_cipher_message C envelope msg (S, w) = (r, S', w')" "bounded C S"
  shows "bounded C S'"
proof (cases r)
  case (Inl e)
  with assms decrypt_cipher_message_Inl [of C envelope msg S w e S' w'] show ?thesis by simp
next
  case (Inr p)
  with assms(1) decrypt_cipher_message_Inr [of C envelope msg S w p S' w'] obtain st' where
    "insert_session_state C (cm_session_tag msg) st' (S\<lparr>pending_prekey := None\<rparr>, w) = (Inr (), S', w')"
    by blast
  from bounded_insert_session_state [OF this bounded_clear_pending [OF assms(2)]] show ?thesis .
qed

lemma bounded_recover_with_new_state:
  assumes "recover_with_new_state C P envelope msg (S, w) = (r, S', w')" "bounded C S"
  shows "bounded C S'"
proof -
  from recover_with_new_state_cases [OF assms(1)] consider "S' = S"
    | st' w2 S2 where
        "insert_session_state C (cm_session_tag (pkm_message msg)) st' (S, w2) = (Inr (), S2, w')"
        "S' = S2\<lparr>pending_prekey := None\<rparr>"
    by blast
  then show ?thesis
  proof cases
    case 1
    with assms(2) show ?thesis by simp
  next
    case 2
    from bounded_insert_session_state [OF 2(1) assms(2)] 2(2) show ?thesis
      by (simp add: bounded_clear_pending)
  qed
qed

lemma bounded_decrypt:
  assumes "decrypt C P envelope (S, w) = (r, S', w')" "bounded C S"
  shows "bounded C S'"
proof (cases "env_message envelope")
  case (CipherMsg m)
  with assms(1) have "decrypt_cipher_message C envelope m (S, w) = (r, S', w')"
    by (simp add: decrypt_def)
  from bounded_decrypt_cipher_message [OF this assms(2)] show ?thesis .
next
  case (PreKeyMsg m)
  show ?thesis
  proof (cases "IdentityKey_fingerprint C (pkm_identity_key m)
                  \<noteq> IdentityKey_fingerprint C (remote_identity S)")
    case True
    with PreKeyMsg assms show ?thesis by (simp add: decrypt_def)
  next
    case False
    with PreKeyMsg assms(1) have d: "decrypt_prekey_message C P envelope m (S, w) = (r, S', w')"
      by (simp add: decrypt_def)
    from decrypt_prekey_message_cases [OF d] consider
      p where "decrypt_cipher_message C envelope (pkm_message m) (S, w) = (Inr p, S', w')"
      | "recover_with_new_state C P envelope m (S, w) = (r, S', w')"
      | "S' = S"
      by (auto split: if_splits)
    then show ?thesis
    proof cases
      case 1
      from bounded_decrypt_cipher_message [OF 1 assms(2)] show ?thesis .
    next
      case 2
      from bounded_recover_with_new_state [OF 2 assms(2)] show ?thesis .
    next
      case 3
      with assms(2) show ?thesis by simp
    qed
  qed
next
  case OtherMessage
  with assms show ?thesis by (simp add: decrypt_def)
qed

lemma bounded_reloaded:
  assumes ok: "codec_ok C" and b: "bounded C S"
    and ser: "serialise C S = Some buf" and de: "deserialise C L new_tag buf = Inr S'"
  shows "bounded C S'"
proof -
  from b have wf: "well_formed C S" by (simp add: bounded_def)
  from decode_encode [OF ok wf, of L new_tag] ser de obtain M where
    M: "DAList.impl_of M = reindexed 0 (DAList.impl_of (session_states S))" and
    S': "S' = new_Session C L (remote_identity S) (session_tag S) (pending_prekey S) M (version S)"
    by (auto simp: serialise_def deserialise_def split: if_splits)
  from wf have "tags_filed C M"
    unfolding tags_filed_def M well_formed_def by (intro reindexed_tags) simp
  moreover have "obj_size M = obj_size (session_states S)"
    by (simp add: obj_size_def M reindexed_length)
  ultimately show ?thesis
    using b unfolding S' by (simp add: bounded_def well_formed_iff new_Session_def)
qed

lemma reachable_bounded:
  assumes "codec_ok C" "reachable C P S"
  shows "bounded C S"
  using assms(2)
proof (induction rule: reachable.induct)
  case (from_prekey local_id pkbundle alice_base new_tag w S w2)
  then show ?case by (rule bounded_init_from_prekey)
next
  case (from_message ourIdentity envelope w S plain w')
  then show ?case by (rule bounded_init_from_message)
next
  case (after_encrypt S plaintext w r S' w')
  from bounded_encrypt [OF after_encrypt(2) after_encrypt.IH] show ?case .
next
  case (after_decrypt S envelope w r S' w')
  from bounded_decrypt [OF after_decrypt(2) after_decrypt.IH] show ?case .
next
  case (reloaded S buf local_id new_tag S')
  from bounded_reloaded [OF assms(1) reloaded.IH reloaded(2) reloaded(3)] show ?case .
qed

subsection \<open>Bound, round trip and the counter after a reload\<close>

lemma impl_of_alice_states:
  "DAList.impl_of (session_states alice_session) = [(''2a'', \<lparr>idx = 0, state = 0, tag = SessionTag [0x2A]\<rparr>)]"
  by (simp add: alice_session_def update.rep_eq empty.rep_eq)

lemma serialise_alice_session: "serialise demo_collaborators alice_session = Some alice_buffer"
  unfolding serialise_def encode_def encode_pending_prekey_def encode_session_states_def obj_size_def
    impl_of_alice_states
  by (simp add: alice_session_def alice_identity_def bob_identity_def demo_collaborators_def
      alice_buffer_def)

lemma decode_properties_6:
  "decode_properties C L 6 vs ts = decode_properties C L (Suc (Suc (Suc (Suc (Suc (Suc 0)))))) vs ts"
  by (simp add: eval_nat_numeral)

lemma decode_pending_prekey_2:
  "decode_pending_prekey C 2 pp ts = decode_pending_prekey C (Suc (Suc 0)) pp ts"
  by (simp add: numeral_2_eq_2)

lemma deserialise_alice_buffer:
  "deserialise demo_collaborators alice_identity new_tag alice_buffer = Inr (alice_session\<lparr>counter := 0\<rparr>)"
proof -
  have fp: "demo_fingerprint (IdentityKey (PublicKey [0xA1])) = demo_fingerprint (IdentityKey (PublicKey [0xA1]))"
    by simp
  show ?thesis
    unfolding deserialise_def decode_def alice_buffer_def
    by (simp add: dec_object_def decode_properties_6)
      (simp add: dec_u8_def dec_u16_def dec_object_def dec_optional_def decode_pending_prekey_2
        demo_collaborators_def alice_identity_def bob_identity_def demo_tag_name_2a
        new_Session_def alice_session_def del: demo_tag_name.simps demo_fingerprint.simps)
qed

lemma reachable_alice_session: "reachable demo_collaborators demo_store alice_session"
  by (rule reachable.from_prekey [OF alice_init])

lemma reachable_alice_reloaded:
  "reachable demo_collaborators demo_store (alice_session\<lparr>counter := 0\<rparr>)"
  by (rule reachable.reloaded [OF reachable_alice_session serialise_alice_session
        deserialise_alice_buffer [of "SessionTag []"]])

text \<open>
  Claim C2. A reachable session holds at most \<open>MAX_SESSION_STATES\<close> states, and keeps
  doing so through \<open>_insert_session_state\<close>: the insertion returns normally with a table
  within the bound, and whenever the table holds \<open>MAX_SESSION_STATES\<close> entries or more
  after the new state is stored, what it returns is the result of the eviction.
\<close>

theorem session_states_within_bound:
  fixes P :: "'st PreKeyStore"
  assumes "codec_ok C" "reachable C P S"
  shows "obj_size (session_states S) \<le> MAX_SESSION_STATES \<and>
         (\<forall>t st (w :: ('ss, 'st) world) r S' w'.
            insert_session_state C t st (S, w) = (r, S', w') \<longrightarrow>
              r = Inr () \<and> obj_size (session_states S') \<le> MAX_SESSION_STATES \<and>
              (\<not> obj_size (session_states (store_session_state C t st S)) < MAX_SESSION_STATES \<longrightarrow>
                 (r, S', w') = evict_oldest_session_state (store_session_state C t st S, w)))"
proof -
  from reachable_bounded [OF assms] have sz: "obj_size (session_states S) \<le> MAX_SESSION_STATES"
    by (simp add: bounded_def)
  have "r = Inr () \<and> obj_size (session_states S') \<le> MAX_SESSION_STATES \<and>
        (\<not> obj_size (session_states (store_session_state C t st S)) < MAX_SESSION_STATES \<longrightarrow>
           (r, S', w') = evict_oldest_session_state (store_session_state C t st S, w))"
    if i: "insert_session_state C t st (S, w) = (r, S', w')"
    for t st r S' and w w' :: "('ss, 'st) world"
  proof (intro conjI impI)
    from insert_session_state_post [OF i] show "r = Inr ()" by simp
    from insert_session_state_size [OF i sz] show "obj_size (session_states S') \<le> MAX_SESSION_STATES" .
    assume "\<not> obj_size (session_states (store_session_state C t st S)) < MAX_SESSION_STATES"
    from insert_session_state_full [OF this, of w] i
    show "(r, S', w') = evict_oldest_session_state (store_session_state C t st S, w)" by simp
  qed
  with sz show ?thesis by blast
qed

text \<open>
  What a reload keeps. Serialising a reachable session and deserialising the result with
  the session's own local identity succeeds, and gives a session that equals the
  original with its counter set to 0, but for the \<open>idx\<close> of the entries, which are their
  positions in the table.
\<close>

lemma reload_keeps_all_but_counter:
  assumes "codec_ok C" "reachable C P S"
  shows "\<exists>buf S'.
           serialise C S = Some buf \<and>
           deserialise C (local_identity S) new_tag buf = Inr S' \<and>
           equal_modulo_idx S' (S\<lparr>counter := 0\<rparr>) \<and>
           map (\<lambda>(k, e). idx e) (DAList.impl_of (session_states S'))
             = [0..<obj_size (session_states S)]"
proof -
  from reachable_bounded [OF assms] have wf: "well_formed C S" by (simp add: bounded_def)
  from decode_encode [OF assms(1) wf, of "local_identity S" new_tag] obtain buf M where
    enc: "encode C S = Some buf" and
    M: "DAList.impl_of M = reindexed 0 (DAList.impl_of (session_states S))" and
    dec: "decode C (local_identity S) new_tag buf =
            Inr (new_Session C (local_identity S) (remote_identity S) (session_tag S)
                   (pending_prekey S) M (version S))"
    by auto
  let ?S' = "new_Session C (local_identity S) (remote_identity S) (session_tag S)
                   (pending_prekey S) M (version S)"
  from wf have name: "session_tag_name ?S' = session_tag_name S"
    by (simp add: new_Session_def well_formed_def)
  have content: "map (\<lambda>(k, e). (k, tag e, state e)) (DAList.impl_of (session_states ?S'))
             = map (\<lambda>(k, e). (k, tag e, state e)) (DAList.impl_of (session_states S))"
    by (simp add: new_Session_def M reindexed_content)
  have indices: "map (\<lambda>(k, e). idx e) (DAList.impl_of (session_states ?S'))
             = [0..<obj_size (session_states S)]"
    by (simp add: new_Session_def M reindexed_idx obj_size_def)
  have fields: "version ?S' = version S" "session_tag ?S' = session_tag S"
    "local_identity ?S' = local_identity S" "remote_identity ?S' = remote_identity S"
    "pending_prekey ?S' = pending_prekey S" "counter ?S' = 0"
    by (simp_all add: new_Session_def)
  from name content fields have "equal_modulo_idx ?S' (S\<lparr>counter := 0\<rparr>)"
    by (simp add: equal_modulo_idx_def)
  with enc dec indices show ?thesis
    unfolding serialise_def deserialise_def by blast
qed

lemma reload_equal_modulo_idx_iff:
  assumes "codec_ok C" "reachable C P S"
  shows "\<exists>buf S'.
           serialise C S = Some buf \<and>
           deserialise C (local_identity S) new_tag buf = Inr S' \<and>
           (equal_modulo_idx S' S \<longleftrightarrow> counter S = 0)"
proof -
  from reload_keeps_all_but_counter [OF assms, of new_tag] obtain buf S' where
    r: "serialise C S = Some buf" "deserialise C (local_identity S) new_tag buf = Inr S'"
      "equal_modulo_idx S' (S\<lparr>counter := 0\<rparr>)" by blast
  from r(3) have iff: "equal_modulo_idx S' S \<longleftrightarrow> counter S = 0"
    by (auto simp: equal_modulo_idx_def)
  show ?thesis
    by (intro exI [of _ buf] exI [of _ S'] conjI) (rule r(1), rule r(2), rule iff)
qed


text \<open>
  Claim C4 fails on a reloaded session. \<open>decode\<close> numbers the entries from 0 and the
  constructor then starts \<open>counter\<close> at 0: Alice's session, whose only entry has \<open>idx\<close> 0
  below the \<open>counter\<close> 1, comes back from its own serialisation with the same entry and
  \<open>counter\<close> 0. The next state stored in the reloaded session takes the \<open>idx\<close> 0 a second
  time.
\<close>

theorem reloaded_session_counter_restarts:
  "reachable demo_collaborators demo_store alice_session \<and>
   counter alice_session = 1 \<and>
   map (\<lambda>(k, e). idx e) (DAList.impl_of (session_states alice_session)) = [0] \<and>
   serialise demo_collaborators alice_session = Some alice_buffer \<and>
   deserialise demo_collaborators alice_identity (SessionTag []) alice_buffer
     = Inr (alice_session\<lparr>counter := 0\<rparr>) \<and>
   reachable demo_collaborators demo_store (alice_session\<lparr>counter := 0\<rparr>) \<and>
   counter (alice_session\<lparr>counter := 0\<rparr>) = 0 \<and>
   map (\<lambda>(k, e). idx e) (DAList.impl_of (session_states (alice_session\<lparr>counter := 0\<rparr>))) = [0] \<and>
   map (\<lambda>(k, e). (k, idx e))
     (DAList.impl_of (session_states
        (store_session_state demo_collaborators (SessionTag [0x2B]) 0 (alice_session\<lparr>counter := 0\<rparr>))))
     = [(''2a'', 0), (''2b'', 0)]"
proof -
  have c: "counter alice_session = 1" by (simp add: alice_session_def)
  have i: "map (\<lambda>(k, e). idx e) (DAList.impl_of (session_states alice_session)) = [0]"
    by (simp add: impl_of_alice_states)
  have name: "SessionTag_toString demo_collaborators (SessionTag [0x2B]) = ''2b''"
    by (simp add: demo_collaborators_def hex_byte_def hex_digit_def)
  have look: "DAList.lookup (session_states alice_session) ''2b'' = None"
    by (simp add: alice_session_def)
  have s: "map (\<lambda>(k, e). (k, idx e))
     (DAList.impl_of (session_states
        (store_session_state demo_collaborators (SessionTag [0x2B]) 0 (alice_session\<lparr>counter := 0\<rparr>))))
     = [(''2a'', 0), (''2b'', 0)]"
    unfolding store_session_state_def name Let_def
    by (simp add: look MAX_SAFE_INTEGER_def update.rep_eq impl_of_alice_states)
  from reachable_alice_session c i serialise_alice_session
    deserialise_alice_buffer [of "SessionTag []"] reachable_alice_reloaded s
  show ?thesis by simp
qed

subsection \<open>The counter between reloads\<close>

text \<open>
  Insertion keeps every \<open>idx\<close> below the counter, and moves the counter by nothing, by
  one, or back to one past zero at the overflow reset.
\<close>

lemma idx_below_counter_store_session_state:
  assumes "idx_below_counter S"
  shows "idx_below_counter (store_session_state C t st S) \<and>
         (counter (store_session_state C t st S) = counter S \<or>
          counter (store_session_state C t st S) = Suc (counter S) \<or>
          MAX_SAFE_INTEGER \<le> counter S \<and> counter (store_session_state C t st S) = 1)"
proof (cases "DAList.lookup (session_states S) (SessionTag_toString C t) \<noteq> None")
  case True
  have "idx e < counter S"
    if "(k, e) \<in> set (AList.map_entry (SessionTag_toString C t) (\<lambda>e. e\<lparr>state := st\<rparr>)
                        (DAList.impl_of (session_states S)))" for k e
    using set_AList_map_entry [OF that] assms by (auto simp: idx_below_counter_def)
  with True show ?thesis
    by (auto simp: store_session_state_def Let_def idx_below_counter_def map_entry.rep_eq)
next
  case False
  show ?thesis
  proof (cases "counter S \<ge> MAX_SAFE_INTEGER")
    case True
    with False show ?thesis
      by (simp add: store_session_state_def Let_def idx_below_counter_def update.rep_eq empty.rep_eq)
  next
    case noreset: False
    have "idx e < Suc (counter S)"
      if "(k, e) \<in> set (AList.update (SessionTag_toString C t) \<lparr>idx = counter S, state = st, tag = t\<rparr>
                          (DAList.impl_of (session_states S)))" for k e
    proof -
      from that set_AList_update
      have "(k, e) = (SessionTag_toString C t, \<lparr>idx = counter S, state = st, tag = t\<rparr>)
          \<or> (k, e) \<in> set (DAList.impl_of (session_states S))" by fastforce
      with assms show ?thesis by (auto simp: idx_below_counter_def)
    qed
    with False noreset show ?thesis
      by (auto simp: store_session_state_def Let_def idx_below_counter_def update.rep_eq)
  qed
qed

lemma idx_below_counter_insert_session_state:
  assumes "insert_session_state C t st (S, w) = (r, S', w')" "idx_below_counter S"
  shows "idx_below_counter S' \<and>
         (counter S' = counter S \<or> counter S' = Suc (counter S) \<or>
          MAX_SAFE_INTEGER \<le> counter S \<and> counter S' = 1)"
proof -
  let ?S2 = "store_session_state C t st S"
  note st = idx_below_counter_store_session_state [OF assms(2), of C t st]
  from insert_session_state_effect [OF assms(1)] consider
    "S' = ?S2" | k where "S' = ?S2\<lparr>session_states := DAList.delete k (session_states ?S2)\<rparr>"
    by blast
  then show ?thesis
  proof cases
    case 1
    with st show ?thesis by simp
  next
    case 2
    have "idx_below_counter S'"
      unfolding 2 idx_below_counter_def using st set_AList_delete
      by (fastforce simp: idx_below_counter_def delete.rep_eq)
    with st 2 show ?thesis by simp
  qed
qed

lemma idx_below_counter_new_Session: "idx_below_counter (new_Session C l r t pp DAList.empty v)"
  by (simp add: idx_below_counter_def new_Session_def empty.rep_eq)

subsection \<open>A reachable session at the bound\<close>

lemma impl_of_busy_states: "DAList.impl_of (busy_states n) = map nth_used_entry [0..<n]"
proof (induction n)
  case 0
  show ?case by (simp add: busy_states_def empty.rep_eq)
next
  case (Suc n)
  have fresh: "fst (nth_used_entry n) \<notin> fst ` set (map nth_used_entry [0..<n])"
    by (auto simp: nth_used_entry_def nth_name_inject)
  have "busy_states (Suc n)
      = DAList.update (fst (nth_used_entry n)) (snd (nth_used_entry n)) (busy_states n)"
    by (simp add: busy_states_def)
  then have "DAList.impl_of (busy_states (Suc n))
      = AList.update (fst (nth_used_entry n)) (snd (nth_used_entry n)) (map nth_used_entry [0..<n])"
    by (simp add: update.rep_eq Suc.IH)
  also have "\<dots> = map nth_used_entry [0..<n] @ [nth_used_entry n]"
    using AList_update_fresh [OF fresh] by simp
  finally show ?case by simp
qed

lemma obj_size_busy_states: "obj_size (busy_states n) = n"
  by (simp add: obj_size_def impl_of_busy_states)

lemma lookup_busy_states_fresh: "DAList.lookup (busy_states n) (nth_name n) = None"
  by (auto simp: lookup.rep_eq impl_of_busy_states map_of_eq_None_iff nth_used_entry_def nth_name_inject)

lemma store_session_state_busy:
  assumes "n < MAX_SAFE_INTEGER"
  shows "store_session_state demo_collaborators (nth_tag n) (Suc 0) (busy_session n) = busy_session (Suc n)"
proof -
  have name: "SessionTag_toString demo_collaborators (nth_tag n) = nth_name n"
    by (simp add: demo_collaborators_def demo_tag_name_nth)
  have st: "DAList.update (nth_name n) \<lparr>idx = n, state = Suc 0, tag = nth_tag n\<rparr> (busy_states n)
      = busy_states (Suc n)"
    by (simp add: busy_states_def nth_used_entry_def)
  show ?thesis
    using assms unfolding store_session_state_def name Let_def
    by (simp add: busy_session_def lookup_busy_states_fresh st nth_name_inject)
qed

lemma insert_session_state_busy:
  assumes "n < 99"
  shows "insert_session_state demo_collaborators (nth_tag n) (Suc 0) (busy_session n, w)
           = (Inr (), busy_session (Suc n), w)"
proof -
  from assms have s: "store_session_state demo_collaborators (nth_tag n) (Suc 0) (busy_session n)
      = busy_session (Suc n)"
    by (intro store_session_state_busy) (simp add: MAX_SAFE_INTEGER_def)
  have "obj_size (session_states (busy_session (Suc n))) = Suc n"
    by (simp add: busy_session_def obj_size_busy_states)
  with assms have "obj_size (session_states
      (store_session_state demo_collaborators (nth_tag n) (Suc 0) (busy_session n))) < MAX_SESSION_STATES"
    by (simp add: s MAX_SESSION_STATES_def)
  from insert_session_state_small [OF this, of w] s show ?thesis by simp
qed

lemma nth_hello_fields:
  "pkm_prekey_id (nth_hello i) = 7"
  "pkm_identity_key (nth_hello i) = public_key alice_identity"
  "cm_session_tag (pkm_message (nth_hello i)) = nth_tag i"
  "cm_cipher_text (pkm_message (nth_hello i)) = [0x68, 0x69]"
  "cm_counter (pkm_message (nth_hello i)) = 0"
  by (simp_all add: nth_hello_def)

lemma new_state_nth_hello:
  "new_state demo_collaborators demo_store (nth_hello i) (S, bob_world)
     = (Inr 0, bob_world\<lparr>store := [(7, bob_prekey)], trace := trace bob_world @ [LoadPrekey 7]\<rparr>)"
proof -
  have "load_prekey demo_store (pkm_prekey_id (nth_hello i)) (store bob_world)
      = (Inr (Some bob_prekey), [(7, bob_prekey)])"
    by (simp add: demo_store_def bob_world_def nth_hello_fields)
  from new_state_demo [OF this, of S] show ?thesis by (simp add: nth_hello_fields)
qed

lemma decrypt_nth_hello:
  "SessionState_decrypt demo_collaborators (Envelope [] (PreKeyMsg (nth_hello i)))
     (pkm_message (nth_hello i)) 0 = (Inr [0x68, 0x69], Suc 0)"
  using decrypt_demo_fresh [of "Envelope [] (PreKeyMsg (nth_hello i))" "pkm_message (nth_hello i)"]
  by (simp add: nth_hello_fields)

lemma init_busy_session:
  "\<exists>w'. init_from_message demo_collaborators demo_store bob_identity
           (Envelope [] (PreKeyMsg (nth_hello 0))) bob_world
         = (Inr (busy_session 1, [0x68, 0x69]), w')"
proof -
  let ?new = "new_Session demo_collaborators bob_identity (pkm_identity_key (nth_hello 0))
      (cm_session_tag (pkm_message (nth_hello 0))) None DAList.empty 1 :: nat Session"
  have new: "new_Session demo_collaborators bob_identity (public_key alice_identity) (nth_tag 0)
        None DAList.empty 1
      = (busy_session 0)\<lparr>session_tag := nth_tag 0, session_tag_name := nth_name 0\<rparr>"
    by (simp add: new_Session_def busy_session_def busy_states_def
        demo_collaborators_def demo_tag_name_nth)
  have name: "SessionTag_toString demo_collaborators (nth_tag 0) = nth_name 0"
    by (simp add: demo_collaborators_def demo_tag_name_nth)
  have st: "DAList.update (nth_name 0) \<lparr>idx = 0, state = Suc 0, tag = nth_tag 0\<rparr> (busy_states 0)
      = busy_states (Suc 0)"
    by (simp add: busy_states_def nth_used_entry_def)
  have stored: "store_session_state demo_collaborators (cm_session_tag (pkm_message (nth_hello 0))) (Suc 0) ?new
      = busy_session 1"
    unfolding nth_hello_fields
    unfolding new store_session_state_def name Let_def
    by (simp add: busy_session_def lookup_busy_states_fresh [of 0] st MAX_SAFE_INTEGER_def)
  have msg: "env_message (Envelope [] (PreKeyMsg (nth_hello 0))) = PreKeyMsg (nth_hello 0)" by simp
  from init_from_message_consumes [OF msg new_state_nth_hello decrypt_nth_hello, of bob_identity]
  have i: "init_from_message demo_collaborators demo_store bob_identity
      (Envelope [] (PreKeyMsg (nth_hello 0))) bob_world =
     (case consume_prekey_init demo_store (pkm_prekey_id (nth_hello 0))
             (bob_world\<lparr>store := [(7, bob_prekey)], trace := trace bob_world @ [LoadPrekey 7]\<rparr>) of
        (Inl e, w3) \<Rightarrow> (Inl e, w3)
      | (Inr u, w3) \<Rightarrow> (Inr (busy_session 1, [0x68, 0x69]), w3))"
    unfolding stored .
  have ne: "pkm_prekey_id (nth_hello 0) \<noteq> MAX_PREKEY_ID"
    by (simp add: nth_hello_fields MAX_PREKEY_ID_def)
  have ld: "load_prekey demo_store (pkm_prekey_id (nth_hello 0))
      (store (bob_world\<lparr>store := [(7, bob_prekey)], trace := trace bob_world @ [LoadPrekey 7]\<rparr>))
      = (Inr (Some bob_prekey), [(7, bob_prekey)])"
    by (simp add: demo_store_def nth_hello_fields)
  have dl: "delete_prekey demo_store (pkm_prekey_id (nth_hello 0)) [(7, bob_prekey)] = (Inr (), [])"
    by (simp add: demo_store_def nth_hello_fields)
  show ?thesis
    unfolding i consume_prekey_init_run [OF ne ld dl] by simp
qed

lemma decrypt_busy_session:
  assumes "n < 99"
  shows "\<exists>w'. decrypt demo_collaborators demo_store (Envelope [] (PreKeyMsg (nth_hello n)))
           (busy_session n, bob_world) = (Inr [0x68, 0x69], busy_session (Suc n), w')"
proof -
  let ?env = "Envelope [] (PreKeyMsg (nth_hello n))"
  let ?w1 = "bob_world\<lparr>store := [(7, bob_prekey)], trace := trace bob_world @ [LoadPrekey 7]\<rparr>"
  have name: "SessionTag_toString demo_collaborators (nth_tag n) = nth_name n"
    by (simp add: demo_collaborators_def demo_tag_name_nth)
  have first: "decrypt_cipher_message demo_collaborators ?env (pkm_message (nth_hello n))
      (busy_session n, bob_world) = (Inl (Error InvalidMessage (Some CASE_205)), busy_session n, bob_world)"
    unfolding decrypt_cipher_message_def nth_hello_fields name
    by (simp add: busy_session_def lookup_busy_states_fresh)
  have ne: "pkm_prekey_id (nth_hello n) \<noteq> MAX_PREKEY_ID"
    by (simp add: nth_hello_fields MAX_PREKEY_ID_def)
  have ld: "load_prekey demo_store (pkm_prekey_id (nth_hello n)) (store ?w1)
      = (Inr (Some bob_prekey), [(7, bob_prekey)])"
    by (simp add: demo_store_def nth_hello_fields)
  have dl: "delete_prekey demo_store (pkm_prekey_id (nth_hello n)) [(7, bob_prekey)] = (Inr (), [])"
    by (simp add: demo_store_def nth_hello_fields)
  have p: "(busy_session (Suc n))\<lparr>pending_prekey := None\<rparr> = busy_session (Suc n)"
    by (simp add: busy_session_def)
  have rec: "\<exists>w'. recover_with_new_state demo_collaborators demo_store ?env (nth_hello n)
      (busy_session n, bob_world) = (Inr [0x68, 0x69], busy_session (Suc n), w')"
    unfolding recover_with_new_state_def
    by (simp add: new_state_nth_hello decrypt_nth_hello consume_prekey_recovery_run [OF ne ld dl]
        nth_hello_fields(3) insert_session_state_busy [OF assms] p)
  have fp: "IdentityKey_fingerprint demo_collaborators (pkm_identity_key (nth_hello n))
      = IdentityKey_fingerprint demo_collaborators (remote_identity (busy_session n))"
    by (simp add: nth_hello_fields busy_session_def)
  have "decrypt demo_collaborators demo_store ?env (busy_session n, bob_world)
      = recover_with_new_state demo_collaborators demo_store ?env (nth_hello n) (busy_session n, bob_world)"
    unfolding decrypt_def using fp by (simp add: decrypt_prekey_message_def first)
  with rec show ?thesis by simp
qed

lemma reachable_busy_session:
  "n < 99 \<Longrightarrow> reachable demo_collaborators demo_store (busy_session (Suc n))"
proof (induction n)
  case 0
  from init_busy_session obtain w' where
    "init_from_message demo_collaborators demo_store bob_identity
       (Envelope [] (PreKeyMsg (nth_hello 0))) bob_world = (Inr (busy_session 1, [0x68, 0x69]), w')" ..
  from reachable.from_message [OF this] show ?case by simp
next
  case (Suc n)
  then have r: "reachable demo_collaborators demo_store (busy_session (Suc n))" by simp
  from Suc.prems decrypt_busy_session [of "Suc n"] obtain w' where
    "decrypt demo_collaborators demo_store (Envelope [] (PreKeyMsg (nth_hello (Suc n))))
       (busy_session (Suc n), bob_world) = (Inr [0x68, 0x69], busy_session (Suc (Suc n)), w')"
    by auto
  from reachable.after_decrypt [OF r this] show ?case .
qed

theorem session_states_within_bound_witness:
  "codec_ok demo_collaborators \<and>
   reachable demo_collaborators demo_store (alice_session\<lparr>counter := 0\<rparr>) \<and>
   obj_size (session_states (alice_session\<lparr>counter := 0\<rparr>)) = 1 \<and>
   obj_size (session_states (alice_session\<lparr>counter := 0\<rparr>)) \<le> MAX_SESSION_STATES \<and>
   reachable demo_collaborators demo_store (busy_session 99) \<and>
   obj_size (session_states (busy_session 99)) = 99 \<and>
   obj_size (session_states (busy_session 99)) \<le> MAX_SESSION_STATES \<and>
   \<not> obj_size (session_states
          (store_session_state demo_collaborators (nth_tag 99) (Suc 0) (busy_session 99)))
       < MAX_SESSION_STATES \<and>
   insert_session_state demo_collaborators (nth_tag 99) (Suc 0) (busy_session 99, bob_world)
     = evict_oldest_session_state (busy_session 100, bob_world) \<and>
   (\<exists>S' w'.
      insert_session_state demo_collaborators (nth_tag 99) (Suc 0) (busy_session 99, bob_world)
        = (Inr (), S', w') \<and>
      obj_size (session_states S') \<le> MAX_SESSION_STATES)"
proof -
  have one: "obj_size (session_states (alice_session\<lparr>counter := 0\<rparr>)) = 1"
    by (simp add: obj_size_def impl_of_alice_states)
  note small = session_states_within_bound [OF codec_ok_demo reachable_alice_reloaded]
  have r: "reachable demo_collaborators demo_store (busy_session 99)"
    using reachable_busy_session [of 98] by simp
  have sz: "obj_size (session_states (busy_session 99)) = 99"
    by (simp add: busy_session_def obj_size_busy_states)
  have s: "store_session_state demo_collaborators (nth_tag 99) (Suc 0) (busy_session 99)
      = busy_session 100"
    using store_session_state_busy [of 99] by (simp add: MAX_SAFE_INTEGER_def)
  have full: "\<not> obj_size (session_states
          (store_session_state demo_collaborators (nth_tag 99) (Suc 0) (busy_session 99)))
       < MAX_SESSION_STATES"
    unfolding s by (simp add: busy_session_def obj_size_busy_states MAX_SESSION_STATES_def)
  note big = session_states_within_bound [OF codec_ok_demo r]
  obtain res S' w' where
    i: "insert_session_state demo_collaborators (nth_tag 99) (Suc 0) (busy_session 99, bob_world)
          = (res, S', w')"
    by (cases "insert_session_state demo_collaborators (nth_tag 99) (Suc 0) (busy_session 99, bob_world)")
  from big i full have
    res: "res = Inr ()" and
    bound: "obj_size (session_states S') \<le> MAX_SESSION_STATES" and
    ev: "(res, S', w') = evict_oldest_session_state
           (store_session_state demo_collaborators (nth_tag 99) (Suc 0) (busy_session 99), bob_world)"
    by blast+
  from i ev have e: "insert_session_state demo_collaborators (nth_tag 99) (Suc 0) (busy_session 99, bob_world)
     = evict_oldest_session_state (busy_session 100, bob_world)"
    unfolding s by simp
  from i res bound have x: "\<exists>S' w'.
      insert_session_state demo_collaborators (nth_tag 99) (Suc 0) (busy_session 99, bob_world)
        = (Inr (), S', w') \<and>
      obj_size (session_states S') \<le> MAX_SESSION_STATES"
    by blast
  from small big have b1: "obj_size (session_states (alice_session\<lparr>counter := 0\<rparr>)) \<le> MAX_SESSION_STATES"
    and b99: "obj_size (session_states (busy_session 99)) \<le> MAX_SESSION_STATES"
    by blast+
  from codec_ok_demo reachable_alice_reloaded one b1 r sz b99 full e x show ?thesis
    by (intro conjI)
qed

end
